(* ===== verification/Prelude.thy ===== *)
theory Prelude
  imports
    Main
    "HOL-Library.AList"
    "HOL-Library.Char_ord"
    "HOL-Library.List_Lexorder"
    "HOL-Library.Multiset"
begin

text \<open>
  The part of Go and of its standard library that the agent uses: errors as values, maps that may be
  nil and that are ranged over in an unspecified order, the string functions of package strings, and
  \<open>Atoi\<close>, \<open>ParseBool\<close> and decimal printing of package strconv. Go strings are byte strings, which is
  what a HOL \<^typ>\<open>string\<close> is. The lemmas collected here (\<open>go_map\<close>, \<open>go_str\<close>) are the automation that
  the component theories share.
\<close>

named_theorems go_map \<open>lookups in and updates of Go maps\<close>
named_theorems go_str \<open>characteristic facts of the functions of package strings\<close>

section \<open>Errors\<close>

text \<open>
  An error value: \<open>NotFound\<close> is an API error of reason NotFound, \<open>ErrDisabled\<close> the sentinel
  \<open>ratio.ErrorDisabled\<close>, \<open>NewErr\<close> an error known by its text only, and \<open>WrapErr p e s\<close> what
  \<open>fmt.Errorf\<close> makes of a format with the verb \<open>%w\<close> between the texts \<open>p\<close> and \<open>s\<close>.
\<close>

datatype err =
    NotFound string
  | ErrDisabled
  | NewErr string
  | WrapErr string err string

fun Error :: "err \<Rightarrow> string" where
  "Error (NotFound s) = s"
| "Error ErrDisabled = ''request ratio validation disabled''"
| "Error (NewErr s) = s"
| "Error (WrapErr p e s) = p @ Error e @ s"

text \<open>The classifications \<open>apierrors.IsNotFound\<close> and \<open>errors.Is(err, ErrorDisabled)\<close> look through wrapping.\<close>

fun IsNotFound :: "err \<Rightarrow> bool" where
  "IsNotFound (NotFound s) = True"
| "IsNotFound ErrDisabled = False"
| "IsNotFound (NewErr s) = False"
| "IsNotFound (WrapErr p e s) = IsNotFound e"

fun IsErrDisabled :: "err \<Rightarrow> bool" where
  "IsErrDisabled (NotFound s) = False"
| "IsErrDisabled ErrDisabled = True"
| "IsErrDisabled (NewErr s) = False"
| "IsErrDisabled (WrapErr p e s) = IsErrDisabled e"

definition IgnoreNotFound :: "err \<Rightarrow> err option" where
  "IgnoreNotFound e = (if IsNotFound e then None else Some e)"

text \<open>A computation that may panic instead of returning.\<close>

datatype 'a outcome = Returns 'a | Panics

section \<open>Maps\<close>

text \<open>
  A Go map with string keys: \<open>None\<close> is the nil map, \<open>Some al\<close> a map with the entries \<open>al\<close>. The order of
  the association list is the order in which a \<open>range\<close> loop visits the entries; Go leaves it open, so
  nothing proved may depend on it unless the statement says so.
\<close>

type_synonym 'v gomap = "(string \<times> 'v) list option"

definition entries :: "'v gomap \<Rightarrow> (string \<times> 'v) list" where
  "entries m = (case m of None \<Rightarrow> [] | Some al \<Rightarrow> al)"

text \<open>\<open>v, ok := m[k]\<close> and, for string values, \<open>m[k]\<close> with its zero value.\<close>

definition mget :: "'v gomap \<Rightarrow> string \<Rightarrow> 'v option" where
  "mget m k = map_of (entries m) k"

definition mstr :: "string gomap \<Rightarrow> string \<Rightarrow> string" where
  "mstr m k = (case mget m k of None \<Rightarrow> [] | Some v \<Rightarrow> v)"

text \<open>\<open>m[k] = v\<close> panics on the nil map.\<close>

definition mput :: "string \<Rightarrow> 'v \<Rightarrow> 'v gomap \<Rightarrow> 'v gomap outcome" where
  "mput k v m = (case m of None \<Rightarrow> Panics | Some al \<Rightarrow> Returns (Some (AList.update k v al)))"

definition mwf :: "'v gomap \<Rightarrow> bool" where
  "mwf m \<longleftrightarrow> distinct (map fst (entries m))"

lemma entries_simps [simp, go_map]:
  "entries None = []" "entries (Some al) = al"
  by (simp_all add: entries_def)

lemma mget_simps [simp, go_map]:
  "mget None k = None" "mget (Some al) k = map_of al k"
  by (simp_all add: mget_def)

lemma mwf_simps [simp, go_map]:
  "mwf None" "mwf (Some al) = distinct (map fst al)"
  by (simp_all add: mwf_def)

lemma mstr_None [simp]: "mstr None k = []"
  by (simp add: mstr_def)

lemma mstr_nonempty: "mstr m k \<noteq> [] \<Longrightarrow> mget m k = Some (mstr m k)"
  by (auto simp: mstr_def split: option.splits)

lemma mput_Returns [go_map]:
  "mput k v m = Returns m' \<longleftrightarrow> (\<exists>al. m = Some al \<and> m' = Some (AList.update k v al))"
  by (cases m) (auto simp: mput_def)

lemma mput_Panics [go_map]: "mput k v m = Panics \<longleftrightarrow> m = None"
  by (cases m) (auto simp: mput_def)

lemma map_of_update [simp, go_map]: "map_of (AList.update k v al) k' = (if k' = k then Some v else map_of al k')"
  by (simp add: update_conv')

lemma map_of_delete [simp, go_map]: "map_of (AList.delete k al) k' = (if k' = k then None else map_of al k')"
  by (simp add: delete_conv')

text \<open>Two iteration orders of one map give the same lookups.\<close>

lemma map_of_mset_eq:
  assumes "mset al = mset bl" and "distinct (map fst al)"
  shows "map_of al = map_of bl"
proof -
  have s: "set al = set bl" using assms(1) by (rule mset_eq_setD)
  have "mset (map fst al) = mset (map fst bl)" using assms(1) by (simp only: mset_map)
  then have d: "distinct (map fst bl)" using assms(2) mset_eq_imp_distinct_iff by blast
  show ?thesis using map_of_inject_set [OF assms(2) d] s by simp
qed

lemma map_of_rev_distinct: "distinct (map fst al) \<Longrightarrow> map_of (rev al) = map_of al"
  by (rule map_of_mset_eq) (simp_all add: rev_map [symmetric])

lemma map_of_filter_key [go_map]: "map_of (filter (\<lambda>(k, v). P k) al) k = (if P k then map_of al k else None)"
  by (induction al) auto

lemma map_of_foldl_update:
  "map_of (foldl (\<lambda>al (k, v). AList.update k v al) al kvs) k =
     (case map_of (rev kvs) k of None \<Rightarrow> map_of al k | Some v \<Rightarrow> Some v)"
  by (induction kvs arbitrary: al) (auto split: option.splits)

end
