(* ===== verification/GoStrings.thy ===== *)
theory GoStrings
  imports Prelude
begin

text \<open>
  The functions of packages strings, strconv and unicode/utf8 that the agent calls, on byte strings.
  \<open>strings.Split\<close>, \<open>SplitN\<close> and \<open>ReplaceAll\<close> are only ever called with a separator of one byte, and
  take it as a character here. Integers of type \<open>int\<close> have 64 bits.
\<close>

section \<open>Package strings\<close>

definition HasPrefix :: "string \<Rightarrow> string \<Rightarrow> bool" where
  "HasPrefix s p \<longleftrightarrow> length p \<le> length s \<and> take (length p) s = p"

definition HasSuffix :: "string \<Rightarrow> string \<Rightarrow> bool" where
  "HasSuffix s p \<longleftrightarrow> length p \<le> length s \<and> drop (length s - length p) s = p"

definition TrimPrefix :: "string \<Rightarrow> string \<Rightarrow> string" where
  "TrimPrefix s p = (if HasPrefix s p then drop (length p) s else s)"

definition TrimSuffix :: "string \<Rightarrow> string \<Rightarrow> string" where
  "TrimSuffix s p = (if HasSuffix s p then take (length s - length p) s else s)"

text \<open>\<open>Index s sub\<close> is the position of the first occurrence of \<open>sub\<close>.\<close>

fun Index :: "string \<Rightarrow> string \<Rightarrow> nat option" where
  "Index [] sub = (if sub = [] then Some 0 else None)"
| "Index (c # s) sub = (if HasPrefix (c # s) sub then Some 0 else map_option Suc (Index s sub))"

definition Contains :: "string \<Rightarrow> string \<Rightarrow> bool" where
  "Contains s sub \<longleftrightarrow> Index s sub \<noteq> None"

definition Cut :: "string \<Rightarrow> string \<Rightarrow> string \<times> string \<times> bool" where
  "Cut s sep = (case Index s sep of
      None \<Rightarrow> (s, [], False)
    | Some i \<Rightarrow> (take i s, drop (i + length sep) s, True))"

fun Split :: "char \<Rightarrow> string \<Rightarrow> string list" where
  "Split c [] = [[]]"
| "Split c (x # s) =
     (if x = c then [] # Split c s
      else (case Split c s of [] \<Rightarrow> [[x]] | p # ps \<Rightarrow> (x # p) # ps))"

text \<open>\<open>strings.SplitN(s, sep, 2)\<close>.\<close>

definition SplitN2 :: "char \<Rightarrow> string \<Rightarrow> string list" where
  "SplitN2 c s = (if c \<in> set s then [takeWhile (\<lambda>x. x \<noteq> c) s, tl (dropWhile (\<lambda>x. x \<noteq> c) s)] else [s])"

definition ReplaceAll :: "string \<Rightarrow> char \<Rightarrow> string \<Rightarrow> string" where
  "ReplaceAll s old new = concat (map (\<lambda>x. if x = old then new else [x]) s)"

fun Join :: "string list \<Rightarrow> string \<Rightarrow> string" where
  "Join [] sep = []"
| "Join [s] sep = s"
| "Join (s # ss) sep = s @ sep @ Join ss sep"

lemma HasPrefix_append [simp, go_str]: "HasPrefix (p @ s) p"
  by (simp add: HasPrefix_def)

lemma HasPrefix_iff: "HasPrefix s p \<longleftrightarrow> (\<exists>t. s = p @ t)"
  by (metis HasPrefix_def HasPrefix_append append_take_drop_id)

lemma TrimPrefix_append [simp, go_str]: "TrimPrefix (p @ s) p = s"
  by (simp add: TrimPrefix_def)

lemma HasSuffix_iff: "HasSuffix s p \<longleftrightarrow> (\<exists>t. s = t @ p)"
  by (metis HasSuffix_def add_diff_cancel_right' append_eq_conv_conj append_take_drop_id le_add2 length_append)

lemma TrimSuffix_append [simp, go_str]: "TrimSuffix (s @ p) p = s"
  by (simp add: TrimSuffix_def HasSuffix_def)

lemma TrimSuffix_cases [go_str]: "TrimSuffix s p = s \<or> s = TrimSuffix s p @ p"
  by (metis HasSuffix_iff TrimSuffix_append TrimSuffix_def)

lemma Index_first: "c \<notin> set a \<Longrightarrow> Index (a @ c # b) [c] = Some (length a)"
  by (induction a) (auto simp: HasPrefix_def)

lemma Index_absent: "c \<notin> set a \<Longrightarrow> Index a [c] = None"
  by (induction a) (auto simp: HasPrefix_def)

lemma Cut_first [go_str]: "c \<notin> set a \<Longrightarrow> Cut (a @ c # b) [c] = (a, b, True)"
  by (simp add: Cut_def Index_first)

lemma Cut_absent [go_str]: "c \<notin> set a \<Longrightarrow> Cut a [c] = (a, [], False)"
  by (simp add: Cut_def Index_absent)

lemma Index_Some: "Index s sub = Some i \<Longrightarrow> \<exists>a b. s = a @ sub @ b \<and> length a = i"
proof (induction s arbitrary: i)
  case Nil
  then show ?case by (auto split: if_splits)
next
  case (Cons c s)
  show ?case
  proof (cases "HasPrefix (c # s) sub")
    case True
    with Cons.prems show ?thesis by (auto simp: HasPrefix_iff)
  next
    case False
    with Cons.prems obtain j where "Index s sub = Some j" "i = Suc j" by auto
    with Cons.IH obtain a b where "s = a @ sub @ b" "length a = j" by blast
    then have "c # s = (c # a) @ sub @ b \<and> length (c # a) = i" using \<open>i = Suc j\<close> by simp
    then show ?thesis by blast
  qed
qed

lemma Index_occurs: "Index (a @ sub @ b) sub \<noteq> None"
  by (induction a) (cases sub; cases b; auto simp: HasPrefix_def; fail | simp)+

lemma Contains_iff [go_str]: "Contains s sub \<longleftrightarrow> (\<exists>a b. s = a @ sub @ b)"
  unfolding Contains_def using Index_Some Index_occurs by blast

lemma Split_nonempty [simp]: "Split c s \<noteq> []"
  by (induction s) (auto split: list.splits)

lemma Split_absent [go_str]: "c \<notin> set s \<Longrightarrow> Split c s = [s]"
  by (induction s) auto

lemma Split_append [go_str]: "c \<notin> set a \<Longrightarrow> Split c (a @ c # b) = a # Split c b"
  by (induction a) auto

lemma Split_Join: "Join (Split c s) [c] = s"
proof (induction s)
  case (Cons x s)
  obtain p ps where p: "Split c s = p # ps" by (cases "Split c s") auto
  show ?case using Cons p by (cases ps) auto
qed simp

lemma Split_parts: "p \<in> set (Split c s) \<Longrightarrow> c \<notin> set p"
  by (induction s arbitrary: p) (auto split: if_splits list.splits)

lemma SplitN2_append [go_str]: "c \<notin> set a \<Longrightarrow> SplitN2 c (a @ c # b) = [a, b]"
  by (induction a) (auto simp: SplitN2_def split: if_splits)

lemma ReplaceAll_simps [simp]:
  "ReplaceAll [] old new = []"
  "ReplaceAll (x # s) old new = (if x = old then new else [x]) @ ReplaceAll s old new"
  by (simp_all add: ReplaceAll_def)

lemma ReplaceAll_absent [go_str]: "old \<notin> set s \<Longrightarrow> ReplaceAll s old new = s"
  by (induction s) auto

lemma set_ReplaceAll: "set (ReplaceAll s old new) \<subseteq> (set s - {old}) \<union> set new"
  by (induction s) auto

section \<open>Package strconv\<close>

datatype num_err = ErrSyntax | ErrRange

definition digit_val :: "char \<Rightarrow> nat option" where
  "digit_val c = (let b = of_char c :: nat in if 48 \<le> b \<and> b \<le> 57 then Some (b - 48) else None)"

definition maxUint64 :: nat where
  "maxUint64 = 2 ^ 64 - 1"

text \<open>The scanning loop of \<open>ParseUint\<close> in base 10: errors are reported in the order of the bytes.\<close>

fun parseUintLoop :: "nat \<Rightarrow> string \<Rightarrow> num_err + nat" where
  "parseUintLoop n [] = Inr n"
| "parseUintLoop n (c # s) = (case digit_val c of
      None \<Rightarrow> Inl ErrSyntax
    | Some d \<Rightarrow>
        if n \<ge> maxUint64 div 10 + 1 then Inl ErrRange
        else if n * 10 + d > maxUint64 then Inl ErrRange
        else parseUintLoop (n * 10 + d) s)"

definition ParseUint :: "string \<Rightarrow> num_err + nat" where
  "ParseUint s = (if s = [] then Inl ErrSyntax else parseUintLoop 0 s)"

text \<open>\<open>strconv.Atoi\<close>, that is \<open>ParseInt(s, 10, 0)\<close> for 64-bit \<open>int\<close>.\<close>

definition Atoi :: "string \<Rightarrow> num_err + int" where
  "Atoi s = (case s of
      [] \<Rightarrow> Inl ErrSyntax
    | c # t \<Rightarrow>
        (let neg = (c = CHR ''-'');
             ds = (if c = CHR ''+'' \<or> c = CHR ''-'' then t else s)
         in case ParseUint ds of
              Inl ErrSyntax \<Rightarrow> Inl ErrSyntax
            | Inl ErrRange \<Rightarrow> Inl ErrRange
            | Inr un \<Rightarrow>
                if \<not> neg \<and> un \<ge> 2 ^ 63 then Inl ErrRange
                else if neg \<and> un > 2 ^ 63 then Inl ErrRange
                else Inr (if neg then - int un else int un)))"

definition ParseBool :: "string \<Rightarrow> bool option" where
  "ParseBool s =
     (if s \<in> set [''1'', ''t'', ''T'', ''true'', ''TRUE'', ''True''] then Some True
      else if s \<in> set [''0'', ''f'', ''F'', ''false'', ''FALSE'', ''False''] then Some False
      else None)"

text \<open>Decimal printing (\<open>%d\<close>).\<close>

definition digit_char :: "nat \<Rightarrow> char" where
  "digit_char d = char_of (48 + d)"

fun showNat :: "nat \<Rightarrow> string" where
  "showNat n = (if n < 10 then [digit_char n] else showNat (n div 10) @ [digit_char (n mod 10)])"

declare showNat.simps [simp del]

definition Itoa :: "int \<Rightarrow> string" where
  "Itoa i = (if i < 0 then CHR ''-'' # showNat (nat (- i)) else showNat (nat i))"

lemma digit_val_digit_char [simp]: "d < 10 \<Longrightarrow> digit_val (digit_char d) = Some d"
  by (simp add: digit_val_def digit_char_def Let_def)

lemma showNat_nonempty [simp]: "showNat n \<noteq> []"
  by (subst showNat.simps) simp

lemma parseUintLoop_append:
  "parseUintLoop n (a @ b) = (case parseUintLoop n a of Inl e \<Rightarrow> Inl e | Inr m \<Rightarrow> parseUintLoop m b)"
  by (induction n a rule: parseUintLoop.induct) (auto split: option.splits)

lemma parseUintLoop_showNat: "n \<le> maxUint64 \<Longrightarrow> parseUintLoop 0 (showNat n) = Inr n"
proof (induction n rule: showNat.induct)
  case (1 n)
  show ?case
  proof (cases "n < 10")
    case True
    then show ?thesis by (subst showNat.simps) (simp add: maxUint64_def)
  next
    case False
    with "1.IH" "1.prems" have ih: "parseUintLoop 0 (showNat (n div 10)) = Inr (n div 10)" by simp
    have "n div 10 \<le> maxUint64 div 10" using "1.prems" by (rule div_le_mono)
    moreover have "n div 10 * 10 + n mod 10 = n" by simp
    ultimately show ?thesis using False ih "1.prems"
      by (subst showNat.simps) (simp add: parseUintLoop_append)
  qed
qed

lemma showNat_head: "hd (showNat n) \<noteq> CHR ''+'' \<and> hd (showNat n) \<noteq> CHR ''-''"
proof (induction n rule: showNat.induct)
  case (1 n)
  have d: "digit_char m \<noteq> CHR ''+'' \<and> digit_char m \<noteq> CHR ''-''" if "m < 10" for m
  proof -
    have "digit_val (digit_char m) \<noteq> digit_val (CHR ''+'')"
      and "digit_val (digit_char m) \<noteq> digit_val (CHR ''-'')"
      using that by (simp_all add: digit_val_def [of "CHR ''+''"] digit_val_def [of "CHR ''-''"])
    then show ?thesis by metis
  qed
  show ?case using 1 d by (subst (1 2) showNat.simps) auto
qed

lemma parseUintLoop_bound: "n \<le> maxUint64 \<Longrightarrow> parseUintLoop n s = Inr m \<Longrightarrow> m \<le> maxUint64"
  by (induction n s rule: parseUintLoop.induct) (auto split: option.splits if_splits)

lemma Atoi_bounds: "Atoi s = Inr v \<Longrightarrow> - (2 ^ 63) \<le> v \<and> v < 2 ^ 63"
  by (auto simp: Atoi_def Let_def split: list.splits sum.splits num_err.splits if_splits)

lemma Atoi_Itoa: "- (2 ^ 63) \<le> v \<Longrightarrow> v < 2 ^ 63 \<Longrightarrow> Atoi (Itoa v) = Inr v"
proof (cases "v < 0")
  case True
  assume "- (2 ^ 63) \<le> v"
  then have "nat (- v) \<le> 2 ^ 63" by simp
  moreover from this have "nat (- v) \<le> maxUint64" by (simp add: maxUint64_def)
  ultimately show ?thesis using True
    by (simp add: Atoi_def Itoa_def ParseUint_def parseUintLoop_showNat)
next
  case False
  assume "v < 2 ^ 63"
  then have b: "nat v < 2 ^ 63" using False by simp
  then have p: "parseUintLoop 0 (showNat (nat v)) = Inr (nat v)"
    by (intro parseUintLoop_showNat) (simp add: maxUint64_def)
  obtain c t where ct: "showNat (nat v) = c # t" by (cases "showNat (nat v)") auto
  have "c \<noteq> CHR ''+''" "c \<noteq> CHR ''-''" using showNat_head [of "nat v"] ct by auto
  then show ?thesis using False b p ct
    by (simp add: Atoi_def Itoa_def ParseUint_def)
qed

section \<open>Quoting (the verb %q)\<close>

text \<open>
  \<open>utf8.DecodeRuneInString\<close>: the rune at the start of a non-empty string and its width; an invalid
  encoding gives the rune error \<open>U+FFFD\<close> with width 1.
\<close>

definition in_range :: "nat \<Rightarrow> nat \<Rightarrow> nat \<Rightarrow> bool" where
  "in_range lo hi b \<longleftrightarrow> lo \<le> b \<and> b \<le> hi"

definition runeError :: nat where
  "runeError = 65533"

fun DecodeRune :: "nat list \<Rightarrow> nat \<times> nat" where
  "DecodeRune [] = (runeError, 0)"
| "DecodeRune (a # s) =
     (if a < 128 then (a, 1)
      else if in_range 194 223 a then
        (case s of b # _ \<Rightarrow>
             if in_range 128 191 b then ((a - 192) * 64 + (b - 128), 2) else (runeError, 1)
         | _ \<Rightarrow> (runeError, 1))
      else if in_range 224 239 a then
        (case s of b # c # _ \<Rightarrow>
             if in_range (if a = 224 then 160 else 128) (if a = 237 then 159 else 191) b \<and> in_range 128 191 c
             then ((a - 224) * 4096 + (b - 128) * 64 + (c - 128), 3) else (runeError, 1)
         | _ \<Rightarrow> (runeError, 1))
      else if in_range 240 244 a then
        (case s of b # c # d # _ \<Rightarrow>
             if in_range (if a = 240 then 144 else 128) (if a = 244 then 143 else 191) b
               \<and> in_range 128 191 c \<and> in_range 128 191 d
             then ((a - 240) * 262144 + (b - 128) * 4096 + (c - 128) * 64 + (d - 128), 4)
             else (runeError, 1)
         | _ \<Rightarrow> (runeError, 1))
      else (runeError, 1))"

definition lowerhex :: string where
  "lowerhex = ''0123456789abcdef''"

definition hex_char :: "nat \<Rightarrow> char" where
  "hex_char d = lowerhex ! (d mod 16)"

text \<open>The last \<open>n\<close> hexadecimal digits of a number.\<close>

fun hexDigits :: "nat \<Rightarrow> nat \<Rightarrow> string" where
  "hexDigits 0 r = []"
| "hexDigits (Suc n) r = hexDigits n (r div 16) @ [hex_char r]"

text \<open>
  \<open>strconv.IsPrint\<close> is a table of Unicode: the parameter \<open>isPrint\<close> stands for it on runes outside
  ASCII.
\<close>

definition IsPrint :: "(nat \<Rightarrow> bool) \<Rightarrow> nat \<Rightarrow> bool" where
  "IsPrint isPrint r = (if r < 128 then 32 \<le> r \<and> r < 127 else isPrint r)"

definition backslash :: char where
  "backslash = CHR 0x5C"

definition escapedRune :: "(nat \<Rightarrow> bool) \<Rightarrow> nat \<Rightarrow> string \<Rightarrow> string" where
  "escapedRune isPrint r enc =
     (if r = 34 \<or> r = 92 then [backslash, char_of r]
      else if IsPrint isPrint r then enc
      else if r = 7 then [backslash, CHR ''a'']
      else if r = 8 then [backslash, CHR ''b'']
      else if r = 12 then [backslash, CHR ''f'']
      else if r = 10 then [backslash, CHR ''n'']
      else if r = 13 then [backslash, CHR ''r'']
      else if r = 9 then [backslash, CHR ''t'']
      else if r = 11 then [backslash, CHR ''v'']
      else if r < 32 \<or> r = 127 then [backslash, CHR ''x''] @ hexDigits 2 r
      else if r < 65536 then [backslash, CHR ''u''] @ hexDigits 4 r
      else [backslash, CHR ''U''] @ hexDigits 8 r)"

function quoteLoop :: "(nat \<Rightarrow> bool) \<Rightarrow> string \<Rightarrow> string" where
  "quoteLoop isPrint [] = []"
| "quoteLoop isPrint (c # s) =
     (let (r, w) = DecodeRune (map of_char (c # s)) in
      if w = 1 \<and> r = runeError
      then [backslash, CHR ''x''] @ hexDigits 2 (of_char c) @ quoteLoop isPrint s
      else escapedRune isPrint r (take w (c # s)) @ quoteLoop isPrint (drop (w - 1) s))"
  by pat_completeness auto
termination
  by (relation "measure (length \<circ> snd)") auto

declare quoteLoop.simps(2) [simp del]

definition Quote :: "(nat \<Rightarrow> bool) \<Rightarrow> string \<Rightarrow> string" where
  "Quote isPrint s = [CHR 0x22] @ quoteLoop isPrint s @ [CHR 0x22]"

definition newline :: char where
  "newline = CHR 0x0A"

text \<open>A rune of more than one byte is encoded by bytes outside ASCII only.\<close>

lemma DecodeRune_wide:
  assumes "DecodeRune s = (r, w)" and "w \<noteq> 1 \<or> r \<noteq> runeError" and "128 \<le> hd s" and "s \<noteq> []"
  shows "\<forall>b \<in> set (take w s). 128 \<le> b" and "128 \<le> r"
  using assms
  by (induction s rule: DecodeRune.induct)
    (auto simp: in_range_def runeError_def split: if_splits list.splits)

lemma hex_char_lowerhex: "hex_char r \<in> set lowerhex"
proof -
  have "length lowerhex = 16" by (simp add: lowerhex_def)
  then show ?thesis unfolding hex_char_def by (intro nth_mem) simp
qed

lemma newline_not_hex: "newline \<notin> set (hexDigits n r)"
proof (induction n arbitrary: r)
  case (Suc n)
  have "newline \<notin> set lowerhex" by (simp add: lowerhex_def newline_def)
  then have "newline \<noteq> hex_char r" using hex_char_lowerhex by metis
  with Suc show ?case by simp
qed simp

lemma newline_not_escapedRune:
  assumes "newline \<in> set enc \<Longrightarrow> \<not> IsPrint isPrint r"
  shows "newline \<notin> set (escapedRune isPrint r enc)"
proof -
  have c: "newline \<noteq> backslash" "newline \<noteq> CHR ''a''" "newline \<noteq> CHR ''b''" "newline \<noteq> CHR ''f''"
    "newline \<noteq> CHR ''n''" "newline \<noteq> CHR ''r''" "newline \<noteq> CHR ''t''" "newline \<noteq> CHR ''v''"
    "newline \<noteq> CHR ''x''" "newline \<noteq> CHR ''u''" "newline \<noteq> CHR ''U''"
    by (simp_all add: newline_def backslash_def)
  have q: "newline \<noteq> char_of (34::nat)" "newline \<noteq> char_of (92::nat)"
    by (simp_all add: newline_def char_of_def)
  show ?thesis using assms
    by (auto simp: escapedRune_def c q newline_not_hex)
qed

lemma quoteLoop_Cons:
  assumes "DecodeRune (map of_char (c # s)) = (r, w)"
  shows "quoteLoop isPrint (c # s) =
     (if w = 1 \<and> r = runeError
      then [backslash, CHR ''x''] @ hexDigits 2 (of_char c) @ quoteLoop isPrint s
      else escapedRune isPrint r (take w (c # s)) @ quoteLoop isPrint (drop (w - 1) s))"
  unfolding quoteLoop.simps(2) assms Let_def prod.case ..

text \<open>A printable rune is never encoded with a line feed.\<close>

lemma newline_not_encoded:
  assumes d: "DecodeRune (map of_char (c # s)) = (r, w)" and v: "w \<noteq> 1 \<or> r \<noteq> runeError"
    and nl: "newline \<in> set (take w (c # s))"
  shows "\<not> IsPrint isPrint r"
proof (cases "of_char c < (128::nat)")
  case True
  with d have "r = of_char c" "w = 1" by auto
  with nl show ?thesis by (auto simp: IsPrint_def newline_def)
next
  case False
  have "\<forall>b \<in> set (take w (map of_char (c # s))). (128::nat) \<le> b"
    by (rule DecodeRune_wide(1) [OF d v]) (use False in simp_all)
  with nl have "(128::nat) \<le> of_char newline" unfolding take_map set_map by blast
  then show ?thesis by (simp add: newline_def)
qed

text \<open>No byte of a quoted string is a line feed.\<close>

lemma newline_not_quoteLoop: "newline \<notin> set (quoteLoop isPrint s)"
proof (induction isPrint s rule: quoteLoop.induct)
  case (2 isPrint c s)
  obtain r w where d: "DecodeRune (map of_char (c # s)) = (r, w)" by (cases "DecodeRune (map of_char (c # s))")
  show ?case
  proof (cases "w = 1 \<and> r = runeError")
    case True
    with "2.IH"(1) [OF d [symmetric] refl True] newline_not_hex [of 2 "of_char c"] show ?thesis
      unfolding quoteLoop_Cons [OF d] by (simp add: newline_def backslash_def del: hexDigits.simps)
  next
    case False
    then have "newline \<notin> set (escapedRune isPrint r (take w (c # s)))"
      using newline_not_encoded [OF d] by (intro newline_not_escapedRune) blast
    with "2.IH"(2) [OF d [symmetric] refl False] False show ?thesis
      unfolding quoteLoop_Cons [OF d] by (simp only: if_False set_append Un_iff simp_thms)
  qed
qed simp

lemma newline_not_Quote: "newline \<notin> set (Quote isPrint s)"
  using newline_not_quoteLoop [of isPrint s] by (auto simp: Quote_def newline_def)

end
