(* ===== verification/Kube.thy ===== *)
theory Kube
  imports GoStrings
begin

text \<open>
  The Kubernetes objects the agent works on, reduced to the fields it reads and writes; admission
  requests and responses; JSON documents, JSON pointers (RFC 6901) and the effect of the JSON patch
  operation \<open>add\<close> (RFC 6902) on them; and the record \<open>ext\<close> of the functions of third-party packages
  that the agent calls, which every definition that uses one takes as an argument. What the agent
  relies on of these functions is stated by the predicates at the end of the theory.
\<close>

section \<open>JSON documents\<close>

datatype json =
    JNull
  | JBool bool
  | JInt int
  | JFloat string
  | JStr string
  | JArr "json list"
  | JObj "(string \<times> json) list"

text \<open>The value at a path of object keys.\<close>

fun jget :: "string list \<Rightarrow> json \<Rightarrow> json option" where
  "jget [] j = Some j"
| "jget (k # ks) (JObj m) = (case map_of m k of None \<Rightarrow> None | Some j \<Rightarrow> jget ks j)"
| "jget (k # ks) j = None"

fun jstrings :: "(string \<times> json) list \<Rightarrow> (string \<times> string) list option" where
  "jstrings [] = Some []"
| "jstrings ((k, JStr v) # m) = map_option (\<lambda>r. (k, v) # r) (jstrings m)"
| "jstrings ((k, j) # m) = None"

text \<open>An object all of whose values are strings, as a Go \<open>map[string]string\<close>.\<close>

fun string_map :: "json \<Rightarrow> string gomap" where
  "string_map (JObj m) = jstrings m"
| "string_map j = None"

definition string_map_at :: "string list \<Rightarrow> json \<Rightarrow> string gomap" where
  "string_map_at path j = (case jget path j of None \<Rightarrow> None | Some j' \<Rightarrow> string_map j')"

definition json_of_map :: "(string \<times> string) list \<Rightarrow> json" where
  "json_of_map al = JObj (map (\<lambda>(k, v). (k, JStr v)) al)"

section \<open>JSON pointers and patches\<close>

text \<open>Reference tokens of a pointer: split at slashes, then \<open>~1\<close> is a slash and \<open>~0\<close> a tilde.\<close>

fun unescape :: "string \<Rightarrow> string" where
  "unescape [] = []"
| "unescape [c] = [c]"
| "unescape (c # d # s) =
     (if c = CHR ''~'' \<and> d = CHR ''1'' then CHR ''/'' # unescape s
      else if c = CHR ''~'' \<and> d = CHR ''0'' then CHR ''~'' # unescape s
      else c # unescape (d # s))"

definition pointer_tokens :: "string \<Rightarrow> string list option" where
  "pointer_tokens p = (case Split (CHR ''/'') p of
      [] \<Rightarrow> None
    | t # ts \<Rightarrow> if t = [] then Some (map unescape ts) else None)"

text \<open>The operation \<open>add\<close> on a member of an object; its parent must exist.\<close>

fun json_add :: "string list \<Rightarrow> json \<Rightarrow> json \<Rightarrow> json option" where
  "json_add [] v j = Some v"
| "json_add [k] v (JObj m) = Some (JObj (AList.update k v m))"
| "json_add (k # k' # ks) v (JObj m) = (case map_of m k of
      None \<Rightarrow> None
    | Some j \<Rightarrow> map_option (\<lambda>j'. JObj (AList.update k j' m)) (json_add (k' # ks) v j))"
| "json_add (k # ks) v j = None"

record Operation =
  op_Operation :: string
  op_Path :: string
  op_Value :: json

definition apply_op :: "Operation \<Rightarrow> json \<Rightarrow> json option" where
  "apply_op p j = (case pointer_tokens (op_Path p) of
      None \<Rightarrow> None
    | Some ts \<Rightarrow> if op_Operation p = ''add'' then json_add ts (op_Value p) j else None)"

fun apply_patch :: "Operation list \<Rightarrow> json \<Rightarrow> json option" where
  "apply_patch [] j = Some j"
| "apply_patch (p # ps) j = (case apply_op p j of None \<Rightarrow> None | Some j' \<Rightarrow> apply_patch ps j')"

section \<open>Admission requests and responses\<close>

record UserInfo =
  Username :: string
  Groups :: "string list"

record GroupVersionKind =
  gvk_Group :: string
  gvk_Version :: string
  gvk_Kind :: string

datatype AdmissionOperation = Create | Update | Delete | Connect

record Request =
  rq_Kind :: GroupVersionKind
  rq_Name :: string
  rq_Namespace :: string
  rq_Operation :: AdmissionOperation
  rq_UserInfo :: UserInfo
  rq_Object :: string
  rq_OldObject :: string

text \<open>
  A response is built by one of the four constructors of the package admission or, in the ratio
  validator, as a struct literal with its fields \<open>Allowed\<close>, \<open>Result\<close> and \<open>Warnings\<close>.
\<close>

datatype Response =
    Allowed string
  | Denied string
  | Errored int err
  | Patched string "Operation list"
  | RawResponse bool "(int \<times> string) option" "string list"

fun resp_allowed :: "Response \<Rightarrow> bool" where
  "resp_allowed (Allowed m) = True"
| "resp_allowed (Denied m) = False"
| "resp_allowed (Errored c e) = False"
| "resp_allowed (Patched m ps) = True"
| "resp_allowed (RawResponse a r w) = a"

text \<open>The document the API server goes on with when a response allows it.\<close>

fun resp_object :: "Response \<Rightarrow> json \<Rightarrow> json option" where
  "resp_object (Allowed m) j = Some j"
| "resp_object (Patched m ps) j = apply_patch ps j"
| "resp_object (Denied m) j = None"
| "resp_object (Errored c e) j = None"
| "resp_object (RawResponse a r w) j = (if a then Some j else None)"

section \<open>Objects\<close>

record Namespace =
  ns_Name :: string
  ns_Labels :: "string gomap"
  ns_Annotations :: "string gomap"
  ns_DeletionTimestamp :: "int option"

record 'q Container =
  ct_Memory :: 'q
  ct_Cpu :: 'q

record 'q PodSpec =
  Containers :: "'q Container list"
  NodeSelector :: "string gomap"
  RestartPolicy :: string
  ActiveDeadlineSeconds :: "int option"

record 'q Pod =
  pod_Name :: string
  pod_Phase :: string
  pod_Spec :: "'q PodSpec"

record 'q Workload =
  wl_Replicas :: "int option"
  wl_Template :: "'q PodSpec"

record User =
  usr_Name :: string
  usr_Annotations :: "string gomap"

record Group =
  grp_Name :: string
  grp_Users :: "string list"

text \<open>api/v1: the spec of a profile is the spec of the upstream UsageProfile.\<close>

record UsageProfileSpec =
  ups_NamespaceCount :: int
  ups_Resources :: "json gomap"

record ZoneUsageProfileSpec =
  zups_UpstreamSpec :: UsageProfileSpec

record ZoneUsageProfile =
  zup_Name :: string
  zup_Spec :: ZoneUsageProfileSpec

section \<open>Third-party functions\<close>

text \<open>
  \<open>wildcard.Match\<close> (github.com/minio/pkg), \<open>multierr.Combine\<close> (go.uber.org/multierr), and from
  k8s.io/apimachinery: \<open>labels.Set.String\<close>, \<open>labels.Parse\<close> (a selector is what its method \<open>Matches\<close>
  computes), \<open>labels.ConvertSelectorToLabelsMap\<close>, the getters of \<open>unstructured.Unstructured\<close>,
  \<open>NestedStringMap\<close> and \<open>NestedString\<close>, and \<open>sets.List\<close>. \<open>ResultMessage\<close> is the message that the
  package admission puts into the \<open>Result\<close> of a response it builds. \<open>isPrint\<close> is the Unicode table behind
  \<open>strconv.IsPrint\<close>.
\<close>

record ext =
  wildcard_Match :: "string \<Rightarrow> string \<Rightarrow> bool"
  multierr_Combine :: "err option list \<Rightarrow> err option"
  labels_String :: "string gomap \<Rightarrow> string"
  labels_Parse :: "string \<Rightarrow> err + (string gomap \<Rightarrow> bool)"
  ConvertSelectorToLabelsMap :: "string \<Rightarrow> string gomap \<times> err option"
  GetLabels :: "json \<Rightarrow> string gomap"
  GetAnnotations :: "json \<Rightarrow> string gomap"
  GetKind :: "json \<Rightarrow> string"
  NestedStringMap :: "json \<Rightarrow> string list \<Rightarrow> string gomap \<times> bool \<times> err option"
  NestedString :: "json \<Rightarrow> string list \<Rightarrow> string \<times> bool \<times> err option"
  sets_List :: "string set \<Rightarrow> string list"
  ResultMessage :: "Response \<Rightarrow> string option"
  isPrint :: "nat \<Rightarrow> bool"

text \<open>The error value of a failed \<open>strconv.Atoi\<close>.\<close>

definition AtoiErr :: "ext \<Rightarrow> string \<Rightarrow> num_err \<Rightarrow> err" where
  "AtoiErr E s e = NewErr (''strconv.Atoi: parsing '' @ Quote (isPrint E) s @ '': '' @
     (case e of ErrSyntax \<Rightarrow> ''invalid syntax'' | ErrRange \<Rightarrow> ''value out of range''))"

text \<open>Combining errors gives no error exactly if none of them is one.\<close>

definition combine_ok :: "ext \<Rightarrow> bool" where
  "combine_ok E \<longleftrightarrow> (\<forall>es. multierr_Combine E es = None \<longleftrightarrow> (\<forall>e \<in> set es. e = None))"

text \<open>
  \<open>NestedStringMap\<close> finds an object of strings at the path, and reports that nothing is there if the
  field is missing or is something else; the getters for labels and annotations read such objects.
\<close>

definition nested_map_ok :: "ext \<Rightarrow> bool" where
  "nested_map_ok E \<longleftrightarrow>
     (\<forall>j path. fst (NestedStringMap E j path) = string_map_at path j \<and>
               fst (snd (NestedStringMap E j path)) = (string_map_at path j \<noteq> None))"

definition getters_ok :: "ext \<Rightarrow> bool" where
  "getters_ok E \<longleftrightarrow>
     (\<forall>j. GetLabels E j = string_map_at [''metadata'', ''labels''] j \<and>
          GetAnnotations E j = string_map_at [''metadata'', ''annotations''] j)"

text \<open>\<open>sets.List\<close> gives the elements of a set as a sorted slice.\<close>

definition sets_ok :: "ext \<Rightarrow> bool" where
  "sets_ok E \<longleftrightarrow> (\<forall>S. finite S \<longrightarrow> sets_List E S = sorted_list_of_set S)"

lemmas ext_laws = combine_ok_def nested_map_ok_def getters_ok_def sets_ok_def

section \<open>Facts about documents and patches\<close>

lemma jstrings_map [simp]: "jstrings (map (\<lambda>(k, v). (k, JStr v)) al) = Some al"
  by (induction al) auto

lemma string_map_json_of_map [simp]: "string_map (json_of_map al) = Some al"
  by (simp add: json_of_map_def)

lemma jstrings_update:
  "jstrings m = Some al \<Longrightarrow> jstrings (AList.update k (JStr v) m) = Some (AList.update k v al)"
proof (induction m arbitrary: al)
  case (Cons x m)
  obtain k' j where x: "x = (k', j)" by (cases x)
  with Cons.prems obtain v' where j: "j = JStr v'" by (cases j) auto
  with Cons.prems x obtain al' where "jstrings m = Some al'" "al = (k', v') # al'" by auto
  with Cons.IH x j show ?case by auto
qed auto

lemma jget_json_add: "json_add p v j = Some j' \<Longrightarrow> jget p j' = Some v"
  by (induction p v j arbitrary: j' rule: json_add.induct) (auto split: option.splits)

text \<open>Paths that part ways: neither leads into the other.\<close>

fun diverge :: "string list \<Rightarrow> string list \<Rightarrow> bool" where
  "diverge (x # p) (y # q) = (x \<noteq> y \<or> diverge p q)"
| "diverge p q = False"

lemma jget_json_add_other: "json_add p v j = Some j' \<Longrightarrow> diverge p q \<Longrightarrow> jget q j' = jget q j"
proof (induction p v j arbitrary: j' q rule: json_add.induct)
  case (2 k v m)
  then show ?case by (cases q) auto
next
  case (3 k k' ks v m)
  from "3.prems"(2) obtain q0 qs where q: "q = q0 # qs" by (cases q) auto
  from "3.prems" obtain j jn where j: "map_of m k = Some j" "json_add (k' # ks) v j = Some jn"
    "j' = JObj (AList.update k jn m)" by (auto split: option.splits)
  show ?case
  proof (cases "q0 = k")
    case True
    with "3.IH" [OF j(1) j(2), of qs] "3.prems"(2) q j show ?thesis by auto
  next
    case False
    with q j show ?thesis by simp
  qed
qed auto

section \<open>A sample of the third-party functions\<close>

text \<open>Concrete functions that satisfy the laws above, used where a statement is applied to an input.\<close>

definition sample_ext :: ext where
  "sample_ext = \<lparr>wildcard_Match = (\<lambda>p s. p = s),
     multierr_Combine = (\<lambda>es. case filter (\<lambda>e. e \<noteq> None) es of [] \<Rightarrow> None | e # _ \<Rightarrow> e),
     labels_String = (\<lambda>m. concat (map (\<lambda>(k, v). k @ ''='' @ v) (entries m))),
     labels_Parse = (\<lambda>s. Inr (\<lambda>m. True)),
     ConvertSelectorToLabelsMap = (\<lambda>s. case Cut s ''='' of (k, v, ok) \<Rightarrow> (if ok then Some [(k, v)] else Some [], None)),
     GetLabels = string_map_at [''metadata'', ''labels''],
     GetAnnotations = string_map_at [''metadata'', ''annotations''],
     GetKind = (\<lambda>j. case jget [''kind''] j of Some (JStr k) \<Rightarrow> k | _ \<Rightarrow> []),
     NestedStringMap = (\<lambda>j p. (string_map_at p j, string_map_at p j \<noteq> None, None)),
     NestedString = (\<lambda>j p. case jget p j of Some (JStr v) \<Rightarrow> (v, True, None) | _ \<Rightarrow> ([], False, None)),
     sets_List = sorted_list_of_set, ResultMessage = (\<lambda>_. None), isPrint = (\<lambda>_. False)\<rparr>"

lemma sample_ext_simps:
  "wildcard_Match sample_ext p s = (p = s)"
  "labels_String sample_ext m = concat (map (\<lambda>(k, v). k @ ''='' @ v) (entries m))"
  "labels_Parse sample_ext s = Inr (\<lambda>m. True)"
  "ConvertSelectorToLabelsMap sample_ext s =
     (case Cut s ''='' of (k, v, ok) \<Rightarrow> (if ok then Some [(k, v)] else Some [], None))"
  "GetLabels sample_ext = string_map_at [''metadata'', ''labels'']"
  "GetAnnotations sample_ext = string_map_at [''metadata'', ''annotations'']"
  "GetKind sample_ext j = (case jget [''kind''] j of Some (JStr k) \<Rightarrow> k | _ \<Rightarrow> [])"
  "NestedStringMap sample_ext j path = (string_map_at path j, string_map_at path j \<noteq> None, None)"
  "NestedString sample_ext j path = (case jget path j of Some (JStr v) \<Rightarrow> (v, True, None) | _ \<Rightarrow> ([], False, None))"
  "isPrint sample_ext r = False"
  by (simp_all add: sample_ext_def)

lemma sample_ext_laws:
  "combine_ok sample_ext" "nested_map_ok sample_ext" "getters_ok sample_ext" "sets_ok sample_ext"
proof -
  have "multierr_Combine sample_ext es = None \<longleftrightarrow> (\<forall>e \<in> set es. e = None)" for es
    by (induction es) (auto simp: sample_ext_def)
  then show "combine_ok sample_ext" by (simp add: combine_ok_def)
qed (simp_all add: ext_laws sample_ext_def)

end
