(* ===== verification/Skipper.thy ===== *)
theory Skipper
  imports Kube
begin

text \<open>
  Packages \<open>skipper\<close> and \<open>skipper/userinfo\<close>: who bypasses the admission checks. The interface
  \<open>Skipper\<close> is the type of its method \<open>Skip\<close>; its three implementations are \<open>StaticSkipper\<close>,
  \<open>multiSkipper\<close> and \<open>PrivilegedUserSkipper\<close>, the last with the lookup of the cluster roles of a user.
  The locale \<open>skipper\<close> states the contract of the interface, \<open>guarded_webhook\<close> the way the webhooks
  use it.
\<close>

type_synonym Skipper = "Request \<Rightarrow> bool \<times> err option"

section \<open>Cluster roles of a user (skipper/userinfo)\<close>

record Subject =
  sub_Kind :: string
  sub_APIGroup :: string
  sub_Namespace :: string
  sub_Name :: string

record ClusterRoleBinding =
  crb_RoleRefKind :: string
  crb_RoleRefName :: string
  crb_Subjects :: "Subject list"

definition saPrefix :: string where
  "saPrefix = ''system:serviceaccount:''"

definition clusterRoleKind :: string where
  "clusterRoleKind = ''ClusterRole''"

definition matchSubject :: "Subject \<Rightarrow> UserInfo \<Rightarrow> bool" where
  "matchSubject subject userInfo =
     (if sub_Kind subject = ''ServiceAccount'' then
        Username userInfo = saPrefix @ sub_Namespace subject @ '':'' @ sub_Name subject
      else if sub_Kind subject = ''User'' then Username userInfo = sub_Name subject
      else if sub_Kind subject = ''Group'' then
        list_ex (\<lambda>group. sub_Name subject = group) (Groups userInfo)
      else False)"

text \<open>One role name per matching subject, in the order of the bindings and of their subjects.\<close>

definition clusterRoleRefs :: "ClusterRoleBinding list \<Rightarrow> UserInfo \<Rightarrow> string list" where
  "clusterRoleRefs clusterroleBindings userInfo =
     concat (map (\<lambda>clusterRoleBinding.
       concat (map (\<lambda>subject.
         if crb_RoleRefKind clusterRoleBinding = clusterRoleKind \<and> matchSubject subject userInfo
         then [crb_RoleRefName clusterRoleBinding] else [])
       (crb_Subjects clusterRoleBinding)))
     clusterroleBindings)"

text \<open>The client's \<open>List\<close> of cluster role bindings is given by its result.\<close>

definition listClusterRoleBindings ::
    "(err + ClusterRoleBinding list) \<Rightarrow> err + ClusterRoleBinding list" where
  "listClusterRoleBindings cli = (case cli of Inl err \<Rightarrow> Inl err | Inr items \<Rightarrow> Inr items)"

definition ClusterRoleRefsForUser ::
    "(err + ClusterRoleBinding list) \<Rightarrow> UserInfo \<Rightarrow> err + string list" where
  "ClusterRoleRefsForUser cli user = (case listClusterRoleBindings cli of
      Inl err \<Rightarrow> Inl (NewErr (''failed to list clusterrolebindings: '' @ Error err))
    | Inr crbs \<Rightarrow> Inr (clusterRoleRefs crbs user))"

section \<open>The skippers\<close>

record StaticSkipper =
  ShouldSkip :: bool

definition StaticSkipper_Skip :: "StaticSkipper \<Rightarrow> Skipper" where
  "StaticSkipper_Skip s = (\<lambda>_. (ShouldSkip s, None))"

fun multiSkipper_Skip :: "Skipper list \<Rightarrow> Skipper" where
  "multiSkipper_Skip [] req = (False, None)"
| "multiSkipper_Skip (skipper # rest) req = (case skipper req of
      (skip, Some err) \<Rightarrow> (skip, Some err)
    | (skip, None) \<Rightarrow> if skip then (True, None) else multiSkipper_Skip rest req)"

definition NewMultiSkipper :: "Skipper list \<Rightarrow> Skipper" where
  "NewMultiSkipper skipper = multiSkipper_Skip skipper"

record PrivilegedUserSkipper =
  pus_Client :: "err + ClusterRoleBinding list"
  PrivilegedGroups :: "string list"
  PrivilegedUsers :: "string list"
  PrivilegedClusterRoles :: "string list"

definition PrivilegedUserSkipper_Skip :: "ext \<Rightarrow> PrivilegedUserSkipper \<Rightarrow> Skipper" where
  "PrivilegedUserSkipper_Skip E s req =
     (if list_ex (\<lambda>pu. wildcard_Match E pu (Username (rq_UserInfo req))) (PrivilegedUsers s) then (True, None)
      else if list_ex (\<lambda>pg. list_ex (\<lambda>ug. wildcard_Match E pg ug) (Groups (rq_UserInfo req)))
                (PrivilegedGroups s) then (True, None)
      else case ClusterRoleRefsForUser (pus_Client s) (rq_UserInfo req) of
          Inl err \<Rightarrow> (False, Some err)
        | Inr clusterroles \<Rightarrow>
            if list_ex (\<lambda>pcr. list_ex (\<lambda>cr. wildcard_Match E pcr cr) clusterroles) (PrivilegedClusterRoles s)
            then (True, None) else (False, None))"

section \<open>The contract of the interface\<close>

text \<open>A skipper that fails does not skip: the checks of a webhook are never bypassed by an error.\<close>

locale skipper =
  fixes Skip :: Skipper
  assumes fail_closed: "snd (Skip req) = Some e \<Longrightarrow> \<not> fst (Skip req)"
begin

lemma skip_no_error: "fst (Skip req) \<Longrightarrow> snd (Skip req) = None"
  using fail_closed by (cases "snd (Skip req)") auto

lemma skip_cases:
  obtains (error) e where "Skip req = (False, Some e)"
  | (skips) "Skip req = (True, None)"
  | (checks) "Skip req = (False, None)"
  using fail_closed [of req] by (cases "Skip req"; cases "snd (Skip req)") auto

end

interpretation static: skipper "StaticSkipper_Skip s" for s
  by unfold_locales (simp add: StaticSkipper_Skip_def)

interpretation privileged: skipper "PrivilegedUserSkipper_Skip E s" for E s
  by unfold_locales (auto simp: PrivilegedUserSkipper_Skip_def split: sum.splits if_splits)

text \<open>The contract is closed under \<open>NewMultiSkipper\<close>.\<close>

lemma skipper_multi: "(\<And>s. s \<in> set ss \<Longrightarrow> skipper s) \<Longrightarrow> skipper (NewMultiSkipper ss)"
proof (induction ss)
  case (Cons s ss)
  then have ih: "skipper (NewMultiSkipper ss)" and s: "skipper s" by auto
  show ?case
  proof unfold_locales
    fix req e
    assume "snd (NewMultiSkipper (s # ss) req) = Some e"
    then show "\<not> fst (NewMultiSkipper (s # ss) req)"
      using skipper.fail_closed [OF s, of req e] skipper.fail_closed [OF ih, of req e]
      by (cases "s req") (auto simp: NewMultiSkipper_def split: option.splits if_splits)
  qed
qed (unfold_locales, simp add: NewMultiSkipper_def)

text \<open>The combination that the agent registers: a feature switch in front of the privileged users.\<close>

interpretation switched: skipper "NewMultiSkipper [StaticSkipper_Skip t, PrivilegedUserSkipper_Skip E s]" for t E s
  by (rule skipper_multi) (auto intro: static.skipper_axioms privileged.skipper_axioms)

section \<open>Webhooks behind a skipper\<close>

text \<open>
  The prologue that the webhooks share: an error of the skipper is a server error, a skipped request
  is allowed, and all others are checked.
\<close>

definition after_skip :: "Skipper \<Rightarrow> (err \<Rightarrow> err) \<Rightarrow> (Request \<Rightarrow> Response) \<Rightarrow> Request \<Rightarrow> Response" where
  "after_skip Skip wrap check req = (case Skip req of
      (skip, Some err) \<Rightarrow> Errored 500 (wrap err)
    | (skip, None) \<Rightarrow> if skip then Allowed ''skipped'' else check req)"

locale guarded_webhook =
  fixes Skip :: Skipper
    and handle :: "Request \<Rightarrow> Response"
    and wrap :: "err \<Rightarrow> err"
    and check :: "Request \<Rightarrow> Response"
  assumes guard: "handle req = after_skip Skip wrap check req"
begin

lemma error_rejects: "snd (Skip req) = Some e \<Longrightarrow> handle req = Errored 500 (wrap e)"
  by (auto simp: guard after_skip_def split: prod.splits option.splits)

lemma skipped_allows: "Skip req = (True, None) \<Longrightarrow> handle req = Allowed ''skipped''"
  by (simp add: guard after_skip_def)

lemma unskipped_checks: "Skip req = (False, None) \<Longrightarrow> handle req = check req"
  by (simp add: guard after_skip_def)

lemma allowed_cases:
  assumes "resp_allowed (handle req)"
  obtains "Skip req = (True, None)" | "Skip req = (False, None)" "resp_allowed (check req)"
  using assms by (auto simp: guard after_skip_def split: prod.splits option.splits if_splits)

end

section \<open>Properties\<close>

lemma set_clusterRoleRefs:
  "set (clusterRoleRefs crbs u) =
     {crb_RoleRefName b | b. b \<in> set crbs \<and> crb_RoleRefKind b = clusterRoleKind \<and>
        (\<exists>s \<in> set (crb_Subjects b). matchSubject s u)}"
  by (auto simp: clusterRoleRefs_def split: if_splits)

lemma PrivilegedUserSkipper_Skip_error:
  "snd (PrivilegedUserSkipper_Skip E s req) = Some e \<Longrightarrow>
     \<exists>e'. pus_Client s = Inl e' \<and> e = NewErr (''failed to list clusterrolebindings: '' @ Error e')"
  by (auto simp: PrivilegedUserSkipper_Skip_def ClusterRoleRefsForUser_def listClusterRoleBindings_def
      split: sum.splits if_splits)

text \<open>
  C33: The skipper of privileged users skips exactly the requests of a user who matches one of the
  configured user patterns, who has a group matching one of the group patterns, or to whom (if the
  bindings can be listed) a ClusterRoleBinding binds a ClusterRole matching one of the role patterns.
\<close>

theorem privileged_skip_iff:
  "fst (PrivilegedUserSkipper_Skip E s req) \<longleftrightarrow>
     (\<exists>p \<in> set (PrivilegedUsers s). wildcard_Match E p (Username (rq_UserInfo req))) \<or>
     (\<exists>p \<in> set (PrivilegedGroups s). \<exists>g \<in> set (Groups (rq_UserInfo req)). wildcard_Match E p g) \<or>
     (\<exists>crbs b. pus_Client s = Inr crbs \<and> b \<in> set crbs \<and> crb_RoleRefKind b = clusterRoleKind \<and>
        (\<exists>t \<in> set (crb_Subjects b). matchSubject t (rq_UserInfo req)) \<and>
        (\<exists>p \<in> set (PrivilegedClusterRoles s). wildcard_Match E p (crb_RoleRefName b)))"
proof (cases "pus_Client s")
  case (Inl e)
  then show ?thesis
    by (simp add: PrivilegedUserSkipper_Skip_def ClusterRoleRefsForUser_def listClusterRoleBindings_def list_ex_iff)
next
  case (Inr crbs)
  have "(\<exists>p \<in> set (PrivilegedClusterRoles s). \<exists>r \<in> set (clusterRoleRefs crbs (rq_UserInfo req)). wildcard_Match E p r) \<longleftrightarrow>
     (\<exists>b. b \<in> set crbs \<and> crb_RoleRefKind b = clusterRoleKind \<and>
        (\<exists>t \<in> set (crb_Subjects b). matchSubject t (rq_UserInfo req)) \<and>
        (\<exists>p \<in> set (PrivilegedClusterRoles s). wildcard_Match E p (crb_RoleRefName b)))"
    unfolding set_clusterRoleRefs by blast
  with Inr show ?thesis
    by (simp add: PrivilegedUserSkipper_Skip_def ClusterRoleRefsForUser_def listClusterRoleBindings_def list_ex_iff)
qed

lemma multi_skip_iff:
  "fst (NewMultiSkipper ss req) \<and> snd (NewMultiSkipper ss req) = None \<longleftrightarrow>
     (\<exists>i < length ss. (ss ! i) req = (True, None) \<and> (\<forall>j < i. (ss ! j) req = (False, None)))"
proof (induction ss)
  case (Cons s ss)
  have "fst (NewMultiSkipper (s # ss) req) \<and> snd (NewMultiSkipper (s # ss) req) = None \<longleftrightarrow>
     s req = (True, None) \<or> s req = (False, None) \<and>
       fst (NewMultiSkipper ss req) \<and> snd (NewMultiSkipper ss req) = None"
    by (auto simp: NewMultiSkipper_def split: prod.splits option.splits)
  also have "\<dots> \<longleftrightarrow> (\<exists>i < length (s # ss). ((s # ss) ! i) req = (True, None) \<and>
       (\<forall>j < i. ((s # ss) ! j) req = (False, None)))"
    unfolding Cons.IH by (subst Ex_less_Suc2 [where n = "length ss", folded length_Cons [of s ss]]) (auto simp: All_less_Suc2)
  finally show ?case .
qed (simp add: NewMultiSkipper_def)

end
