(* ===== verification/Ratio.thy ===== *)
theory Ratio
  imports Complex_Main Kube
begin

text \<open>
  Package \<open>ratio\<close>: recording the CPU and memory requests of pods and workloads, the memory to CPU
  ratio, the comparison with the fair use limit, the warning text, and the fetcher that groups the
  running pods of a namespace by node selector. Decimals (gopkg.in/inf.v0) and quantities
  (k8s.io/apimachinery) are the parameter \<open>D\<close>; \<open>dec_laws D val\<close> states that they compute with the
  rational numbers \<open>val\<close> that they stand for.
\<close>

section \<open>Decimals and quantities\<close>

datatype Rounder = RoundHalfEven | RoundUp

record ('d, 'q) decimals =
  ZeroDec :: 'd
  NewDec :: "int \<Rightarrow> int \<Rightarrow> 'd"
  DecAdd :: "'d \<Rightarrow> 'd \<Rightarrow> 'd"
  DecMul :: "'d \<Rightarrow> 'd \<Rightarrow> 'd"
  DecCmp :: "'d \<Rightarrow> 'd \<Rightarrow> int"
  QuoRound :: "'d \<Rightarrow> 'd \<Rightarrow> int \<Rightarrow> Rounder \<Rightarrow> 'd"
  AsDec :: "'q \<Rightarrow> 'd"
  NewDecimalQuantity :: "'d \<Rightarrow> 'q"
  QuantityString :: "'q option \<Rightarrow> string"

text \<open>Rounding to an integer: to the nearest, ties to the even one; and away from zero.\<close>

definition round_half_even :: "rat \<Rightarrow> int" where
  "round_half_even x =
     (let f = \<lfloor>x\<rfloor>; d = x - of_int f
      in if d < 1 / 2 then f else if d > 1 / 2 then f + 1 else if even f then f else f + 1)"

definition round_away :: "rat \<Rightarrow> int" where
  "round_away x = (if 0 \<le> x then \<lceil>x\<rceil> else \<lfloor>x\<rfloor>)"

definition dec_laws :: "('d, 'q) decimals \<Rightarrow> ('d \<Rightarrow> rat) \<Rightarrow> bool" where
  "dec_laws D val \<longleftrightarrow>
     val (ZeroDec D) = 0 \<and>
     (\<forall>u. val (NewDec D u 0) = of_int u) \<and>
     (\<forall>x y. val (DecAdd D x y) = val x + val y) \<and>
     (\<forall>x y. val (DecMul D x y) = val x * val y) \<and>
     (\<forall>x y. (DecCmp D x y < 0 \<longleftrightarrow> val x < val y) \<and> (DecCmp D x y = 0 \<longleftrightarrow> val x = val y)) \<and>
     (\<forall>x y. val y \<noteq> 0 \<longrightarrow> val (QuoRound D x y 0 RoundHalfEven) = of_int (round_half_even (val x / val y))) \<and>
     (\<forall>x y. val y \<noteq> 0 \<longrightarrow> val (QuoRound D x y 0 RoundUp) = of_int (round_away (val x / val y))) \<and>
     (\<forall>d. val (AsDec D (NewDecimalQuantity D d)) = val d)"

section \<open>Recording requests\<close>

record 'd Ratio =
  CPU :: 'd
  Memory :: 'd

definition NewRatio :: "('d, 'q) decimals \<Rightarrow> 'd Ratio" where
  "NewRatio D = \<lparr>CPU = ZeroDec D, Memory = ZeroDec D\<rparr>"

definition recordReplicatedPodSpec ::
    "('d, 'q) decimals \<Rightarrow> 'd Ratio \<Rightarrow> int \<Rightarrow> 'q PodSpec \<Rightarrow> 'd Ratio" where
  "recordReplicatedPodSpec D r replicas spec =
     (let (cpu, mem) = foldl (\<lambda>(cpu, mem) c.
              (DecAdd D cpu (AsDec D (ct_Cpu c)), DecAdd D mem (AsDec D (ct_Memory c))))
            (NewDec D 0 0, NewDec D 0 0) (Containers spec);
          rep = NewDec D replicas 0
      in r\<lparr>CPU := DecAdd D (CPU r) (DecMul D cpu rep),
           Memory := DecAdd D (Memory r) (DecMul D mem rep)\<rparr>)"

definition PodRunning :: string where
  "PodRunning = ''Running''"

definition RecordPod :: "('d, 'q) decimals \<Rightarrow> 'd Ratio \<Rightarrow> 'q Pod list \<Rightarrow> 'd Ratio" where
  "RecordPod D r pods = foldl (\<lambda>r pod.
     if pod_Phase pod = PodRunning then recordReplicatedPodSpec D r 1 (pod_Spec pod) else r) r pods"

text \<open>\<open>RecordDeployment\<close> and \<open>RecordStatefulSet\<close> read the same two fields of their objects.\<close>

definition recordWorkload :: "('d, 'q) decimals \<Rightarrow> 'd Ratio \<Rightarrow> 'q Workload \<Rightarrow> 'd Ratio" where
  "recordWorkload D r dep =
     (let replicas = (case wl_Replicas dep of None \<Rightarrow> 1 | Some n \<Rightarrow> n)
      in recordReplicatedPodSpec D r replicas (wl_Template dep))"

definition RecordDeployment :: "('d, 'q) decimals \<Rightarrow> 'd Ratio \<Rightarrow> 'q Workload list \<Rightarrow> 'd Ratio" where
  "RecordDeployment D r deps = foldl (recordWorkload D) r deps"

definition RecordStatefulSet :: "('d, 'q) decimals \<Rightarrow> 'd Ratio \<Rightarrow> 'q Workload list \<Rightarrow> 'd Ratio" where
  "RecordStatefulSet D r stss = foldl (recordWorkload D) r stss"

section \<open>The ratio\<close>

definition mib :: int where
  "mib = 1024 * 1024"

definition Ratio_Ratio :: "('d, 'q) decimals \<Rightarrow> 'd Ratio \<Rightarrow> 'q option" where
  "Ratio_Ratio D r =
     (if DecCmp D (CPU r) (NewDec D 0 0) \<le> 0 then None
      else
        (let rDec = QuoRound D (Memory r) (CPU r) 0 RoundHalfEven;
             rDec = QuoRound D rDec (NewDec D mib 0) 0 RoundUp;
             rDec = DecMul D rDec (NewDec D mib 0)
         in Some (NewDecimalQuantity D rDec)))"

definition Below :: "('d, 'q) decimals \<Rightarrow> 'd Ratio \<Rightarrow> 'q \<Rightarrow> 'd option \<Rightarrow> bool" where
  "Below D r limit threshold =
     (let threshold = (case threshold of None \<Rightarrow> NewDec D 1 0 | Some t \<Rightarrow> t)
      in case Ratio_Ratio D r of
           None \<Rightarrow> False
         | Some q \<Rightarrow> DecCmp D (AsDec D q) (DecMul D (AsDec D limit) threshold) < 0)"

definition Ratio_String :: "('d, 'q) decimals \<Rightarrow> 'd Ratio \<Rightarrow> string" where
  "Ratio_String D r = QuantityString D (Ratio_Ratio D r)"

definition Warn ::
    "(nat \<Rightarrow> bool) \<Rightarrow> ('d, 'q) decimals \<Rightarrow> 'd Ratio \<Rightarrow> 'q option \<Rightarrow> string \<Rightarrow> string" where
  "Warn pr D r limit nodeSelector =
     (let w = ''Current memory to CPU ratio of '' @ Ratio_String D r @ ''/core'';
          w = (if nodeSelector \<noteq> [] then w @ '' for node type '' @ Quote pr nodeSelector else w);
          w = w @ '' in this namespace is below the fair use ratio'';
          w = (if limit \<noteq> None then w @ '' of '' @ QuantityString D limit @ ''/core'' else w);
          w = w @ ''. APPUiO Cloud bills CPU requests which exceed the fair use ratio.'';
          w = w @ '' See https://vs.hn/appuio-cloud-cpu-requests for instructions to adjust the requests.''
      in w)"

section \<open>The fetcher\<close>

definition RatioValidatiorDisableAnnotation :: string where
  "RatioValidatiorDisableAnnotation = ''validate-request-ratio.appuio.io/disable''"

text \<open>The client is given by its \<open>Get\<close> of namespaces and its \<open>List\<close> of the pods in a namespace.\<close>

record 'q Fetcher =
  ft_getNamespace :: "string \<Rightarrow> err + Namespace"
  ft_listPods :: "string \<Rightarrow> err + 'q Pod list"
  ft_OrganizationLabel :: string

definition recordInto ::
    "ext \<Rightarrow> ('d, 'q) decimals \<Rightarrow> (string \<times> 'd Ratio) list \<Rightarrow> 'q Pod \<Rightarrow> (string \<times> 'd Ratio) list" where
  "recordInto E D ratios pod =
     (let k = labels_String E (NodeSelector (pod_Spec pod));
          r = (case map_of ratios k of None \<Rightarrow> NewRatio D | Some r \<Rightarrow> r)
      in AList.update k (RecordPod D r [pod]) ratios)"

definition FetchRatios ::
    "ext \<Rightarrow> ('d, 'q) decimals \<Rightarrow> 'q Fetcher \<Rightarrow> string \<Rightarrow> err + 'd Ratio gomap" where
  "FetchRatios E D f name = (case ft_getNamespace f name of
      Inl err \<Rightarrow> Inl err
    | Inr ns \<Rightarrow>
        (let disabled = (case mget (ns_Annotations ns) RatioValidatiorDisableAnnotation of
               None \<Rightarrow> False
             | Some disabledAnnot \<Rightarrow> ParseBool disabledAnnot = Some True)
         in if disabled then Inl ErrDisabled
            else if ft_OrganizationLabel f \<noteq> [] \<and> mget (ns_Labels ns) (ft_OrganizationLabel f) = None
            then Inl ErrDisabled
            else case ft_listPods f name of
                Inl err \<Rightarrow> Inl err
              | Inr pods \<Rightarrow> Inr (Some (foldl (recordInto E D) [] pods))))"

section \<open>What the recorded numbers are\<close>

lemma dec_lawsD:
  assumes "dec_laws D val"
  shows "val (ZeroDec D) = 0" and "val (NewDec D u 0) = of_int u"
    and "val (DecAdd D x y) = val x + val y" and "val (DecMul D x y) = val x * val y"
    and "DecCmp D x y < 0 \<longleftrightarrow> val x < val y" and "DecCmp D x y \<le> 0 \<longleftrightarrow> val x \<le> val y"
    and "val (AsDec D (NewDecimalQuantity D x)) = val x"
    and "val y \<noteq> 0 \<Longrightarrow> val (QuoRound D x y 0 RoundHalfEven) = of_int (round_half_even (val x / val y))"
    and "val y \<noteq> 0 \<Longrightarrow> val (QuoRound D x y 0 RoundUp) = of_int (round_away (val x / val y))"
proof -
  have c: "\<forall>x y. (DecCmp D x y < 0 \<longleftrightarrow> val x < val y) \<and> (DecCmp D x y = 0 \<longleftrightarrow> val x = val y)"
    using assms unfolding dec_laws_def by blast
  show "DecCmp D x y < 0 \<longleftrightarrow> val x < val y" using c by blast
  have "DecCmp D x y \<le> 0 \<longleftrightarrow> DecCmp D x y < 0 \<or> DecCmp D x y = 0" by linarith
  also have "\<dots> \<longleftrightarrow> val x \<le> val y" using c by (metis order_le_less)
  finally show "DecCmp D x y \<le> 0 \<longleftrightarrow> val x \<le> val y" .
qed (use assms in \<open>simp_all add: dec_laws_def\<close>)

definition requests :: "('d, 'q) decimals \<Rightarrow> ('d \<Rightarrow> rat) \<Rightarrow> ('q Container \<Rightarrow> 'q) \<Rightarrow> 'q PodSpec \<Rightarrow> rat" where
  "requests D val res spec = (\<Sum>c\<leftarrow>Containers spec. val (AsDec D (res c)))"

lemma foldl_requests:
  assumes "dec_laws D val"
  shows "(case foldl (\<lambda>(cpu, mem) c.
            (DecAdd D cpu (AsDec D (ct_Cpu c)), DecAdd D mem (AsDec D (ct_Memory c)))) (a, b) cs of
          (cpu, mem) \<Rightarrow> val cpu = val a + (\<Sum>c\<leftarrow>cs. val (AsDec D (ct_Cpu c))) \<and>
                        val mem = val b + (\<Sum>c\<leftarrow>cs. val (AsDec D (ct_Memory c))))"
proof (induction cs arbitrary: a b)
  case (Cons c cs)
  show ?case
    using Cons [where a = "DecAdd D a (AsDec D (ct_Cpu c))" and b = "DecAdd D b (AsDec D (ct_Memory c))"]
    by (simp add: dec_lawsD [OF assms] algebra_simps split: prod.splits)
qed simp

lemma recordReplicatedPodSpec_val:
  assumes "dec_laws D val"
  shows "val (CPU (recordReplicatedPodSpec D r n spec)) = val (CPU r) + requests D val ct_Cpu spec * of_int n"
    and "val (Memory (recordReplicatedPodSpec D r n spec)) = val (Memory r) + requests D val ct_Memory spec * of_int n"
  using foldl_requests [OF assms, where a = "NewDec D 0 0" and b = "NewDec D 0 0" and cs = "Containers spec"]
  by (auto simp: recordReplicatedPodSpec_def requests_def Let_def dec_lawsD [OF assms] split: prod.splits)

lemma RecordPod_val:
  assumes "dec_laws D val"
  shows "val (CPU (RecordPod D r [pod])) =
           val (CPU r) + (if pod_Phase pod = PodRunning then requests D val ct_Cpu (pod_Spec pod) else 0)"
    and "val (Memory (RecordPod D r [pod])) =
           val (Memory r) + (if pod_Phase pod = PodRunning then requests D val ct_Memory (pod_Spec pod) else 0)"
  by (simp_all add: RecordPod_def recordReplicatedPodSpec_val [OF assms])

text \<open>The requests of the running pods with one node selector, in any order.\<close>

definition selectorKey :: "ext \<Rightarrow> 'q Pod \<Rightarrow> string" where
  "selectorKey E pod = labels_String E (NodeSelector (pod_Spec pod))"

definition group_total ::
    "ext \<Rightarrow> ('d, 'q) decimals \<Rightarrow> ('d \<Rightarrow> rat) \<Rightarrow> ('q Container \<Rightarrow> 'q) \<Rightarrow> string \<Rightarrow> 'q Pod multiset \<Rightarrow> rat" where
  "group_total E D val res k pods =
     (\<Sum>pod \<in># filter_mset (\<lambda>pod. pod_Phase pod = PodRunning \<and> selectorKey E pod = k) pods.
        requests D val res (pod_Spec pod))"

lemma recordInto_keys: "fst ` set (recordInto E D al pod) = insert (selectorKey E pod) (fst ` set al)"
  by (auto simp add: recordInto_def Let_def selectorKey_def image_set update_keys simp del: set_map)

lemma map_of_recordInto:
  "map_of (recordInto E D al pod) k =
     (if k = selectorKey E pod
      then Some (RecordPod D (case map_of al k of None \<Rightarrow> NewRatio D | Some r \<Rightarrow> r) [pod])
      else map_of al k)"
  by (simp add: recordInto_def Let_def selectorKey_def)

lemma recordInto_distinct: "distinct (map fst al) \<Longrightarrow> distinct (map fst (recordInto E D al pod))"
  by (simp add: recordInto_def Let_def distinct_update)

lemma foldl_recordInto_keys:
  "fst ` set (foldl (recordInto E D) [] pods) = selectorKey E ` set pods \<and>
   distinct (map fst (foldl (recordInto E D) [] pods))"
  by (induction pods rule: rev_induct) (auto simp: recordInto_keys recordInto_distinct)

lemma foldl_recordInto_val:
  assumes "dec_laws D val" and "map_of (foldl (recordInto E D) [] pods) k = Some r"
  shows "val (CPU r) = group_total E D val ct_Cpu k (mset pods) \<and>
         val (Memory r) = group_total E D val ct_Memory k (mset pods)"
  using assms(2)
proof (induction pods arbitrary: r rule: rev_induct)
  case (snoc pod pods)
  let ?al = "foldl (recordInto E D) [] pods"
  show ?case
  proof (cases "selectorKey E pod = k")
    case False
    with snoc.prems have "map_of ?al k = Some r"
      by (simp add: map_of_recordInto)
    from snoc.IH [OF this] False show ?thesis by (simp add: group_total_def)
  next
    case True
    define r0 where "r0 = (case map_of ?al k of None \<Rightarrow> NewRatio D | Some r \<Rightarrow> r)"
    have r: "r = RecordPod D r0 [pod]"
      using snoc.prems True by (simp add: map_of_recordInto r0_def)
    have "val (CPU r0) = group_total E D val ct_Cpu k (mset pods) \<and>
          val (Memory r0) = group_total E D val ct_Memory k (mset pods)"
    proof (cases "map_of ?al k")
      case None
      then have "k \<notin> selectorKey E ` set pods"
        by (simp add: map_of_eq_None_iff foldl_recordInto_keys)
      then have "filter_mset (\<lambda>p. pod_Phase p = PodRunning \<and> selectorKey E p = k) (mset pods) = {#}"
        by (auto simp: filter_mset_eq_conv filter_mset_False)
      then show ?thesis using None
        by (simp only: r0_def NewRatio_def group_total_def) (simp add: dec_lawsD [OF assms(1)])
    next
      case (Some r')
      then show ?thesis using snoc.IH [OF Some] by (simp add: r0_def)
    qed
    with True r show ?thesis by (auto simp: group_total_def RecordPod_val [OF assms(1)])
  qed
qed simp

text \<open>
  C10: Whatever order the pods are listed in, \<open>FetchRatios\<close> returns one entry for every node selector
  of a pod of the namespace, and the entry holds the sum of the CPU and the sum of the memory requests
  of the containers of exactly the running pods with that selector.
\<close>

theorem FetchRatios_groups:
  assumes "dec_laws D val" and "FetchRatios E D f name = Inr m"
  shows "\<exists>pods. ft_listPods f name = Inr pods \<and> mwf m \<and>
           fst ` set (entries m) = selectorKey E ` set pods \<and>
           (\<forall>k r. mget m k = Some r \<longrightarrow>
              val (CPU r) = group_total E D val ct_Cpu k (mset pods) \<and>
              val (Memory r) = group_total E D val ct_Memory k (mset pods))"
proof -
  from assms(2) obtain pods where "ft_listPods f name = Inr pods"
      and m: "m = Some (foldl (recordInto E D) [] pods)"
    by (auto simp: FetchRatios_def Let_def split: sum.splits if_splits)
  then show ?thesis
    using foldl_recordInto_keys [of E D pods] foldl_recordInto_val [OF assms(1), of E pods]
    by (simp add: m)
qed

section \<open>The ratio and the limit\<close>

lemma mib_pos [simp]: "0 < mib" "0 \<le> mib" "mib \<noteq> 0"
  by (simp_all add: mib_def)

lemma round_half_even_cases:
  obtains "round_half_even x = \<lfloor>x\<rfloor>" "x - of_int \<lfloor>x\<rfloor> \<le> 1 / 2"
  | "round_half_even x = \<lfloor>x\<rfloor> + 1" "1 / 2 \<le> x - of_int \<lfloor>x\<rfloor>"
  unfolding round_half_even_def Let_def
  by (cases "x - of_int \<lfloor>x\<rfloor>" "1 / 2 :: rat" rule: linorder_cases; cases "even \<lfloor>x\<rfloor>") auto

lemma round_half_even_bounds: "x - 1 / 2 \<le> of_int (round_half_even x)" "of_int (round_half_even x) \<le> x + 1 / 2"
proof -
  have f: "of_int \<lfloor>x\<rfloor> \<le> x" "x < of_int \<lfloor>x\<rfloor> + 1" by linarith+
  show "x - 1 / 2 \<le> of_int (round_half_even x)"
    by (rule round_half_even_cases [of x]) (use f in \<open>simp only: of_int_add of_int_1, linarith\<close>)+
  show "of_int (round_half_even x) \<le> x + 1 / 2"
    by (rule round_half_even_cases [of x]) (use f in \<open>simp only: of_int_add of_int_1, linarith\<close>)+
qed

lemma round_half_even_ge:
  assumes "of_int n \<le> x"
  shows "n \<le> round_half_even x"
proof -
  have "n \<le> \<lfloor>x\<rfloor>" using assms by (simp add: le_floor_iff)
  then show ?thesis by (cases rule: round_half_even_cases [of x]) linarith+
qed

lemma round_half_even_nonneg: "0 \<le> x \<Longrightarrow> 0 \<le> round_half_even x"
  using round_half_even_ge [of 0 x] by simp

text \<open>The ratio in MiB: the quotient in bytes, rounded to the nearest byte and then up to a MiB.\<close>

definition ratio_mib :: "rat \<Rightarrow> rat \<Rightarrow> int" where
  "ratio_mib mem cpu = round_away (of_int (round_half_even (mem / cpu)) / of_int mib)"

lemma Ratio_Ratio_None: "dec_laws D val \<Longrightarrow> Ratio_Ratio D r = None \<longleftrightarrow> val (CPU r) \<le> 0"
  by (simp add: Ratio_Ratio_def Let_def dec_lawsD)

lemma Ratio_Ratio_Some:
  assumes "dec_laws D val" and "Ratio_Ratio D r = Some q"
  shows "0 < val (CPU r)" and "val (AsDec D q) = of_int (ratio_mib (val (Memory r)) (val (CPU r)) * mib)"
proof -
  show "0 < val (CPU r)" using Ratio_Ratio_None [OF assms(1), of r] assms(2) by simp
  then show "val (AsDec D q) = of_int (ratio_mib (val (Memory r)) (val (CPU r)) * mib)"
    using assms(2)
    by (auto simp: Ratio_Ratio_def Let_def dec_lawsD [OF assms(1)] ratio_mib_def split: if_splits)
qed

lemma ratio_mib_le_iff:
  assumes "0 \<le> mem / cpu"
  shows "ratio_mib mem cpu \<le> n \<longleftrightarrow> round_half_even (mem / cpu) \<le> n * mib"
proof -
  have "0 \<le> round_half_even (mem / cpu)" using assms by (rule round_half_even_nonneg)
  then have "ratio_mib mem cpu = \<lceil>of_int (round_half_even (mem / cpu)) / of_int mib :: rat\<rceil>"
    by (simp add: ratio_mib_def round_away_def zero_le_divide_iff)
  then have "ratio_mib mem cpu \<le> n \<longleftrightarrow> of_int (round_half_even (mem / cpu)) / of_int mib \<le> (of_int n :: rat)"
    by (simp add: ceiling_le_iff)
  also have "\<dots> \<longleftrightarrow> (of_int (round_half_even (mem / cpu)) :: rat) \<le> of_int n * of_int mib"
    by (subst pos_divide_le_eq) simp_all
  also have "\<dots> \<longleftrightarrow> round_half_even (mem / cpu) \<le> n * mib"
    by (simp only: of_int_mult [symmetric] of_int_le_iff)
  finally show ?thesis .
qed

lemma Below_iff:
  assumes "dec_laws D val"
  shows "Below D r limit threshold \<longleftrightarrow>
    0 < val (CPU r) \<and>
    of_int (ratio_mib (val (Memory r)) (val (CPU r)) * mib) <
      val (AsDec D limit) * (case threshold of None \<Rightarrow> 1 | Some t \<Rightarrow> val t)"
  using Ratio_Ratio_None [OF assms, of r] Ratio_Ratio_Some [OF assms, of r]
  by (auto simp: Below_def Let_def dec_lawsD [OF assms] split: option.splits)

text \<open>
  C34: There is no ratio exactly if no CPU is requested. Otherwise the ratio is a whole number of MiB
  that lies less than one MiB and half a byte above the exact quotient of memory and CPU requests and
  at most half a byte below it.
\<close>

theorem Ratio_Ratio_bounds:
  assumes "dec_laws D val" and "0 \<le> val (Memory r)"
  shows "(Ratio_Ratio D r = None \<longleftrightarrow> val (CPU r) \<le> 0) \<and>
    (\<forall>q. Ratio_Ratio D r = Some q \<longrightarrow>
       (\<exists>n. val (AsDec D q) = of_int (n * mib)) \<and>
       val (Memory r) / val (CPU r) - 1 / 2 \<le> val (AsDec D q) \<and>
       val (AsDec D q) < val (Memory r) / val (CPU r) + 1 / 2 + of_int mib)"
proof (intro conjI allI impI)
  show "Ratio_Ratio D r = None \<longleftrightarrow> val (CPU r) \<le> 0" by (rule Ratio_Ratio_None [OF assms(1)])
next
  fix q assume "Ratio_Ratio D r = Some q"
  from Ratio_Ratio_Some [OF assms(1) this]
  have c: "0 < val (CPU r)" and q: "val (AsDec D q) = of_int (ratio_mib (val (Memory r)) (val (CPU r)) * mib)"
    by auto
  then show "\<exists>n. val (AsDec D q) = of_int (n * mib)" by blast
  let ?x = "val (Memory r) / val (CPU r)" and ?n = "ratio_mib (val (Memory r)) (val (CPU r))"
  have x: "0 \<le> ?x" using assms(2) c by simp
  have "round_half_even ?x \<le> ?n * mib" using ratio_mib_le_iff [OF x, of ?n] by simp
  then have "of_int (round_half_even ?x) \<le> (of_int (?n * mib) :: rat)" by (simp only: of_int_le_iff)
  with q round_half_even_bounds(1) [of ?x] show "?x - 1 / 2 \<le> val (AsDec D q)" by linarith
  have "(?n - 1) * mib < round_half_even ?x" using ratio_mib_le_iff [OF x, of "?n - 1"] by simp
  then have "(of_int (?n * mib) :: rat) < of_int (round_half_even ?x) + of_int mib"
    by (simp only: of_int_add [symmetric] of_int_less_iff) (simp add: algebra_simps)
  with q round_half_even_bounds(2) [of ?x] show "val (AsDec D q) < ?x + 1 / 2 + of_int mib" by linarith
qed

text \<open>
  With a limit (times threshold) of \<open>n\<close> MiB the ratio counts as below the limit exactly if CPU is
  requested and the quotient in bytes, rounded to the nearest byte, is at most \<open>n - 1\<close> MiB; so a
  namespace that meets the limit is never reported, and one that misses it by a MiB always is.
\<close>

theorem Below_limit_mib:
  assumes "dec_laws D val" and "0 \<le> val (Memory r)"
    and "val (AsDec D limit) * (case threshold of None \<Rightarrow> 1 | Some t \<Rightarrow> val t) = of_int (n * mib)"
  shows "Below D r limit threshold \<longleftrightarrow>
    0 < val (CPU r) \<and> round_half_even (val (Memory r) / val (CPU r)) \<le> (n - 1) * mib"
proof (cases "0 < val (CPU r)")
  case True
  let ?k = "ratio_mib (val (Memory r)) (val (CPU r))"
  have x: "0 \<le> val (Memory r) / val (CPU r)" using assms(2) True by simp
  have "Below D r limit threshold \<longleftrightarrow> ?k * mib < n * mib"
    using True by (simp only: Below_iff [OF assms(1)] assms(3) of_int_less_iff simp_thms)
  also have "\<dots> \<longleftrightarrow> ?k \<le> n - 1" by simp
  finally show ?thesis using True ratio_mib_le_iff [OF x, of "n - 1"] by simp
qed (simp add: Below_iff [OF assms(1)])

text \<open>
  The comment on \<open>Ratio\<close> says that the exact quotient is rounded up. It is not: the quotient is first
  rounded to the nearest byte, so a quotient of one MiB and a third of a byte is reported as one MiB.
\<close>

lemma ratio_mib_rounds_down: "of_int (ratio_mib (3 * of_int mib + 1) 3 * mib) < (3 * of_int mib + 1) / (3 :: rat)"
proof -
  have f: "\<lfloor>(3 * of_int mib + 1) / (3 :: rat)\<rfloor> = mib" by (simp add: floor_eq_iff)
  have "(3 * of_int mib + 1) / 3 - of_int mib < (1 / 2 :: rat)" by (simp add: field_simps)
  then have "round_half_even ((3 * of_int mib + 1) / 3) = mib" by (simp only: round_half_even_def Let_def f if_True)
  then have "ratio_mib (3 * of_int mib + 1) 3 = 1" by (simp add: ratio_mib_def round_away_def)
  then show ?thesis by simp
qed

text \<open>
  A warning never contains a line feed (Kubernetes would drop it), provided that the printed
  quantities do not: whatever bytes the node selector has, they are quoted.
\<close>

theorem Warn_no_newline:
  assumes "\<And>q. newline \<notin> set (QuantityString D q)"
  shows "newline \<notin> set (Warn pr D r limit nodeSelector)"
  using assms newline_not_Quote [of pr nodeSelector]
  by (auto simp: Warn_def Let_def Ratio_String_def newline_def)

section \<open>Witnesses\<close>

text \<open>Exact rational arithmetic is an instance of the decimals.\<close>

definition rat_decimals :: "(rat, rat) decimals" where
  "rat_decimals =
     \<lparr>ZeroDec = 0, NewDec = (\<lambda>u s. of_int u), DecAdd = (+), DecMul = (*),
      DecCmp = (\<lambda>x y. if x < y then - 1 else if x = y then 0 else 1),
      QuoRound = (\<lambda>x y s rd. of_int (case rd of RoundHalfEven \<Rightarrow> round_half_even (x / y) | RoundUp \<Rightarrow> round_away (x / y))),
      AsDec = (\<lambda>q. q), NewDecimalQuantity = (\<lambda>d. d), QuantityString = (\<lambda>q. ''1Mi'')\<rparr>"

lemma rat_decimals_laws: "dec_laws rat_decimals (\<lambda>x. x)"
  by (simp add: dec_laws_def rat_decimals_def)

definition sample_pod :: "string gomap \<Rightarrow> string \<Rightarrow> rat \<Rightarrow> rat \<Rightarrow> rat Pod" where
  "sample_pod sel phase mem cpu =
     \<lparr>pod_Name = ''pod'', pod_Phase = phase,
      pod_Spec = \<lparr>Containers = [\<lparr>ct_Memory = mem, ct_Cpu = cpu\<rparr>], NodeSelector = sel,
        RestartPolicy = ''Always'', ActiveDeadlineSeconds = None\<rparr>\<rparr>"

definition sample_fetcher :: "rat Fetcher" where
  "sample_fetcher =
     \<lparr>ft_getNamespace = (\<lambda>n. Inr \<lparr>ns_Name = n, ns_Labels = Some [(''org'', ''acme'')], ns_Annotations = None,
        ns_DeletionTimestamp = None\<rparr>),
      ft_listPods = (\<lambda>n. Inr [sample_pod None ''Running'' 2 1, sample_pod None ''Pending'' 7 7, sample_pod None ''Running'' 3 1]),
      ft_OrganizationLabel = ''org''\<rparr>"

lemma sample_FetchRatios:
  "FetchRatios sample_ext rat_decimals sample_fetcher ''ns'' = Inr (Some [([], \<lparr>CPU = 2, Memory = 5\<rparr>)])"
  by (simp add: FetchRatios_def sample_fetcher_def sample_pod_def sample_ext_def recordInto_def NewRatio_def
      RecordPod_def PodRunning_def recordReplicatedPodSpec_def rat_decimals_def)

theorem FetchRatios_groups_witness:
  "\<exists>pods. ft_listPods sample_fetcher ''ns'' = Inr pods \<and>
     group_total sample_ext rat_decimals (\<lambda>x. x) ct_Cpu [] (mset pods) = 2 \<and>
     group_total sample_ext rat_decimals (\<lambda>x. x) ct_Memory [] (mset pods) = 5"
proof -
  let ?m = "Some [([], \<lparr>CPU = 2, Memory = 5\<rparr>)] :: rat Ratio gomap"
  from FetchRatios_groups [OF rat_decimals_laws sample_FetchRatios] obtain pods where
    "ft_listPods sample_fetcher ''ns'' = Inr pods"
    "\<forall>k r. mget ?m k = Some r \<longrightarrow>
       CPU r = group_total sample_ext rat_decimals (\<lambda>x. x) ct_Cpu k (mset pods) \<and>
       Memory r = group_total sample_ext rat_decimals (\<lambda>x. x) ct_Memory k (mset pods)" by blast
  then show ?thesis by (intro exI [of _ pods]) (auto dest: spec [of _ "[]"])
qed

theorem Ratio_Ratio_bounds_witness:
  "\<exists>n. Ratio_Ratio rat_decimals \<lparr>CPU = 2, Memory = 5\<rparr> = Some (of_int (n * mib)) \<and>
     (of_int (n * mib) :: rat) < 5 / 2 + 1 / 2 + of_int mib"
proof -
  let ?r = "\<lparr>CPU = 2, Memory = 5\<rparr> :: rat Ratio"
  have "0 \<le> Memory ?r" by simp
  from Ratio_Ratio_bounds [OF rat_decimals_laws this] obtain q where
    q: "Ratio_Ratio rat_decimals ?r = Some q" by (cases "Ratio_Ratio rat_decimals ?r") auto
  with Ratio_Ratio_bounds [OF rat_decimals_laws, of ?r] obtain n where
    "AsDec rat_decimals q = of_int (n * mib)" "AsDec rat_decimals q < 5 / 2 + 1 / 2 + of_int mib" by auto
  with q show ?thesis by (intro exI [of _ n]) (simp add: rat_decimals_def)
qed

theorem Below_limit_mib_witness:
  "Below rat_decimals \<lparr>CPU = 2, Memory = 5\<rparr> (of_int (4 * mib)) None"
proof -
  let ?r = "\<lparr>CPU = 2, Memory = 5\<rparr> :: rat Ratio"
  have l: "AsDec rat_decimals (of_int (4 * mib)) * (case None of None \<Rightarrow> 1 | Some t \<Rightarrow> t) = of_int (4 * mib)"
    by (simp add: rat_decimals_def)
  have "\<lfloor>5 / 2 :: rat\<rfloor> = 2" by (simp add: floor_eq_iff)
  then have "round_half_even (5 / 2) = 2" by (simp add: round_half_even_def Let_def)
  then show ?thesis using Below_limit_mib [OF rat_decimals_laws _ l, of ?r] by (simp add: mib_def)
qed

theorem Warn_no_newline_witness:
  "newline \<notin> set (Warn (\<lambda>_. False) rat_decimals \<lparr>CPU = 2, Memory = 5\<rparr> None [newline])"
  by (rule Warn_no_newline) (simp add: rat_decimals_def newline_def)

end
