(* ===== verification/NodeLimits.thy ===== *)
theory NodeLimits
  imports Kube
begin

text \<open>
  Package \<open>limits\<close>: the first fair use limit whose label selector matches a node selector. Label
  selectors are opaque; \<open>asSelector\<close> stands for \<open>metav1.LabelSelectorAsSelector\<close>, which fails or gives
  a selector, here the function that its method \<open>Matches\<close> computes.
\<close>

record ('s, 'q) Limit =
  lim_NodeSelector :: 's
  lim_Limit :: "'q option"

type_synonym 's asSelector = "'s \<Rightarrow> err + (string gomap \<Rightarrow> bool)"

fun GetLimitForNodeSelector ::
    "'s asSelector \<Rightarrow> ('s, 'q) Limit list \<Rightarrow> string gomap \<Rightarrow> 'q option" where
  "GetLimitForNodeSelector asSelector [] nodeSelector = None"
| "GetLimitForNodeSelector asSelector (limit # l) nodeSelector =
     (case asSelector (lim_NodeSelector limit) of
        Inl err \<Rightarrow> GetLimitForNodeSelector asSelector l nodeSelector
      | Inr limitSel \<Rightarrow>
          if limitSel nodeSelector then lim_Limit limit
          else GetLimitForNodeSelector asSelector l nodeSelector)"

definition limit_matches :: "'s asSelector \<Rightarrow> string gomap \<Rightarrow> ('s, 'q) Limit \<Rightarrow> bool" where
  "limit_matches asSelector nodeSelector limit =
     (case asSelector (lim_NodeSelector limit) of Inl err \<Rightarrow> False | Inr sel \<Rightarrow> sel nodeSelector)"

text \<open>
  The limit of a node selector is that of the first configured entry whose selector is valid and
  matches it, and there is none if no such entry exists; entries with an invalid selector are ignored.
\<close>

theorem GetLimitForNodeSelector_first:
  "GetLimitForNodeSelector asSelector l nodeSelector =
     (case find (limit_matches asSelector nodeSelector) l of
        None \<Rightarrow> None
      | Some limit \<Rightarrow> lim_Limit limit)"
  by (induction l) (auto simp: limit_matches_def split: sum.splits)

text \<open>Limits only apply to the node selectors they match: entries that do not can be left out.\<close>

lemma GetLimitForNodeSelector_filter:
  "(\<And>limit. limit_matches asSelector ns limit \<Longrightarrow> P limit) \<Longrightarrow>
     GetLimitForNodeSelector asSelector (filter P l) ns = GetLimitForNodeSelector asSelector l ns"
  by (induction l) (auto simp: limit_matches_def split: sum.splits)

end
