(* ===== verification/NamespaceMetadata.thy ===== *)
theory NamespaceMetadata
  imports Skipper
begin

text \<open>
  webhooks/namespace_metadata_validator.go: unprivileged users may neither touch reserved namespaces
  nor change annotations and labels of a namespace other than the allowed ones; and
  \<open>logAdmissionResponse\<close>, through which the webhooks of the agent return.
\<close>

section \<open>Logging of responses\<close>

text \<open>The log line (message and admission message), and the response, which is returned as it is.\<close>

definition logAdmissionResponse :: "ext \<Rightarrow> Response \<Rightarrow> (string \<times> string) \<times> Response" where
  "logAdmissionResponse E res =
     (let rmsg = (case ResultMessage E res of None \<Rightarrow> ''<not given>'' | Some m \<Rightarrow> m);
          msg = (if resp_allowed res then ''allowed'' else ''denied'')
      in ((msg, rmsg), res))"

lemma snd_logAdmissionResponse [simp]: "snd (logAdmissionResponse E res) = res"
  by (simp add: logAdmissionResponse_def Let_def)

section \<open>The validator\<close>

record NamespaceMetadataValidator =
  nmv_Decode :: "Request \<Rightarrow> err + json"
  nmv_DecodeRaw :: "string \<Rightarrow> err + json"
  nmv_Skipper :: Skipper
  ReservedNamespaces :: "string list"
  AllowedAnnotations :: "string list"
  AllowedLabels :: "string list"

definition changedKeys :: "ext \<Rightarrow> string gomap \<Rightarrow> string gomap \<Rightarrow> string list" where
  "changedKeys E a b =
     (let changedA = filter (\<lambda>(k, v). case mget b k of None \<Rightarrow> True | Some bV \<Rightarrow> v \<noteq> bV) (entries a);
          changedB = filter (\<lambda>(k, v). case mget a k of None \<Rightarrow> True | Some aV \<Rightarrow> v \<noteq> aV) (entries b)
      in sets_List E (set (map fst changedA) \<union> set (map fst changedB)))"

definition validateChangedMap ::
    "ext \<Rightarrow> string gomap \<Rightarrow> string gomap \<Rightarrow> string list \<Rightarrow> string \<Rightarrow> err option" where
  "validateChangedMap E old new allowedKeys errObjectRef =
     (let changed = changedKeys E old new;
          errs = map (\<lambda>k. NewErr (errObjectRef @ '' '' @ Quote (isPrint E) k @ '' is not allowed to be changed''))
                   (filter (\<lambda>k. \<not> list_ex (\<lambda>a. wildcard_Match E a k) allowedKeys) changed)
      in multierr_Combine E (map Some errs))"

text \<open>How \<open>fmt\<close> prints a slice of strings and a map from strings to strings (by ascending key).\<close>

definition fmtSlice :: "string list \<Rightarrow> string" where
  "fmtSlice ss = ''['' @ Join ss '' '' @ '']''"

definition fmtMap :: "string gomap \<Rightarrow> string" where
  "fmtMap m = ''map['' @ Join (map (\<lambda>(k, v). k @ '':'' @ v) (sort_key fst (entries m))) '' '' @ '']''"

definition formatDeniedMessage ::
    "err \<Rightarrow> string \<Rightarrow> string list \<Rightarrow> string gomap \<Rightarrow> string gomap \<Rightarrow> string" where
  "formatDeniedMessage err errMapRef allowed newMap oldMap =
     ''The request was denied:'' @ [newline, CHR 0x09] @ Error err @ [newline] @
     ''The following '' @ errMapRef @ '' can be modified:'' @ [newline, CHR 0x09] @ fmtSlice allowed @ [newline] @
     errMapRef @ '' given:'' @ [newline, CHR 0x09] @ fmtMap newMap @ [newline] @
     errMapRef @ '' before modification:'' @ [newline, CHR 0x09] @ fmtMap oldMap @ [newline]"

text \<open>The old object; without one, an empty document.\<close>

definition nmv_oldObject :: "NamespaceMetadataValidator \<Rightarrow> Request \<Rightarrow> err + json" where
  "nmv_oldObject v req = (if rq_OldObject req \<noteq> [] then nmv_DecodeRaw v (rq_OldObject req) else Inr (JObj []))"

definition nmv_check :: "ext \<Rightarrow> NamespaceMetadataValidator \<Rightarrow> Request \<Rightarrow> Response" where
  "nmv_check E v req =
     (if list_ex (\<lambda>ns. wildcard_Match E ns (rq_Name req)) (ReservedNamespaces v)
      then Denied ''Changing or creating reserved namespaces is not allowed.''
      else case nmv_oldObject v req of
        Inl err \<Rightarrow> Errored 400 (WrapErr ''failed to decode old object: '' err [])
      | Inr oldObj \<Rightarrow>
        (case nmv_Decode v req of
          Inl err \<Rightarrow> Errored 400 (WrapErr ''failed to decode object from request: '' err [])
        | Inr newObj \<Rightarrow>
          (case validateChangedMap E (GetAnnotations E oldObj) (GetAnnotations E newObj) (AllowedAnnotations v) ''annotation'' of
            Some err \<Rightarrow> Denied (formatDeniedMessage err ''annotations'' (AllowedAnnotations v)
                           (GetAnnotations E newObj) (GetAnnotations E oldObj))
          | None \<Rightarrow>
            (case validateChangedMap E (GetLabels E oldObj) (GetLabels E newObj) (AllowedLabels v) ''label'' of
              Some err \<Rightarrow> Denied (formatDeniedMessage err ''labels'' (AllowedLabels v)
                             (GetLabels E newObj) (GetLabels E oldObj))
            | None \<Rightarrow> Allowed ''allowed''))))"

definition nmv_handle :: "ext \<Rightarrow> NamespaceMetadataValidator \<Rightarrow> Request \<Rightarrow> Response" where
  "nmv_handle E v req = after_skip (nmv_Skipper v) (\<lambda>err. err) (nmv_check E v) req"

definition nmv_Handle :: "ext \<Rightarrow> NamespaceMetadataValidator \<Rightarrow> Request \<Rightarrow> Response" where
  "nmv_Handle E v req = snd (logAdmissionResponse E (nmv_handle E v req))"

interpretation nmv: guarded_webhook "nmv_Skipper v" "nmv_Handle E v" "\<lambda>err. err" "nmv_check E v" for E v
  by unfold_locales (simp add: nmv_Handle_def nmv_handle_def)

section \<open>Properties\<close>

lemma finite_changed: "finite (set (map fst xs) \<union> set (map fst ys))"
  by simp

lemma set_changedKeys:
  assumes "sets_ok E"
  shows "set (changedKeys E a b) =
    {k. \<exists>v. (k, v) \<in> set (entries a) \<and> mget b k \<noteq> Some v \<or> (k, v) \<in> set (entries b) \<and> mget a k \<noteq> Some v}"
  using assms
  by (auto simp: changedKeys_def Let_def sets_ok_def image_iff split: option.splits)

lemma entries_mget: "mwf m \<Longrightarrow> (k, v) \<in> set (entries m) \<longleftrightarrow> mget m k = Some v"
  by (simp add: mwf_def mget_def)

lemma set_changedKeys_differ:
  assumes "sets_ok E" and "mwf a" and "mwf b"
  shows "set (changedKeys E a b) = {k. mget a k \<noteq> mget b k}"
  unfolding set_changedKeys [OF assms(1)] entries_mget [OF assms(2)] entries_mget [OF assms(3)]
  by auto (metis not_None_eq option.distinct(1))+

text \<open>
  The changed keys are, in ascending order and without repetition, exactly the keys at which the
  two maps differ: keys that were added, removed or given another value.
\<close>

theorem changedKeys_differ:
  assumes "sets_ok E" and "mwf a" and "mwf b"
  shows "set (changedKeys E a b) = {k. mget a k \<noteq> mget b k}
    \<and> sorted (changedKeys E a b) \<and> distinct (changedKeys E a b)"
proof -
  have "\<exists>S. finite S \<and> changedKeys E a b = sorted_list_of_set S"
    using assms(1) finite_changed unfolding changedKeys_def Let_def sets_ok_def by blast
  then show ?thesis using set_changedKeys_differ [OF assms] by auto
qed

text \<open>Every difference between two maps is at a key that one of the patterns matches.\<close>

definition only_allowed_changes :: "ext \<Rightarrow> string list \<Rightarrow> string gomap \<Rightarrow> string gomap \<Rightarrow> bool" where
  "only_allowed_changes E allowed old new \<longleftrightarrow>
     (\<forall>k. mget old k \<noteq> mget new k \<longrightarrow> (\<exists>p \<in> set allowed. wildcard_Match E p k))"

lemma validateChangedMap_None:
  assumes "combine_ok E" and "sets_ok E" and "mwf a" and "mwf b"
  shows "validateChangedMap E a b allowed ref = None \<longleftrightarrow> only_allowed_changes E allowed a b"
proof -
  have "validateChangedMap E a b allowed ref = None \<longleftrightarrow>
      (\<forall>k \<in> set (changedKeys E a b). list_ex (\<lambda>p. wildcard_Match E p k) allowed)"
    using assms(1) by (auto simp: validateChangedMap_def Let_def combine_ok_def)
  then show ?thesis
    using set_changedKeys_differ [OF assms(2-4)] by (auto simp: only_allowed_changes_def list_ex_iff)
qed

text \<open>The getters return Go maps, which have distinct keys.\<close>

definition getters_wf :: "ext \<Rightarrow> bool" where
  "getters_wf E \<longleftrightarrow> (\<forall>j. mwf (GetLabels E j) \<and> mwf (GetAnnotations E j))"

lemma nmv_check_allowed:
  assumes "combine_ok E" and "sets_ok E" and "getters_wf E"
  shows "resp_allowed (nmv_check E v req) \<longleftrightarrow>
    \<not> (\<exists>p \<in> set (ReservedNamespaces v). wildcard_Match E p (rq_Name req)) \<and>
    (\<exists>old new. nmv_oldObject v req = Inr old \<and> nmv_Decode v req = Inr new \<and>
       only_allowed_changes E (AllowedAnnotations v) (GetAnnotations E old) (GetAnnotations E new) \<and>
       only_allowed_changes E (AllowedLabels v) (GetLabels E old) (GetLabels E new))"
proof -
  have v: "validateChangedMap E (GetLabels E x) (GetLabels E y) allowed ref = None \<longleftrightarrow>
        only_allowed_changes E allowed (GetLabels E x) (GetLabels E y)"
    "validateChangedMap E (GetAnnotations E x) (GetAnnotations E y) allowed ref = None \<longleftrightarrow>
        only_allowed_changes E allowed (GetAnnotations E x) (GetAnnotations E y)" for x y allowed ref
    using assms by (simp_all add: validateChangedMap_None getters_wf_def)
  show ?thesis
    unfolding nmv_check_def v(1) [of _ _ _ "''label''", symmetric] v(2) [of _ _ _ "''annotation''", symmetric]
    by (auto simp: list_ex_iff split: sum.splits option.splits)
qed

text \<open>
  C25: A request of a user who is not skipped is allowed exactly if its name matches no reserved
  pattern, old and new object can be decoded, and every annotation and every label that is added,
  removed or changed matches one of the allowed patterns. A new namespace counts as a change from an
  object without annotations and labels.
\<close>

theorem nmv_allowed_iff:
  assumes "combine_ok E" and "sets_ok E" and "getters_wf E" and "nmv_Skipper v req = (False, None)"
  shows "resp_allowed (nmv_Handle E v req) \<longleftrightarrow>
    \<not> (\<exists>p \<in> set (ReservedNamespaces v). wildcard_Match E p (rq_Name req)) \<and>
    (\<exists>old new. nmv_oldObject v req = Inr old \<and> nmv_Decode v req = Inr new \<and>
       only_allowed_changes E (AllowedAnnotations v) (GetAnnotations E old) (GetAnnotations E new) \<and>
       only_allowed_changes E (AllowedLabels v) (GetLabels E old) (GetLabels E new))"
  using nmv_check_allowed [OF assms(1-3)] nmv.unskipped_checks [OF assms(4)] by simp

section \<open>Witnesses\<close>

theorem changedKeys_differ_witness:
  "set (changedKeys sample_ext (Some [(''a'', ''1''), (''b'', ''2'')]) (Some [(''b'', ''3'')])) = {''a'', ''b''}"
proof -
  let ?a = "Some [(''a'', ''1''), (''b'', ''2'')] :: string gomap" and ?b = "Some [(''b'', ''3'')] :: string gomap"
  have "mwf ?a" "mwf ?b" by simp_all
  then have "set (changedKeys sample_ext ?a ?b) = {k. mget ?a k \<noteq> mget ?b k}"
    using changedKeys_differ [OF sample_ext_laws(4)] by blast
  then show ?thesis by (auto split: if_splits)
qed

definition flat_ext :: ext where
  "flat_ext = sample_ext\<lparr>GetLabels := (\<lambda>j. None),
     GetAnnotations := (\<lambda>j. if j = JObj [] then None else Some [(''note'', ''1'')])\<rparr>"

definition sample_request :: "string \<Rightarrow> string \<Rightarrow> string \<Rightarrow> Request" where
  "sample_request kind name user =
     \<lparr>rq_Kind = \<lparr>gvk_Group = [], gvk_Version = ''v1'', gvk_Kind = kind\<rparr>, rq_Name = name, rq_Namespace = name,
      rq_Operation = Create, rq_UserInfo = \<lparr>Username = user, Groups = []\<rparr>, rq_Object = ''{}'', rq_OldObject = []\<rparr>"

definition sample_nmv :: NamespaceMetadataValidator where
  "sample_nmv = \<lparr>nmv_Decode = (\<lambda>r. Inr JNull), nmv_DecodeRaw = (\<lambda>s. Inr JNull), nmv_Skipper = (\<lambda>r. (False, None)),
     ReservedNamespaces = [''default''], AllowedAnnotations = [''note''], AllowedLabels = []\<rparr>"

theorem nmv_allowed_iff_witness:
  "resp_allowed (nmv_Handle flat_ext sample_nmv (sample_request ''Namespace'' ''test'' ''alice''))"
proof -
  let ?req = "sample_request ''Namespace'' ''test'' ''alice''"
  have l: "combine_ok flat_ext" "sets_ok flat_ext" "getters_wf flat_ext"
    using sample_ext_laws by (simp_all add: ext_laws flat_ext_def getters_wf_def)
  have s: "nmv_Skipper sample_nmv ?req = (False, None)" by (simp add: sample_nmv_def)
  show ?thesis unfolding nmv_allowed_iff [OF l s]
    by (simp add: sample_nmv_def flat_ext_def sample_request_def sample_ext_def nmv_oldObject_def
        only_allowed_changes_def)
qed

end
