(* ===== verification/NamespaceQuota.thy ===== *)
theory NamespaceQuota
  imports NamespaceMetadata
begin

text \<open>
  webhooks/namespace_quota_validator.go: a namespace may be created if the organization it is for has
  fewer namespaces than its quota. The client is given by its reads of users, profiles, config maps
  and of the namespaces with a given label value.
\<close>

record NamespaceQuotaValidator =
  nqv_Decode :: "Request \<Rightarrow> err + json"
  nqv_getUser :: "string \<Rightarrow> err + User"
  nqv_getProfile :: "string \<Rightarrow> err + ZoneUsageProfile"
  nqv_getConfigMap :: "string \<Rightarrow> string \<Rightarrow> err + string gomap"
  nqv_listNamespaces :: "string \<Rightarrow> string \<Rightarrow> err + Namespace list"
  nqv_Skipper :: Skipper
  SkipValidateQuota :: bool
  nqv_OrganizationLabel :: string
  nqv_UserDefaultOrganizationAnnotation :: string
  nqv_SelectedProfile :: string
  QuotaOverrideNamespace :: string
  EnableLegacyNamespaceQuota :: bool
  LegacyNamespaceQuota :: int

text \<open>The organization that the namespace is for, or the response if there is none.\<close>

definition nqv_organization :: "ext \<Rightarrow> NamespaceQuotaValidator \<Rightarrow> Request \<Rightarrow> json \<Rightarrow> Response + string" where
  "nqv_organization E v req rawObject =
     (let label = (if GetKind E rawObject = ''Namespace''
                   then (case NestedString E rawObject [''metadata'', ''labels'', nqv_OrganizationLabel v] of
                      (on, found, Some err) \<Rightarrow> Inl (Errored 500 err)
                    | (on, found, None) \<Rightarrow> Inr on)
                   else Inr [])
      in case label of
           Inl r \<Rightarrow> Inl r
         | Inr organizationName \<Rightarrow>
             if organizationName \<noteq> [] then Inr organizationName
             else case nqv_getUser v (Username (rq_UserInfo req)) of
                 Inl err \<Rightarrow> Inl (Errored 500 err)
               | Inr user \<Rightarrow>
                   (let don = mstr (usr_Annotations user) (nqv_UserDefaultOrganizationAnnotation v)
                    in if don = []
                       then Inl (Denied ''There is no organization label and the user has no default organization set.'')
                       else Inr don))"

text \<open>The quota of an organization, or the response if it cannot be determined.\<close>

definition nqv_baseLimit :: "NamespaceQuotaValidator \<Rightarrow> Response + int" where
  "nqv_baseLimit v =
     (if EnableLegacyNamespaceQuota v then Inr (LegacyNamespaceQuota v)
      else if nqv_SelectedProfile v = [] then Inl (Denied ''No ZoneUsageProfile selected'')
      else case nqv_getProfile v (nqv_SelectedProfile v) of
          Inl err \<Rightarrow> Inl (Errored 500 err)
        | Inr profile \<Rightarrow> Inr (ups_NamespaceCount (zups_UpstreamSpec (zup_Spec profile))))"

definition nqv_limit :: "ext \<Rightarrow> NamespaceQuotaValidator \<Rightarrow> string \<Rightarrow> Response + int" where
  "nqv_limit E v organizationName = (case nqv_baseLimit v of
      Inl r \<Rightarrow> Inl r
    | Inr nsCountLimit \<Rightarrow>
        (case nqv_getConfigMap v (QuotaOverrideNamespace v) (''override-'' @ organizationName) of
           Inr data \<Rightarrow>
             (let s = mstr data ''namespaceQuota''
              in if s \<noteq> [] then (case Atoi s of Inl e \<Rightarrow> Inl (Errored 500 (AtoiErr E s e)) | Inr n \<Rightarrow> Inr n)
                 else Inr nsCountLimit)
         | Inl err \<Rightarrow> if \<not> IsNotFound err then Inl (Errored 500 err) else Inr nsCountLimit))"

definition nqv_check :: "ext \<Rightarrow> NamespaceQuotaValidator \<Rightarrow> Request \<Rightarrow> Response" where
  "nqv_check E v req = (case nqv_Decode v req of
      Inl err \<Rightarrow> Errored 400 err
    | Inr rawObject \<Rightarrow>
        (case nqv_organization E v req rawObject of
           Inl r \<Rightarrow> r
         | Inr organizationName \<Rightarrow>
             if SkipValidateQuota v then Allowed ''skipped quota validation''
             else case nqv_limit E v organizationName of
                 Inl r \<Rightarrow> r
               | Inr nsCountLimit \<Rightarrow>
                   (case nqv_listNamespaces v (nqv_OrganizationLabel v) organizationName of
                      Inl err \<Rightarrow> Errored 500 err
                    | Inr nsList \<Rightarrow>
                        if int (length nsList) \<ge> nsCountLimit
                        then Denied (''You cannot create more than '' @ Itoa nsCountLimit @
                               '' namespaces for organization '' @ Quote (isPrint E) organizationName @
                               ''. Please contact support to have your quota raised.'')
                        else Allowed ''allowed'')))"

definition nqv_handle :: "ext \<Rightarrow> NamespaceQuotaValidator \<Rightarrow> Request \<Rightarrow> Response" where
  "nqv_handle E v req = after_skip (nqv_Skipper v) (\<lambda>err. err) (nqv_check E v) req"

definition nqv_Handle :: "ext \<Rightarrow> NamespaceQuotaValidator \<Rightarrow> Request \<Rightarrow> Response" where
  "nqv_Handle E v req = snd (logAdmissionResponse E (nqv_handle E v req))"

interpretation nqv: guarded_webhook "nqv_Skipper v" "nqv_Handle E v" "\<lambda>err. err" "nqv_check E v" for E v
  by unfold_locales (simp add: nqv_Handle_def nqv_handle_def)

section \<open>Properties\<close>

lemma nqv_organization_Inl: "nqv_organization E v req raw = Inl r \<Longrightarrow> \<not> resp_allowed r"
  by (auto simp: nqv_organization_def Let_def split: if_splits prod.splits option.splits sum.splits)

lemma nqv_organization_nonempty: "nqv_organization E v req raw = Inr org \<Longrightarrow> org \<noteq> []"
  by (auto simp: nqv_organization_def Let_def split: if_splits prod.splits option.splits sum.splits)

lemma nqv_limit_Inl: "nqv_limit E v org = Inl r \<Longrightarrow> \<not> resp_allowed r"
  by (auto simp: nqv_limit_def nqv_baseLimit_def Let_def split: if_splits sum.splits)

lemma nqv_check_allowed:
  "resp_allowed (nqv_check E v req) \<longleftrightarrow>
    (\<exists>raw org. nqv_Decode v req = Inr raw \<and> nqv_organization E v req raw = Inr org \<and>
       (SkipValidateQuota v \<or>
        (\<exists>limit nss. nqv_limit E v org = Inr limit \<and>
           nqv_listNamespaces v (nqv_OrganizationLabel v) org = Inr nss \<and> int (length nss) < limit)))"
  by (auto simp: nqv_check_def split: sum.splits if_splits dest: nqv_organization_Inl nqv_limit_Inl)

text \<open>
  A request of a user who is not skipped is allowed exactly if it can be decoded, an organization
  is named by the label of the namespace or by the user's default, and (unless quotas are switched
  off) the limit of that organization can be determined and its namespaces can be listed and are fewer
  than the limit. Every failure on the way denies the request.
\<close>

theorem nqv_allowed_iff:
  assumes "nqv_Skipper v req = (False, None)"
  shows "resp_allowed (nqv_Handle E v req) \<longleftrightarrow>
    (\<exists>raw org. nqv_Decode v req = Inr raw \<and> nqv_organization E v req raw = Inr org \<and>
       (SkipValidateQuota v \<or>
        (\<exists>limit nss. nqv_limit E v org = Inr limit \<and>
           nqv_listNamespaces v (nqv_OrganizationLabel v) org = Inr nss \<and> int (length nss) < limit)))"
  by (simp only: nqv.unskipped_checks [OF assms] nqv_check_allowed)

text \<open>
  An organization's override takes precedence: once the basic limit (legacy quota or selected
  profile) is known, a number in the override config map replaces it, an unreadable number or another
  error than NotFound is an error, and without an override the basic limit applies. A limit read from
  an override fits the 64 bits of a Go \<open>int\<close>.
\<close>

theorem nqv_limit_override:
  assumes "nqv_baseLimit v = Inr base"
  shows "nqv_limit E v org =
    (case nqv_getConfigMap v (QuotaOverrideNamespace v) (''override-'' @ org) of
       Inl err \<Rightarrow> if IsNotFound err then Inr base else Inl (Errored 500 err)
     | Inr data \<Rightarrow>
         if mstr data ''namespaceQuota'' = [] then Inr base
         else case Atoi (mstr data ''namespaceQuota'') of
             Inl e \<Rightarrow> Inl (Errored 500 (AtoiErr E (mstr data ''namespaceQuota'') e))
           | Inr n \<Rightarrow> Inr n) \<and>
    (\<forall>n. nqv_limit E v org = Inr n \<longrightarrow> n = base \<or> - (2 ^ 63) \<le> n \<and> n < 2 ^ 63)"
  using assms
  by (auto simp: nqv_limit_def Let_def split: sum.splits if_splits dest: Atoi_bounds)

section \<open>Quotas over time\<close>

text \<open>
  The namespaces of the cluster change by requests that the webhook lets through, one at a time and
  each checked against the current namespaces, and by deletions. A created namespace carries the
  label of the organization it was checked for.
\<close>

definition of_org :: "NamespaceQuotaValidator \<Rightarrow> string \<Rightarrow> Namespace list \<Rightarrow> Namespace list" where
  "of_org v org nss = filter (\<lambda>ns. mget (ns_Labels ns) (nqv_OrganizationLabel v) = Some org) nss"

definition listing :: "NamespaceQuotaValidator \<Rightarrow> Namespace list \<Rightarrow> NamespaceQuotaValidator" where
  "listing v nss = v\<lparr>nqv_listNamespaces := \<lambda>label org. Inr (of_org v org nss)\<rparr>"

inductive quota_step :: "ext \<Rightarrow> NamespaceQuotaValidator \<Rightarrow> Namespace list \<Rightarrow> Namespace list \<Rightarrow> bool"
  for E v where
  create: "nqv_Skipper v req = (False, None) \<Longrightarrow> resp_allowed (nqv_Handle E (listing v nss) req) \<Longrightarrow>
     nqv_Decode v req = Inr raw \<Longrightarrow> nqv_organization E v req raw = Inr org \<Longrightarrow>
     mget (ns_Labels ns) (nqv_OrganizationLabel v) = Some org \<Longrightarrow> quota_step E v nss (ns # nss)"
| delete: "quota_step E v nss (remove1 ns nss)"

lemma listing_fields [simp]:
  "nqv_Decode (listing v nss) = nqv_Decode v" "nqv_getUser (listing v nss) = nqv_getUser v"
  "nqv_getProfile (listing v nss) = nqv_getProfile v" "nqv_getConfigMap (listing v nss) = nqv_getConfigMap v"
  "nqv_listNamespaces (listing v nss) = (\<lambda>label org. Inr (of_org v org nss))"
  "nqv_Skipper (listing v nss) = nqv_Skipper v" "SkipValidateQuota (listing v nss) = SkipValidateQuota v"
  "nqv_OrganizationLabel (listing v nss) = nqv_OrganizationLabel v"
  "nqv_UserDefaultOrganizationAnnotation (listing v nss) = nqv_UserDefaultOrganizationAnnotation v"
  "nqv_SelectedProfile (listing v nss) = nqv_SelectedProfile v"
  "QuotaOverrideNamespace (listing v nss) = QuotaOverrideNamespace v"
  "EnableLegacyNamespaceQuota (listing v nss) = EnableLegacyNamespaceQuota v"
  "LegacyNamespaceQuota (listing v nss) = LegacyNamespaceQuota v"
  by (simp_all add: listing_def)

lemma listing_limits [simp]:
  "nqv_organization E (listing v nss) req raw = nqv_organization E v req raw"
  "nqv_limit E (listing v nss) org = nqv_limit E v org"
  unfolding nqv_organization_def nqv_limit_def nqv_baseLimit_def listing_fields by (rule refl)+

lemma length_of_org_remove1: "length (of_org v org (remove1 ns nss)) \<le> length (of_org v org nss)"
  by (simp add: of_org_def filter_remove1 length_remove1)

lemma quota_step_bound:
  assumes "quota_step E v nss nss'" and "\<not> SkipValidateQuota v" and "nqv_limit E v org = Inr limit"
    and "int (length (of_org v org nss)) \<le> max 0 limit"
  shows "int (length (of_org v org nss')) \<le> max 0 limit"
  using assms(1)
proof cases
  case (create req raw org' ns)
  have "resp_allowed (nqv_check E (listing v nss) req)"
    using create(2,3) nqv.unskipped_checks [of "listing v nss" req E] by simp
  then obtain limit' where "nqv_limit E v org' = Inr limit'" "int (length (of_org v org' nss)) < limit'"
    unfolding nqv_check_allowed using create(4,5) assms(2) by auto
  then show ?thesis using create(1,6) assms(3,4) by (cases "org' = org") (auto simp: of_org_def)
next
  case (delete ns)
  then show ?thesis using length_of_org_remove1 [of v org ns nss] assms(4) by simp
qed

text \<open>
  C1: If every namespace that unprivileged users create passes the webhook, one request at a time, an
  organization that starts within its quota never gets more namespaces than its quota.
\<close>

theorem quota_never_exceeded:
  assumes "(quota_step E v)\<^sup>*\<^sup>* nss nss'" and "\<not> SkipValidateQuota v" and "nqv_limit E v org = Inr limit"
    and "int (length (of_org v org nss)) \<le> max 0 limit"
  shows "int (length (of_org v org nss')) \<le> max 0 limit"
  using assms(1)
proof (induction rule: rtranclp_induct)
  case (step y z)
  from quota_step_bound [OF step.hyps(2) assms(2,3) step.IH] show ?case .
qed (rule assms(4))

section \<open>Witnesses\<close>

definition sample_nqv :: NamespaceQuotaValidator where
  "sample_nqv = \<lparr>nqv_Decode = (\<lambda>r. Inr (JObj [])),
     nqv_getUser = (\<lambda>n. Inr \<lparr>usr_Name = n, usr_Annotations = Some [(''default-org'', ''acme'')]\<rparr>),
     nqv_getProfile = (\<lambda>n. Inl (NotFound n)),
     nqv_getConfigMap = (\<lambda>ns n. if n = ''override-acme'' then Inr (Some [(''namespaceQuota'', ''2'')]) else Inl (NotFound n)),
     nqv_listNamespaces = (\<lambda>l o'. Inr []), nqv_Skipper = (\<lambda>r. (False, None)), SkipValidateQuota = False,
     nqv_OrganizationLabel = ''org'', nqv_UserDefaultOrganizationAnnotation = ''default-org'',
     nqv_SelectedProfile = [], QuotaOverrideNamespace = ''quotas'',
     EnableLegacyNamespaceQuota = True, LegacyNamespaceQuota = 1\<rparr>"

lemma sample_nqv_limit: "nqv_limit sample_ext sample_nqv ''acme'' = Inr 2"
proof -
  have "Atoi ''2'' = Inr 2" by (simp add: Atoi_def ParseUint_def digit_val_def maxUint64_def)
  then show ?thesis by (simp add: nqv_limit_def nqv_baseLimit_def sample_nqv_def mstr_def)
qed

lemma sample_nqv_organization:
  "nqv_organization sample_ext sample_nqv (sample_request ''Namespace'' ''n'' ''alice'') (JObj []) = Inr ''acme''"
  by (simp add: nqv_organization_def sample_nqv_def sample_ext_simps mstr_def)

theorem nqv_allowed_iff_witness:
  "resp_allowed (nqv_Handle sample_ext sample_nqv (sample_request ''Namespace'' ''n'' ''alice''))"
proof -
  let ?req = "sample_request ''Namespace'' ''n'' ''alice''"
  have s: "nqv_Skipper sample_nqv ?req = (False, None)" by (simp add: sample_nqv_def)
  have "nqv_Decode sample_nqv ?req = Inr (JObj [])"
    "nqv_listNamespaces sample_nqv (nqv_OrganizationLabel sample_nqv) ''acme'' = Inr []"
    by (simp_all add: sample_nqv_def)
  then show ?thesis unfolding nqv_allowed_iff [OF s]
    using sample_nqv_organization sample_nqv_limit by fastforce
qed

theorem nqv_limit_override_witness: "nqv_limit sample_ext sample_nqv ''other'' = Inr 1"
proof -
  have "nqv_baseLimit sample_nqv = Inr 1" by (simp add: nqv_baseLimit_def sample_nqv_def)
  from nqv_limit_override [OF this, of sample_ext "''other''"] show ?thesis
    by (simp add: sample_nqv_def)
qed

theorem quota_never_exceeded_witness:
  "\<exists>nss. (quota_step sample_ext sample_nqv)\<^sup>*\<^sup>* [] nss \<and> nss \<noteq> [] \<and> int (length (of_org sample_nqv ''acme'' nss)) \<le> 2"
proof -
  let ?ns = "\<lparr>ns_Name = ''n'', ns_Labels = Some [(''org'', ''acme'')], ns_Annotations = None, ns_DeletionTimestamp = None\<rparr>"
  let ?req = "sample_request ''Namespace'' ''n'' ''alice''"
  have k: "nqv_Skipper sample_nqv ?req = (False, None)" and d: "nqv_Decode sample_nqv ?req = Inr (JObj [])"
    by (simp_all add: sample_nqv_def)
  have "resp_allowed (nqv_check sample_ext (listing sample_nqv []) ?req)"
    unfolding nqv_check_allowed using d sample_nqv_organization sample_nqv_limit by (fastforce simp: of_org_def)
  then have "resp_allowed (nqv_Handle sample_ext (listing sample_nqv []) ?req)"
    using nqv.unskipped_checks [of "listing sample_nqv []" ?req sample_ext] k by simp
  then have "quota_step sample_ext sample_nqv [] [?ns]"
    by (rule quota_step.create [OF k _ d sample_nqv_organization]) (simp add: sample_nqv_def)
  then have s: "(quota_step sample_ext sample_nqv)\<^sup>*\<^sup>* [] [?ns]" by blast
  have "\<not> SkipValidateQuota sample_nqv" "int (length (of_org sample_nqv ''acme'' [])) \<le> max 0 2"
    by (simp_all add: sample_nqv_def of_org_def)
  from quota_never_exceeded [OF s this(1) sample_nqv_limit this(2)] s show ?thesis
    by (intro exI [of _ "[?ns]"]) simp
qed

end
