(* ===== verification/QuotaRace.thy ===== *)
theory QuotaRace
  imports NamespaceQuota
begin

text \<open>
  The quota of namespaces when requests overlap. The webhook counts the namespaces that are stored; the API
  server stores a namespace some time after the webhook has let it through, and may ask the webhook about
  other requests in between. \<open>c\<close> bounds how many namespaces of one organization are let through and not yet
  stored at any time. The steps do not keep the names of the stored namespaces apart, which the server does; the bound holds
  without that, and the run that reaches it can be taken with namespaces of different names.
\<close>

section \<open>Overlapping requests\<close>

record race =
  stored :: "Namespace list"
  pending :: "Namespace list"

inductive race_step :: "ext \<Rightarrow> NamespaceQuotaValidator \<Rightarrow> nat \<Rightarrow> race \<Rightarrow> race \<Rightarrow> bool"
  for E v c where
  admit: "nqv_Skipper v req = (False, None) \<Longrightarrow> resp_allowed (nqv_Handle E (listing v (stored s)) req) \<Longrightarrow>
     nqv_Decode v req = Inr raw \<Longrightarrow> nqv_organization E v req raw = Inr org \<Longrightarrow>
     mget (ns_Labels ns) (nqv_OrganizationLabel v) = Some org \<Longrightarrow> length (of_org v org (pending s)) < c \<Longrightarrow>
     race_step E v c s (s\<lparr>pending := ns # pending s\<rparr>)"
| store: "ns \<in> set (pending s) \<Longrightarrow> race_step E v c s \<lparr>stored = ns # stored s, pending = remove1 ns (pending s)\<rparr>"
| abandon: "race_step E v c s (s\<lparr>pending := remove1 ns (pending s)\<rparr>)"
| delete: "race_step E v c s (s\<lparr>stored := remove1 ns (stored s)\<rparr>)"

text \<open>The namespaces of an organization, those on their way included.\<close>

definition claimed :: "NamespaceQuotaValidator \<Rightarrow> string \<Rightarrow> race \<Rightarrow> nat" where
  "claimed v org s = length (of_org v org (stored s)) + length (of_org v org (pending s))"

lemma of_org_Cons:
  "of_org v org (ns # nss) =
     (if mget (ns_Labels ns) (nqv_OrganizationLabel v) = Some org then ns # of_org v org nss else of_org v org nss)"
  by (simp add: of_org_def)

lemma of_org_remove1_member:
  assumes "ns \<in> set nss"
  shows "length (of_org v org (ns # remove1 ns nss)) = length (of_org v org nss)"
proof -
  have "mset (ns # remove1 ns nss) = mset nss" using assms by simp
  then have "mset (of_org v org (ns # remove1 ns nss)) = mset (of_org v org nss)"
    unfolding of_org_def mset_filter by (rule arg_cong)
  from mset_eq_length [OF this] show ?thesis .
qed

lemma admitted_below_limit:
  assumes "nqv_Skipper v req = (False, None)" and "nqv_Decode v req = Inr raw" and "nqv_organization E v req raw = Inr org"
    and "\<not> SkipValidateQuota v" and "nqv_limit E v org = Inr limit"
  shows "resp_allowed (nqv_Handle E (listing v nss) req) \<longleftrightarrow> int (length (of_org v org nss)) < limit"
proof -
  have "resp_allowed (nqv_Handle E (listing v nss) req) \<longleftrightarrow> resp_allowed (nqv_check E (listing v nss) req)"
    using nqv.unskipped_checks [of "listing v nss" req E] assms(1) by simp
  also have "\<dots> \<longleftrightarrow> int (length (of_org v org nss)) < limit"
    unfolding nqv_check_allowed using assms(2-5) by simp
  finally show ?thesis .
qed

lemma race_step_claimed:
  assumes "race_step E v c s s'" and "\<not> SkipValidateQuota v" and "nqv_limit E v org = Inr limit"
    and "int (claimed v org s) \<le> max 0 limit + int (c - 1)"
  shows "int (claimed v org s') \<le> max 0 limit + int (c - 1)"
  using assms(1)
proof cases
  case (admit req raw org' ns)
  show ?thesis
  proof (cases "org' = org")
    case True
    then have "int (length (of_org v org (stored s))) < limit"
      using admitted_below_limit [OF admit(2,4,5) assms(2), of limit "stored s"] admit(3) assms(3) by simp
    then show ?thesis using True admit(1,6,7) by (simp add: claimed_def of_org_Cons)
  next
    case False
    then show ?thesis using admit(1,6) assms(4) by (simp add: claimed_def of_org_Cons)
  qed
next
  case (store ns)
  then have "claimed v org s' = claimed v org s"
    using of_org_remove1_member [OF store(2), of v org] by (simp add: claimed_def of_org_Cons split: if_splits)
  then show ?thesis using assms(4) by simp
next
  case (abandon ns)
  then show ?thesis using length_of_org_remove1 [of v org ns "pending s"] assms(4) by (simp add: claimed_def)
next
  case (delete ns)
  then show ?thesis using length_of_org_remove1 [of v org ns "stored s"] assms(4) by (simp add: claimed_def)
qed

section \<open>Properties\<close>

text \<open>
  C3: However the requests of users overlap, an organization that starts within its quota never has more than
  c - 1 namespaces above its quota, where c bounds the number of its namespaces that are let through and not
  yet stored at the same time. Without overlap (c = 1) the quota is kept exactly.
\<close>

theorem quota_overrun_bounded:
  assumes "(race_step E v c)\<^sup>*\<^sup>* \<lparr>stored = nss, pending = []\<rparr> s" and "\<not> SkipValidateQuota v"
    and "nqv_limit E v org = Inr limit" and "int (length (of_org v org nss)) \<le> max 0 limit"
  shows "int (length (of_org v org (stored s))) \<le> max 0 limit + int (c - 1)"
proof -
  from assms(1) have "int (claimed v org s) \<le> max 0 limit + int (c - 1)"
  proof (induction rule: rtranclp_induct)
    case base
    show ?case using assms(4) by (simp add: claimed_def of_org_def)
  next
    case (step y z)
    from race_step_claimed [OF step.hyps(2) assms(2,3) step.IH] show ?case .
  qed
  then show ?thesis by (simp add: claimed_def)
qed

text \<open>A request for a namespace of the organization that the webhook decides on, and the namespace that it asks for.\<close>

definition asks_for :: "ext \<Rightarrow> NamespaceQuotaValidator \<Rightarrow> string \<Rightarrow> Request \<times> Namespace \<Rightarrow> bool" where
  "asks_for E v org = (\<lambda>(req, ns). nqv_Skipper v req = (False, None) \<and>
     (\<exists>raw. nqv_Decode v req = Inr raw \<and> nqv_organization E v req raw = Inr org) \<and>
     mget (ns_Labels ns) (nqv_OrganizationLabel v) = Some org)"

lemma asked_for_labelled: "\<forall>x \<in> set xs. asks_for E v org x \<Longrightarrow> of_org v org (map snd xs) = map snd xs"
  by (induction xs) (auto simp: asks_for_def of_org_def)

lemma admit_many:
  assumes "\<forall>x \<in> set xs. asks_for E v org x" and "\<not> SkipValidateQuota v" and "nqv_limit E v org = Inr limit"
    and "int (length (of_org v org nss)) < limit" and "length xs \<le> c"
  shows "(race_step E v c)\<^sup>*\<^sup>* \<lparr>stored = nss, pending = []\<rparr> \<lparr>stored = nss, pending = map snd xs\<rparr>"
  using assms(1,5)
proof (induction xs)
  case (Cons x xs)
  obtain req ns where x: "x = (req, ns)" by (cases x)
  let ?s = "\<lparr>stored = nss, pending = map snd xs\<rparr>"
  from Cons.prems(1) x obtain raw where a: "nqv_Skipper v req = (False, None)" "nqv_Decode v req = Inr raw"
    "nqv_organization E v req raw = Inr org" "mget (ns_Labels ns) (nqv_OrganizationLabel v) = Some org" by (auto simp: asks_for_def)
  have "resp_allowed (nqv_Handle E (listing v (stored ?s)) req)"
    using admitted_below_limit [OF a(1-3) assms(2,3)] assms(4) by simp
  moreover have "length (of_org v org (pending ?s)) < c"
    using Cons.prems asked_for_labelled [of xs E v org] by simp
  ultimately have "race_step E v c ?s (?s\<lparr>pending := ns # pending ?s\<rparr>)" by (intro race_step.admit [OF a(1) _ a(2,3,4)])
  with Cons x show ?case by simp
qed simp

lemma store_many: "(race_step E v c)\<^sup>*\<^sup>* \<lparr>stored = nss, pending = xs\<rparr> \<lparr>stored = rev xs @ nss, pending = []\<rparr>"
proof (induction xs arbitrary: nss)
  case (Cons ns xs)
  have "race_step E v c \<lparr>stored = nss, pending = ns # xs\<rparr> \<lparr>stored = ns # nss, pending = xs\<rparr>"
    using race_step.store [of ns "\<lparr>stored = nss, pending = ns # xs\<rparr>" E v c] by simp
  then show ?case using Cons [of "ns # nss"] by (simp add: converse_rtranclp_into_rtranclp)
qed simp

text \<open>
  C23: The bound on the overrun is exact, so the webhook alone does not enforce the quota: if one place is left
  and c requests for the organization overlap, all of them are let through, and the organization ends with
  c - 1 namespaces above its quota. The requests may ask for any namespaces, for c new ones of different names say, and these
  are the ones that are stored.
\<close>

theorem quota_overrun_reached:
  assumes "\<not> SkipValidateQuota v" and "nqv_limit E v org = Inr limit" and "int (length (of_org v org nss)) = limit - 1"
    and "\<forall>x \<in> set xs. asks_for E v org x" and "length xs = c"
  shows "\<exists>s. (race_step E v c)\<^sup>*\<^sup>* \<lparr>stored = nss, pending = []\<rparr> s \<and> mset (stored s) = mset (map snd xs) + mset nss \<and> pending s = [] \<and>
    int (length (of_org v org (stored s))) = limit - 1 + int c"
proof -
  let ?s = "\<lparr>stored = rev (map snd xs) @ nss, pending = []\<rparr>"
  have "(race_step E v c)\<^sup>*\<^sup>* \<lparr>stored = nss, pending = []\<rparr> \<lparr>stored = nss, pending = map snd xs\<rparr>"
    by (rule admit_many [OF assms(4,1,2)]) (use assms(3,5) in simp_all)
  also have "(race_step E v c)\<^sup>*\<^sup>* \<dots> ?s" by (rule store_many)
  finally have "(race_step E v c)\<^sup>*\<^sup>* \<lparr>stored = nss, pending = []\<rparr> ?s" .
  moreover have "of_org v org (rev (map snd xs)) = rev (map snd xs)"
    using asked_for_labelled [OF assms(4)] by (simp add: of_org_def rev_filter [symmetric])
  then have "int (length (of_org v org (stored ?s))) = limit - 1 + int c"
    using assms(3,5) by (simp add: of_org_def)
  ultimately show ?thesis by (intro exI [of _ ?s]) simp
qed

section \<open>Witnesses\<close>

definition sample_ns :: Namespace where
  "sample_ns = \<lparr>ns_Name = ''n'', ns_Labels = Some [(''org'', ''acme'')], ns_Annotations = None, ns_DeletionTimestamp = None\<rparr>"

definition sample_ask :: "string \<Rightarrow> Request \<times> Namespace" where
  "sample_ask n = (sample_request ''Namespace'' n ''alice'', sample_ns\<lparr>ns_Name := n\<rparr>)"

lemma sample_asks: "asks_for sample_ext sample_nqv ''acme'' (sample_ask n)"
  by (simp add: asks_for_def sample_ask_def sample_nqv_def sample_ns_def nqv_organization_def sample_request_def sample_ext_simps mstr_def)

lemma sample_quota_fields:
  "\<not> SkipValidateQuota sample_nqv" "length (of_org sample_nqv ''acme'' [sample_ns]) = 1"
  by (simp_all add: sample_nqv_def sample_ns_def of_org_def)

theorem quota_overrun_reached_witness:
  "\<exists>s. (race_step sample_ext sample_nqv 3)\<^sup>*\<^sup>* \<lparr>stored = [sample_ns], pending = []\<rparr> s \<and>
     length (of_org sample_nqv ''acme'' (stored s)) = 4 \<and> distinct (map ns_Name (stored s))"
proof -
  let ?xs = "map sample_ask [''n1'', ''n2'', ''n3'']"
  have l: "int (length (of_org sample_nqv ''acme'' [sample_ns])) = 2 - 1" "\<forall>x \<in> set ?xs. asks_for sample_ext sample_nqv ''acme'' x" "length ?xs = 3"
    using sample_quota_fields(2) sample_asks by simp_all
  from quota_overrun_reached [OF sample_quota_fields(1) sample_nqv_limit l] obtain s where
    s: "(race_step sample_ext sample_nqv 3)\<^sup>*\<^sup>* \<lparr>stored = [sample_ns], pending = []\<rparr> s" "mset (stored s) = mset (map snd ?xs) + mset [sample_ns]"
      "int (length (of_org sample_nqv ''acme'' (stored s))) = 2 - 1 + int 3" by blast
  have "mset (map ns_Name (stored s)) = mset (map ns_Name (map snd ?xs @ [sample_ns]))" unfolding mset_map s(2) by simp
  moreover have "distinct (map ns_Name (map snd ?xs @ [sample_ns]))" by (simp add: sample_ask_def sample_ns_def)
  ultimately have "distinct (map ns_Name (stored s))" using mset_eq_imp_distinct_iff by blast
  with s show ?thesis by auto
qed

theorem quota_overrun_bounded_witness:
  "\<exists>s. (race_step sample_ext sample_nqv 2)\<^sup>*\<^sup>* \<lparr>stored = [sample_ns], pending = []\<rparr> s \<and> pending s \<noteq> [] \<and>
     int (length (of_org sample_nqv ''acme'' (stored s))) \<le> 3"
proof -
  let ?xs = "map sample_ask [''n1'', ''n2'']" and ?s = "\<lparr>stored = [sample_ns], pending = map snd (map sample_ask [''n1'', ''n2''])\<rparr>"
  have "(race_step sample_ext sample_nqv 2)\<^sup>*\<^sup>* \<lparr>stored = [sample_ns], pending = []\<rparr> ?s"
    by (rule admit_many [OF _ sample_quota_fields(1) sample_nqv_limit]) (use sample_quota_fields(2) sample_asks in simp_all)
  moreover from quota_overrun_bounded [OF this sample_quota_fields(1) sample_nqv_limit]
  have "int (length (of_org sample_nqv ''acme'' (stored ?s))) \<le> 3"
    using sample_quota_fields(2) by simp
  ultimately show ?thesis by (intro exI [of _ ?s]) simp
qed

end
