(* ===== verification/PodNodeSelector.thy ===== *)
theory PodNodeSelector
  imports NamespaceMetadata
begin

text \<open>
  webhooks/pod_node_selector_mutator.go: pods get the default node selector of their namespace, or of
  the cluster, for the labels they do not select by themselves. The patch is checked against the
  effect of JSON patches on the pod document.
\<close>

record PodNodeSelectorMutator =
  pns_Decode :: "Request \<Rightarrow> err + json"
  pns_getNamespace :: "string \<Rightarrow> err + Namespace"
  DefaultNodeSelector :: "string gomap"
  DefaultNamespaceNodeSelectorAnnotation :: string
  pns_Skipper :: Skipper

definition escapeJSONPointerSegment :: "string \<Rightarrow> string" where
  "escapeJSONPointerSegment s = ReplaceAll (ReplaceAll s (CHR ''~'') ''~0'') (CHR ''/'') ''~1''"

definition defaultLabels :: "ext \<Rightarrow> PodNodeSelectorMutator \<Rightarrow> Namespace \<Rightarrow> err + string gomap" where
  "defaultLabels E v ns =
     (let rawDefaults = mstr (ns_Annotations ns) (DefaultNamespaceNodeSelectorAnnotation v)
      in if DefaultNamespaceNodeSelectorAnnotation v = [] \<or> rawDefaults = [] then Inr (DefaultNodeSelector v)
         else case ConvertSelectorToLabelsMap E rawDefaults of
             (d, Some err) \<Rightarrow> Inl (WrapErr (''failed to parse default node selector fom '' @
                          DefaultNamespaceNodeSelectorAnnotation v @ '': '') err [])
           | (d, None) \<Rightarrow> Inr d)"

definition addSelectorOp :: "string \<Rightarrow> string \<Rightarrow> Operation" where
  "addSelectorOp k v =
     \<lparr>op_Operation = ''add'', op_Path = ''/spec/nodeSelector/'' @ escapeJSONPointerSegment k, op_Value = JStr v\<rparr>"

definition nodeSelectorPatches :: "string gomap \<Rightarrow> bool \<Rightarrow> string gomap \<Rightarrow> Operation list" where
  "nodeSelectorPatches nodeSel hasNodeSel defaults =
     (if hasNodeSel then
        map (\<lambda>(k, v). addSelectorOp k v)
          (filter (\<lambda>(k, v). mget nodeSel k = None) (entries defaults))
      else [\<lparr>op_Operation = ''add'', op_Path = ''/spec/nodeSelector'', op_Value = json_of_map (entries defaults)\<rparr>])"

definition pns_check :: "ext \<Rightarrow> PodNodeSelectorMutator \<Rightarrow> Request \<Rightarrow> Response" where
  "pns_check E v req = (case pns_getNamespace v (rq_Namespace req) of
      Inl err \<Rightarrow> Errored 500 err
    | Inr ns \<Rightarrow>
      (case pns_Decode v req of
        Inl err \<Rightarrow> Errored 400 err
      | Inr rawPod \<Rightarrow>
        (case defaultLabels E v ns of
          Inl err \<Rightarrow> Errored 500 err
        | Inr defaults \<Rightarrow>
            if entries defaults = [] then Allowed ''no default labels''
            else case NestedStringMap E rawPod [''spec'', ''nodeSelector''] of
                (nodeSel, hasNodeSel, Some err) \<Rightarrow> Errored 500 err
              | (nodeSel, hasNodeSel, None) \<Rightarrow>
                  Patched ''added default node selector'' (nodeSelectorPatches nodeSel hasNodeSel defaults))))"

definition pns_admit :: "ext \<Rightarrow> PodNodeSelectorMutator \<Rightarrow> Request \<Rightarrow> Response" where
  "pns_admit E v req = after_skip (pns_Skipper v) (\<lambda>err. err) (pns_check E v) req"

definition pns_Handle :: "ext \<Rightarrow> PodNodeSelectorMutator \<Rightarrow> Request \<Rightarrow> Response" where
  "pns_Handle E v req =
     (if gvk_Group (rq_Kind req) \<noteq> [] \<or> gvk_Kind (rq_Kind req) \<noteq> ''Pod''
      then Errored 400 (NewErr (''expected a Pod, got a '' @ gvk_Kind (rq_Kind req)))
      else pns_admit E v req)"

interpretation pns: guarded_webhook "pns_Skipper v" "pns_admit E v" "\<lambda>err. err" "pns_check E v" for E v
  by unfold_locales (simp add: pns_admit_def)

section \<open>JSON pointers\<close>

lemma escape_simps [simp]:
  "escapeJSONPointerSegment [] = []"
  "escapeJSONPointerSegment (c # s) =
     (if c = CHR ''~'' then ''~0'' else if c = CHR ''/'' then ''~1'' else [c]) @ escapeJSONPointerSegment s"
  by (simp_all add: escapeJSONPointerSegment_def)

lemma unescape_Cons: "c \<noteq> CHR ''~'' \<Longrightarrow> unescape (c # s) = c # unescape s"
  by (cases s) auto

lemma unescape_escape: "unescape (escapeJSONPointerSegment s) = s"
  by (induction s) (auto simp: unescape_Cons)

lemma slash_not_escape: "CHR ''/'' \<notin> set (escapeJSONPointerSegment s)"
  by (induction s) auto

text \<open>
  Escaping a key as a segment of a JSON pointer is undone by the unescaping of RFC 6901 and leaves
  no slash, so that a pointer to a member of an object has exactly the intended segments, whatever
  characters the key has.
\<close>

theorem escape_roundtrip:
  "unescape (escapeJSONPointerSegment s) = s \<and> CHR ''/'' \<notin> set (escapeJSONPointerSegment s)"
  by (simp add: unescape_escape slash_not_escape)

lemma pointer_tokens_member:
  assumes "CHR ''/'' \<notin> set a" "CHR ''/'' \<notin> set b" "unescape a = a" "unescape b = b"
  shows "pointer_tokens (''/'' @ a @ ''/'' @ b @ ''/'' @ escapeJSONPointerSegment k) = Some [a, b, k]"
  using assms slash_not_escape [of k]
  by (simp add: pointer_tokens_def Split_append Split_absent unescape_escape)

section \<open>Adding members to an object of strings\<close>

lemma string_map_at_Some:
  "string_map_at path j = Some al \<longleftrightarrow> (\<exists>m. jget path j = Some (JObj m) \<and> jstrings m = Some al)"
proof (cases "jget path j")
  case (Some j')
  then show ?thesis by (cases j') (auto simp: string_map_at_def)
qed (simp add: string_map_at_def)

lemma json_add_member:
  assumes "string_map_at [a, b] j = Some al"
  shows "\<exists>j'. json_add [a, b, k] (JStr v) j = Some j' \<and> string_map_at [a, b] j' = Some (AList.update k v al)"
proof -
  from assms obtain m where m: "jget [a, b] j = Some (JObj m)" "jstrings m = Some al"
    by (auto simp: string_map_at_Some)
  then obtain mj j1 ma where j: "j = JObj mj" "map_of mj a = Some j1" "j1 = JObj ma" "map_of ma b = Some (JObj m)"
    by (cases j; cases "jget [a] j"; cases "the (jget [a] j)") (auto split: option.splits)
  then show ?thesis using jstrings_update [OF m(2), of k v] by (auto simp: string_map_at_Some)
qed

lemma json_add_string_map:
  assumes "jget [a] j = Some (JObj m)"
  shows "\<exists>j'. json_add [a, b] (json_of_map al) j = Some j' \<and> string_map_at [a, b] j' = Some al"
proof -
  from assms obtain mj where "j = JObj mj" "map_of mj a = Some (JObj m)"
    by (cases j) (auto split: option.splits)
  then show ?thesis by (auto simp: string_map_at_def)
qed

section \<open>The pod that results\<close>

definition selPath :: "string list" where
  "selPath = [''spec'', ''nodeSelector'']"

lemma apply_op_addSelectorOp: "apply_op (addSelectorOp k v) j = json_add (selPath @ [k]) (JStr v) j"
  using pointer_tokens_member [of "''spec''" "''nodeSelector''" k]
  by (simp add: addSelectorOp_def apply_op_def selPath_def)

lemma json_add_selector:
  "string_map_at selPath j = Some al \<Longrightarrow>
     \<exists>j'. json_add (selPath @ [k]) (JStr v) j = Some j' \<and> string_map_at selPath j' = Some (AList.update k v al)"
  using json_add_member by (simp add: selPath_def)

lemma diverge_append: "diverge p q \<Longrightarrow> diverge (p @ r) q"
  by (induction p q rule: diverge.induct) auto

lemma apply_patch_members:
  assumes "string_map_at selPath j = Some al"
  shows "\<exists>j'. apply_patch (map (\<lambda>(k, v). addSelectorOp k v) kvs) j = Some j' \<and>
           string_map_at selPath j' = Some (foldl (\<lambda>al (k, v). AList.update k v al) al kvs) \<and>
           (\<forall>q. diverge selPath q \<longrightarrow> jget q j' = jget q j)"
  using assms
proof (induction kvs arbitrary: j al)
  case (Cons kv kvs)
  obtain k v where kv: "kv = (k, v)" by (cases kv)
  from json_add_selector [OF Cons.prems, of k v] obtain j1 where
    j1: "json_add (selPath @ [k]) (JStr v) j = Some j1" "string_map_at selPath j1 = Some (AList.update k v al)"
    by blast
  have "jget q j1 = jget q j" if "diverge selPath q" for q
    using jget_json_add_other [OF j1(1) diverge_append [OF that]] .
  with Cons.IH [OF j1(2)] kv j1(1) show ?case by (auto simp: apply_op_addSelectorOp)
qed simp

lemma nodeSelectorPatches_result:
  assumes "jget [''spec''] raw = Some (JObj sp)" and "mwf defaults"
  shows "\<exists>j'. apply_patch (nodeSelectorPatches (string_map_at selPath raw) (string_map_at selPath raw \<noteq> None) defaults) raw
             = Some j' \<and>
           (\<forall>k. mget (string_map_at selPath j') k =
              (case mget (string_map_at selPath raw) k of None \<Rightarrow> mget defaults k | Some v \<Rightarrow> Some v)) \<and>
           (\<forall>q. diverge selPath q \<longrightarrow> jget q j' = jget q raw)"
proof (cases "string_map_at selPath raw")
  case None
  from json_add_string_map [OF assms(1), of "''nodeSelector''" "entries defaults"] obtain j' where
    j': "json_add selPath (json_of_map (entries defaults)) raw = Some j'"
      "string_map_at selPath j' = Some (entries defaults)" by (auto simp: selPath_def)
  have "pointer_tokens ''/spec/nodeSelector'' = Some selPath"
    by (simp add: pointer_tokens_def selPath_def)
  with None j' jget_json_add_other [OF j'(1)] show ?thesis
    by (auto simp: nodeSelectorPatches_def apply_op_def mget_def)
next
  case (Some al)
  let ?kvs = "filter (\<lambda>(k, v). map_of al k = None) (entries defaults)"
  have "distinct (map fst ?kvs)" using assms(2) by (simp add: mwf_def distinct_map_filter)
  then have m: "map_of (rev ?kvs) k = (if map_of al k = None then mget defaults k else None)" for k
    by (simp add: map_of_rev_distinct map_of_filter_key mget_def)
  show ?thesis using apply_patch_members [OF Some, of ?kvs]
    by (auto simp: nodeSelectorPatches_def Some map_of_foldl_update m split: option.splits)
qed

text \<open>
  C26: A pod that the webhook patches ends up with a node selector that has every label of the request
  unchanged and, for each label the request does not have, the default of the namespace annotation or
  else of the cluster; nothing outside the node selector changes, and the patch always applies.
\<close>

theorem pns_defaults_applied:
  assumes "nested_map_ok E" and "pns_Handle E v req = Patched msg ps"
    and "pns_getNamespace v (rq_Namespace req) = Inr ns" and "defaultLabels E v ns = Inr defaults" and "mwf defaults"
    and "pns_Decode v req = Inr raw" and "jget [''spec''] raw = Some (JObj sp)"
  shows "\<exists>pod. resp_object (pns_Handle E v req) raw = Some pod \<and>
    (\<forall>k. mget (string_map_at selPath pod) k =
       (case mget (string_map_at selPath raw) k of None \<Rightarrow> mget defaults k | Some x \<Rightarrow> Some x)) \<and>
    (\<forall>q. diverge selPath q \<longrightarrow> jget q pod = jget q raw)"
proof -
  have "pns_check E v req = Patched msg ps"
    using assms(2) by (auto simp: pns_Handle_def pns_admit_def after_skip_def
        split: if_splits prod.splits option.splits)
  then have "ps = nodeSelectorPatches (fst (NestedStringMap E raw selPath)) (fst (snd (NestedStringMap E raw selPath))) defaults"
    using assms(3,4,6) by (auto simp: pns_check_def selPath_def split: if_splits prod.splits option.splits)
  then have "ps = nodeSelectorPatches (string_map_at selPath raw) (string_map_at selPath raw \<noteq> None) defaults"
    using assms(1) by (simp only: nested_map_ok_def)
  with nodeSelectorPatches_result [OF assms(7,5)] assms(2) show ?thesis by simp
qed

text \<open>
  A pod whose request is decoded and whose namespace is read gets the cluster default exactly if the
  namespace has no default of its own, and a namespace default that cannot be parsed rejects the pod
  instead of admitting it without a node selector.
\<close>

theorem pns_default_choice:
  assumes "gvk_Group (rq_Kind req) = []" and "gvk_Kind (rq_Kind req) = ''Pod''" and "pns_Skipper v req = (False, None)"
    and "pns_getNamespace v (rq_Namespace req) = Inr ns" and "pns_Decode v req = Inr raw"
  shows "if DefaultNamespaceNodeSelectorAnnotation v = [] \<or>
            mstr (ns_Annotations ns) (DefaultNamespaceNodeSelectorAnnotation v) = []
         then defaultLabels E v ns = Inr (DefaultNodeSelector v)
         else case ConvertSelectorToLabelsMap E (mstr (ns_Annotations ns) (DefaultNamespaceNodeSelectorAnnotation v)) of
             (d, Some e) \<Rightarrow> \<not> resp_allowed (pns_Handle E v req)
           | (d, None) \<Rightarrow> defaultLabels E v ns = Inr d"
  using assms pns.unskipped_checks [OF assms(3), of E]
  by (auto simp: defaultLabels_def Let_def pns_Handle_def pns_check_def split: prod.splits option.splits)

section \<open>Witnesses\<close>

definition sample_pns :: PodNodeSelectorMutator where
  "sample_pns = \<lparr>pns_Decode = (\<lambda>r. Inr (JObj [(''spec'', JObj [(''nodeSelector'', JObj [(''class'', JStr ''x'')])])])),
     pns_getNamespace = (\<lambda>n. Inr \<lparr>ns_Name = n, ns_Labels = None, ns_Annotations = Some [(''sel'', ''a/b=c'')], ns_DeletionTimestamp = None\<rparr>),
     DefaultNodeSelector = Some [(''class'', ''plus'')], DefaultNamespaceNodeSelectorAnnotation = ''sel'',
     pns_Skipper = (\<lambda>r. (False, None))\<rparr>"

definition sample_ns :: Namespace where
  "sample_ns = \<lparr>ns_Name = ''p'', ns_Labels = None, ns_Annotations = Some [(''sel'', ''a/b=c'')], ns_DeletionTimestamp = None\<rparr>"

definition sample_raw :: json where
  "sample_raw = JObj [(''spec'', JObj [(''nodeSelector'', JObj [(''class'', JStr ''x'')])])]"

lemma sample_defaultLabels: "defaultLabels sample_ext sample_pns sample_ns = Inr (Some [(''a/b'', ''c'')])"
  by (simp add: defaultLabels_def sample_pns_def sample_ns_def sample_ext_simps mstr_def Cut_def HasPrefix_def)

theorem pns_default_choice_witness: "defaultLabels sample_ext sample_pns sample_ns = Inr (Some [(''a/b'', ''c'')])"
proof -
  let ?req = "sample_request ''Pod'' ''p'' ''alice''"
  have "gvk_Group (rq_Kind ?req) = []" "gvk_Kind (rq_Kind ?req) = ''Pod''" "pns_Skipper sample_pns ?req = (False, None)"
    "pns_getNamespace sample_pns (rq_Namespace ?req) = Inr sample_ns" "pns_Decode sample_pns ?req = Inr sample_raw"
    by (simp_all add: sample_request_def sample_pns_def sample_ns_def sample_raw_def)
  from pns_default_choice [OF this, of sample_ext] show ?thesis
    by (simp add: sample_pns_def sample_ns_def sample_ext_simps mstr_def Cut_def HasPrefix_def)
qed

theorem pns_defaults_applied_witness:
  "\<exists>pod. resp_object (pns_Handle sample_ext sample_pns (sample_request ''Pod'' ''p'' ''alice'')) sample_raw = Some pod \<and>
     mget (string_map_at selPath pod) ''class'' = Some ''x'' \<and> mget (string_map_at selPath pod) ''a/b'' = Some ''c''"
proof -
  let ?req = "sample_request ''Pod'' ''p'' ''alice''"
  have f: "pns_getNamespace sample_pns (rq_Namespace ?req) = Inr sample_ns" "pns_Decode sample_pns ?req = Inr sample_raw"
    by (simp_all add: sample_request_def sample_pns_def sample_ns_def sample_raw_def)
  have "pns_Handle sample_ext sample_pns ?req = pns_check sample_ext sample_pns ?req"
    by (simp add: pns_Handle_def pns_admit_def after_skip_def sample_request_def sample_pns_def)
  then obtain ps where p: "pns_Handle sample_ext sample_pns ?req = Patched ''added default node selector'' ps"
    using f sample_defaultLabels by (simp add: pns_check_def sample_ext_simps)
  have w: "mwf (Some [(''a/b'', ''c'')])" and s: "jget [''spec''] sample_raw = Some (JObj [(''nodeSelector'', JObj [(''class'', JStr ''x'')])])"
    by (simp_all add: sample_raw_def)
  from pns_defaults_applied [OF sample_ext_laws(2) p f(1) sample_defaultLabels w f(2) s] show ?thesis
    by (auto simp: sample_raw_def selPath_def string_map_at_def)
qed

end
