(* ===== verification/OrgMutator.thy ===== *)
theory OrgMutator
  imports PodNodeSelector
begin

text \<open>
  webhooks/namespace_project_organization_mutator.go: every namespace and project of an unprivileged
  requester belongs to an organization that the requester is a member of. The client is given by its
  reads of users, groups and namespaces.
\<close>

record NamespaceProjectOrganizationMutator =
  npo_Decode :: "Request \<Rightarrow> err + json"
  npo_getUser :: "string \<Rightarrow> err + User"
  npo_getGroup :: "string \<Rightarrow> err + Group"
  npo_getNamespace :: "string \<Rightarrow> err + Namespace"
  npo_Skipper :: Skipper
  npo_OrganizationLabel :: string
  npo_UserDefaultOrganizationAnnotation :: string

definition OpenShiftProjectRequesterAnnotation :: string where
  "OpenShiftProjectRequesterAnnotation = ''openshift.io/requester''"

definition orgLabelPatch ::
    "ext \<Rightarrow> NamespaceProjectOrganizationMutator \<Rightarrow> json \<Rightarrow> string \<Rightarrow> Operation" where
  "orgLabelPatch E m objToPatch org =
     (let (_, exists, _) = NestedStringMap E objToPatch [''metadata'', ''labels'']
      in if exists
         then \<lparr>op_Operation = ''add'',
               op_Path = ''/'' @ Join [''metadata'', ''labels'', escapeJSONPointerSegment (npo_OrganizationLabel m)] ''/'',
               op_Value = JStr org\<rparr>
         else \<lparr>op_Operation = ''add'', op_Path = ''/metadata/labels'',
               op_Value = json_of_map [(npo_OrganizationLabel m, org)]\<rparr>)"

definition handleUserRequested ::
    "ext \<Rightarrow> NamespaceProjectOrganizationMutator \<Rightarrow> string \<Rightarrow> json \<Rightarrow> Response" where
  "handleUserRequested E m userName rawObject = (case npo_getUser m userName of
      Inl err \<Rightarrow> Errored 500 (WrapErr (''failed to get user '' @ userName @ '': '') err [])
    | Inr user \<Rightarrow>
        (let label = mstr (GetLabels E rawObject) (npo_OrganizationLabel m);
             defaultOrgAdded = (label = []);
             org = (if label = [] then mstr (usr_Annotations user) (npo_UserDefaultOrganizationAnnotation m) else label)
         in if org = [] then Denied ''No organization label found and no default organization set''
            else
              (let group = (case npo_getGroup m org of
                     Inl err \<Rightarrow> (case IgnoreNotFound err of Some e \<Rightarrow> Inl err | None \<Rightarrow> Inr \<lparr>grp_Name = [], grp_Users = []\<rparr>)
                   | Inr g \<Rightarrow> Inr g)
               in case group of
                    Inl err \<Rightarrow> Errored 500 (WrapErr ''failed to get group: '' err [])
                  | Inr g \<Rightarrow>
                      if \<not> List.member (grp_Users g) userName then Denied ''Requester is not a member of the organization''
                      else if defaultOrgAdded
                      then Patched ''added default organization'' [orgLabelPatch E m rawObject org]
                      else Allowed ''Requester is member of organization'')))"

definition handleServiceAccountNamespace ::
    "ext \<Rightarrow> NamespaceProjectOrganizationMutator \<Rightarrow> Request \<Rightarrow> json \<Rightarrow> Response" where
  "handleServiceAccountNamespace E m req rawObject =
     (let userName = Username (rq_UserInfo req); p = Split (CHR '':'') userName
      in if length p \<noteq> 4
         then Errored 422 (NewErr (''invalid service account name: '' @ userName @ '', expected 4 segments''))
         else
           (let nsName = p ! 2
            in case npo_getNamespace m nsName of
                 Inl err \<Rightarrow> Errored 500 (WrapErr (''failed to get namespace '' @ nsName @ '' for service account '' @ userName @ '': '') err [])
               | Inr ns \<Rightarrow>
                   (let nsOrg = mstr (ns_Labels ns) (npo_OrganizationLabel m);
                        requestedOrg = mstr (GetLabels E rawObject) (npo_OrganizationLabel m)
                    in if nsOrg = [] then Denied ''No organization label found for the service accounts namespace''
                       else if requestedOrg \<noteq> [] \<and> requestedOrg \<noteq> nsOrg
                       then Denied ''Service accounts are not allowed to use organizations other than the one of their namespace.''
                       else if requestedOrg = []
                       then Patched ''added organization label'' [orgLabelPatch E m rawObject nsOrg]
                       else Allowed ''service account may use the organization of its namespace'')))"

definition handleProject :: "ext \<Rightarrow> NamespaceProjectOrganizationMutator \<Rightarrow> json \<Rightarrow> Response" where
  "handleProject E m rawObject =
     (let userName = mstr (GetAnnotations E rawObject) OpenShiftProjectRequesterAnnotation
      in if userName = [] then Allowed ''Skipped: no requester annotation found''
         else if HasPrefix userName ''system:serviceaccount:''
         then Denied ''Service accounts are not allowed to create projects''
         else handleUserRequested E m userName rawObject)"

definition handleNamespace ::
    "ext \<Rightarrow> NamespaceProjectOrganizationMutator \<Rightarrow> Request \<Rightarrow> json \<Rightarrow> Response" where
  "handleNamespace E m req rawObject =
     (if HasPrefix (Username (rq_UserInfo req)) ''system:serviceaccount:''
      then handleServiceAccountNamespace E m req rawObject
      else handleUserRequested E m (Username (rq_UserInfo req)) rawObject)"

definition npo_check :: "ext \<Rightarrow> NamespaceProjectOrganizationMutator \<Rightarrow> Request \<Rightarrow> Response" where
  "npo_check E m req = (case npo_Decode m req of
      Inl err \<Rightarrow> Errored 400 (WrapErr ''failed to decode object from request: '' err [])
    | Inr rawObject \<Rightarrow>
        if gvk_Kind (rq_Kind req) = ''Project'' then handleProject E m rawObject
        else handleNamespace E m req rawObject)"

text \<open>A skipper that would skip a Project is only noted in the log.\<close>

definition npo_handle :: "ext \<Rightarrow> NamespaceProjectOrganizationMutator \<Rightarrow> Request \<Rightarrow> Response" where
  "npo_handle E m req = (case npo_Skipper m req of
      (skip, Some err) \<Rightarrow> Errored 500 (WrapErr ''error while checking skipper: '' err [])
    | (skip, None) \<Rightarrow>
        if skip \<and> gvk_Kind (rq_Kind req) = ''Project'' then npo_check E m req
        else if skip then Allowed ''skipped''
        else npo_check E m req)"

definition npo_Handle :: "ext \<Rightarrow> NamespaceProjectOrganizationMutator \<Rightarrow> Request \<Rightarrow> Response" where
  "npo_Handle E m req = snd (logAdmissionResponse E (npo_handle E m req))"

text \<open>The skipper in effect does not skip Projects; seen this way the webhook has the common prologue.\<close>

definition unless_project :: "Skipper \<Rightarrow> Skipper" where
  "unless_project Skip req = (case Skip req of
      (skip, e) \<Rightarrow> (skip \<and> gvk_Kind (rq_Kind req) \<noteq> ''Project'', e))"

interpretation npo: guarded_webhook "unless_project (npo_Skipper m)" "npo_Handle E m"
    "\<lambda>err. WrapErr ''error while checking skipper: '' err []" "npo_check E m" for E m
  by unfold_locales
    (simp add: npo_Handle_def npo_handle_def after_skip_def unless_project_def split: prod.splits option.splits)

section \<open>The label that results\<close>

definition labelsPath :: "string list" where
  "labelsPath = [''metadata'', ''labels'']"

lemma apply_orgLabelPatch:
  assumes "nested_map_ok E" and "jget [''metadata''] raw = Some (JObj md)"
  shows "\<exists>obj. apply_patch [orgLabelPatch E m raw org] raw = Some obj \<and>
    (\<forall>k. mget (string_map_at labelsPath obj) k =
       (if k = npo_OrganizationLabel m then Some org else mget (string_map_at labelsPath raw) k))"
proof -
  have n: "fst (snd (NestedStringMap E raw labelsPath)) = (string_map_at labelsPath raw \<noteq> None)"
    using assms(1) by (simp add: nested_map_ok_def)
  show ?thesis
  proof (cases "string_map_at labelsPath raw")
    case None
    with n have p: "orgLabelPatch E m raw org = \<lparr>op_Operation = ''add'', op_Path = ''/metadata/labels'',
        op_Value = json_of_map [(npo_OrganizationLabel m, org)]\<rparr>"
      by (auto simp: orgLabelPatch_def labelsPath_def split: prod.splits)
    from json_add_string_map [OF assms(2), of "''labels''" "[(npo_OrganizationLabel m, org)]"] obtain obj where
      o: "json_add labelsPath (json_of_map [(npo_OrganizationLabel m, org)]) raw = Some obj"
        "string_map_at labelsPath obj = Some [(npo_OrganizationLabel m, org)]" by (auto simp: labelsPath_def)
    have "pointer_tokens ''/metadata/labels'' = Some labelsPath" by (simp add: pointer_tokens_def labelsPath_def)
    with p o None show ?thesis by (auto simp: apply_op_def)
  next
    case (Some al)
    with n have p: "orgLabelPatch E m raw org = \<lparr>op_Operation = ''add'',
        op_Path = ''/metadata/labels/'' @ escapeJSONPointerSegment (npo_OrganizationLabel m), op_Value = JStr org\<rparr>"
      by (auto simp: orgLabelPatch_def labelsPath_def split: prod.splits)
    from json_add_member [of "''metadata''" "''labels''" raw al "npo_OrganizationLabel m" org] Some obtain obj where
      o: "json_add (labelsPath @ [npo_OrganizationLabel m]) (JStr org) raw = Some obj"
        "string_map_at labelsPath obj = Some (AList.update (npo_OrganizationLabel m) org al)"
      by (auto simp: labelsPath_def)
    have "pointer_tokens (''/metadata/labels/'' @ escapeJSONPointerSegment (npo_OrganizationLabel m))
        = Some (labelsPath @ [npo_OrganizationLabel m])"
      using pointer_tokens_member [of "''metadata''" "''labels''" "npo_OrganizationLabel m"] by (simp add: labelsPath_def)
    with p o Some show ?thesis by (auto simp: apply_op_def)
  qed
qed

text \<open>An object that is admitted with the organization \<open>org\<close> and otherwise keeps its labels.\<close>

definition admitted_with ::
    "ext \<Rightarrow> NamespaceProjectOrganizationMutator \<Rightarrow> json \<Rightarrow> Response \<Rightarrow> string \<Rightarrow> bool" where
  "admitted_with E m raw resp org \<longleftrightarrow>
     (\<exists>obj. resp_object resp raw = Some obj \<and>
        (\<forall>k. mget (string_map_at labelsPath obj) k =
           (if k = npo_OrganizationLabel m then Some org else mget (string_map_at labelsPath raw) k)))"

lemma admitted_with_patch:
  "nested_map_ok E \<Longrightarrow> jget [''metadata''] raw = Some (JObj md) \<Longrightarrow>
     admitted_with E m raw (Patched msg [orgLabelPatch E m raw org]) org"
  using apply_orgLabelPatch unfolding admitted_with_def resp_object.simps by blast

lemma admitted_with_label:
  "getters_ok E \<Longrightarrow> mstr (GetLabels E raw) (npo_OrganizationLabel m) \<noteq> [] \<Longrightarrow>
     admitted_with E m raw (Allowed msg) (mstr (GetLabels E raw) (npo_OrganizationLabel m))"
  using mstr_nonempty by (auto simp: admitted_with_def getters_ok_def labelsPath_def)

lemma handleUserRequested_allowed:
  assumes "nested_map_ok E" and "getters_ok E" and "jget [''metadata''] raw = Some (JObj md)"
    and "resp_allowed (handleUserRequested E m u raw)"
  shows "\<exists>org g. org \<noteq> [] \<and> npo_getGroup m org = Inr g \<and> u \<in> set (grp_Users g) \<and>
           admitted_with E m raw (handleUserRequested E m u raw) org"
  using assms(4) admitted_with_patch [OF assms(1,3)] admitted_with_label [OF assms(2), of raw m]
  by (auto simp: handleUserRequested_def Let_def IgnoreNotFound_def
      split: sum.splits if_splits option.splits)

text \<open>The organization that a user asks for: that of the label, else the default of the user. It decides alone.\<close>

definition requestedOrganization :: "ext \<Rightarrow> NamespaceProjectOrganizationMutator \<Rightarrow> json \<Rightarrow> User \<Rightarrow> string" where
  "requestedOrganization E m raw user =
     (if mstr (GetLabels E raw) (npo_OrganizationLabel m) \<noteq> [] then mstr (GetLabels E raw) (npo_OrganizationLabel m)
      else mstr (usr_Annotations user) (npo_UserDefaultOrganizationAnnotation m))"

lemma handleUserRequested_iff:
  assumes "npo_getUser m u = Inr user"
  shows "resp_allowed (handleUserRequested E m u raw) \<longleftrightarrow> requestedOrganization E m raw user \<noteq> [] \<and>
    (\<exists>g. npo_getGroup m (requestedOrganization E m raw user) = Inr g \<and> u \<in> set (grp_Users g))"
  using assms by (auto simp: handleUserRequested_def requestedOrganization_def Let_def IgnoreNotFound_def
      split: sum.splits if_splits option.splits)

lemma handleServiceAccountNamespace_allowed:
  assumes "nested_map_ok E" and "getters_ok E" and "jget [''metadata''] raw = Some (JObj md)"
    and "Username (rq_UserInfo req) = ''system:serviceaccount:'' @ sa_ns @ '':'' @ sa_name"
    and "CHR '':'' \<notin> set sa_ns" and "CHR '':'' \<notin> set sa_name"
    and "resp_allowed (handleServiceAccountNamespace E m req raw)"
  shows "\<exists>ns. npo_getNamespace m sa_ns = Inr ns \<and> mstr (ns_Labels ns) (npo_OrganizationLabel m) \<noteq> [] \<and>
    admitted_with E m raw (handleServiceAccountNamespace E m req raw) (mstr (ns_Labels ns) (npo_OrganizationLabel m))"
proof -
  have "Split (CHR '':'') (Username (rq_UserInfo req)) = [''system'', ''serviceaccount'', sa_ns, sa_name]"
    using assms(4-6) by (simp add: Split_append Split_absent)
  then show ?thesis
    using assms(7) admitted_with_patch [OF assms(1,3)] admitted_with_label [OF assms(2), of raw m]
    by (auto simp: handleServiceAccountNamespace_def Let_def split: sum.splits if_splits)
qed

section \<open>Properties\<close>

text \<open>On whose behalf the object is made: for a Project its requester annotation, else the user of the request.\<close>

definition npo_requester :: "ext \<Rightarrow> Request \<Rightarrow> json \<Rightarrow> string" where
  "npo_requester E req raw =
     (if gvk_Kind (rq_Kind req) = ''Project'' then mstr (GetAnnotations E raw) OpenShiftProjectRequesterAnnotation
      else Username (rq_UserInfo req))"

lemma npo_Handle_check:
  "resp_allowed (npo_Handle E m req) \<Longrightarrow> \<not> fst (unless_project (npo_Skipper m) req) \<Longrightarrow>
     npo_Handle E m req = npo_check E m req"
  by (erule npo.allowed_cases) (auto intro: npo.unskipped_checks)

text \<open>
  C2: If a Namespace or Project of a requester who is a user and is not skipped is allowed, then the
  object goes on with a non-empty organization label, all its other labels unchanged, and the
  requester is a member of the group of that organization. This holds whether the label was in the
  request or was added by the webhook.
\<close>

theorem npo_requester_is_member:
  assumes "nested_map_ok E" and "getters_ok E" and "npo_Decode m req = Inr raw"
    and "jget [''metadata''] raw = Some (JObj md)"
    and "resp_allowed (npo_Handle E m req)" and "\<not> fst (unless_project (npo_Skipper m) req)"
    and "npo_requester E req raw \<noteq> []" and "\<not> HasPrefix (npo_requester E req raw) ''system:serviceaccount:''"
  shows "\<exists>org g. org \<noteq> [] \<and> npo_getGroup m org = Inr g \<and> npo_requester E req raw \<in> set (grp_Users g) \<and>
    admitted_with E m raw (npo_Handle E m req) org"
proof -
  have "npo_Handle E m req = handleUserRequested E m (npo_requester E req raw) raw"
    using npo_Handle_check [OF assms(5,6)] assms(3,7,8)
    by (auto simp: npo_check_def npo_requester_def handleProject_def handleNamespace_def Let_def)
  then show ?thesis using handleUserRequested_allowed [OF assms(1,2,4)] assms(5) by simp
qed

text \<open>
  C27: If a namespace of a service account that is not skipped is allowed, it goes on with the
  organization label of the service account's own namespace, which is not empty; no service account
  can create a namespace for another organization.
\<close>

theorem npo_service_account_own_org:
  assumes "nested_map_ok E" and "getters_ok E" and "npo_Decode m req = Inr raw"
    and "jget [''metadata''] raw = Some (JObj md)"
    and "resp_allowed (npo_Handle E m req)" and "\<not> fst (npo_Skipper m req)" and "gvk_Kind (rq_Kind req) \<noteq> ''Project''"
    and "Username (rq_UserInfo req) = ''system:serviceaccount:'' @ sa_ns @ '':'' @ sa_name"
    and "CHR '':'' \<notin> set sa_ns" and "CHR '':'' \<notin> set sa_name"
  shows "\<exists>ns. npo_getNamespace m sa_ns = Inr ns \<and> mstr (ns_Labels ns) (npo_OrganizationLabel m) \<noteq> [] \<and>
    admitted_with E m raw (npo_Handle E m req) (mstr (ns_Labels ns) (npo_OrganizationLabel m))"
proof -
  have "\<not> fst (unless_project (npo_Skipper m) req)"
    using assms(6) by (auto simp: unless_project_def split: prod.splits)
  moreover have "HasPrefix (Username (rq_UserInfo req)) ''system:serviceaccount:''"
    unfolding assms(8) by (rule HasPrefix_append)
  ultimately have "npo_Handle E m req = handleServiceAccountNamespace E m req raw"
    using npo_Handle_check [OF assms(5)] assms(3,7)
    by (simp add: npo_check_def handleNamespace_def)
  then show ?thesis
    using handleServiceAccountNamespace_allowed [OF assms(1,2,4,8,9,10)] assms(5) by simp
qed

lemma npo_Skipper_update:
  "npo_Decode (m\<lparr>npo_Skipper := s\<rparr>) = npo_Decode m" "npo_getUser (m\<lparr>npo_Skipper := s\<rparr>) = npo_getUser m"
  "npo_getGroup (m\<lparr>npo_Skipper := s\<rparr>) = npo_getGroup m" "npo_getNamespace (m\<lparr>npo_Skipper := s\<rparr>) = npo_getNamespace m"
  "npo_OrganizationLabel (m\<lparr>npo_Skipper := s\<rparr>) = npo_OrganizationLabel m"
  "npo_UserDefaultOrganizationAnnotation (m\<lparr>npo_Skipper := s\<rparr>) = npo_UserDefaultOrganizationAnnotation m"
  by simp_all

text \<open>
  Projects are checked even when the skipper skips: unless the skipper fails, the response to a
  Project does not depend on it. In particular the feature switch of the webhook, which is a skipper,
  does not switch it off for Projects.
\<close>

theorem npo_project_ignores_skipper:
  assumes "gvk_Kind (rq_Kind req) = ''Project''" and "npo_Skipper m req = (skip, None)"
  shows "npo_Handle E m req = npo_Handle E (m\<lparr>npo_Skipper := \<lambda>_. (False, None)\<rparr>) req \<and>
    (\<forall>raw. npo_Decode m req = Inr raw \<longrightarrow> npo_Handle E m req = handleProject E m raw)"
proof -
  have "npo_check E (m\<lparr>npo_Skipper := s\<rparr>) req = npo_check E m req" for s
    unfolding npo_check_def handleProject_def handleNamespace_def handleUserRequested_def
      handleServiceAccountNamespace_def orgLabelPatch_def npo_Skipper_update ..
  moreover have "unless_project (npo_Skipper m) req = (False, None)"
    "unless_project (npo_Skipper (m\<lparr>npo_Skipper := \<lambda>_. (False, None)\<rparr>)) req = (False, None)"
    using assms by (simp_all add: unless_project_def)
  ultimately show ?thesis
    using npo.unskipped_checks [of m req E] npo.unskipped_checks [of "m\<lparr>npo_Skipper := \<lambda>_. (False, None)\<rparr>" req E] assms(1)
    by (simp add: npo_check_def)
qed

section \<open>Witnesses\<close>

definition sample_npo :: NamespaceProjectOrganizationMutator where
  "sample_npo = \<lparr>npo_Decode = (\<lambda>r. Inr (JObj [(''metadata'', JObj [])])),
     npo_getUser = (\<lambda>n. Inr \<lparr>usr_Name = n, usr_Annotations = Some [(''default-org'', ''acme'')]\<rparr>),
     npo_getGroup = (\<lambda>n. Inr \<lparr>grp_Name = n, grp_Users = [''alice'']\<rparr>),
     npo_getNamespace = (\<lambda>n. Inr \<lparr>ns_Name = n, ns_Labels = Some [(''org'', ''acme'')], ns_Annotations = None, ns_DeletionTimestamp = None\<rparr>),
     npo_Skipper = (\<lambda>r. (False, None)), npo_OrganizationLabel = ''org'',
     npo_UserDefaultOrganizationAnnotation = ''default-org''\<rparr>"

lemma sample_npo_fields:
  "npo_Decode sample_npo r = Inr (JObj [(''metadata'', JObj [])])"
  "jget [''metadata''] (JObj [(''metadata'', JObj [])]) = Some (JObj [])"
  "\<not> fst (npo_Skipper sample_npo r)" "\<not> fst (unless_project (npo_Skipper sample_npo) r)"
  by (simp_all add: sample_npo_def unless_project_def)

theorem npo_requester_is_member_witness:
  "\<exists>org g. npo_getGroup sample_npo org = Inr g \<and> ''alice'' \<in> set (grp_Users g) \<and>
     admitted_with sample_ext sample_npo (JObj [(''metadata'', JObj [])])
       (npo_Handle sample_ext sample_npo (sample_request ''Namespace'' ''n'' ''alice'')) org"
proof -
  let ?req = "sample_request ''Namespace'' ''n'' ''alice''" and ?raw = "JObj [(''metadata'', JObj [])]"
  have r: "npo_requester sample_ext ?req ?raw = ''alice''" by (simp add: npo_requester_def sample_request_def)
  then have q: "npo_requester sample_ext ?req ?raw \<noteq> []"
    "\<not> HasPrefix (npo_requester sample_ext ?req ?raw) ''system:serviceaccount:''" by (simp_all add: HasPrefix_def)
  have a: "resp_allowed (npo_Handle sample_ext sample_npo ?req)"
    by (simp add: npo_Handle_def npo_handle_def npo_check_def handleNamespace_def handleUserRequested_def
        sample_npo_def sample_request_def HasPrefix_def sample_ext_simps string_map_at_def mstr_def Let_def)
  from npo_requester_is_member [OF sample_ext_laws(2,3) sample_npo_fields(1,2) a sample_npo_fields(4) q]
  show ?thesis unfolding r by blast
qed

theorem npo_service_account_own_org_witness:
  "admitted_with sample_ext sample_npo (JObj [(''metadata'', JObj [])])
     (npo_Handle sample_ext sample_npo (sample_request ''Namespace'' ''n'' ''system:serviceaccount:a:b'')) ''acme''"
proof -
  let ?req = "sample_request ''Namespace'' ''n'' ''system:serviceaccount:a:b''" and ?raw = "JObj [(''metadata'', JObj [])]"
  have a: "resp_allowed (npo_Handle sample_ext sample_npo ?req)"
    by (simp add: npo_Handle_def npo_handle_def npo_check_def handleNamespace_def handleServiceAccountNamespace_def
        sample_npo_def sample_request_def HasPrefix_def sample_ext_simps string_map_at_def mstr_def Let_def)
  have k: "gvk_Kind (rq_Kind ?req) \<noteq> ''Project''"
    "Username (rq_UserInfo ?req) = ''system:serviceaccount:'' @ ''a'' @ '':'' @ ''b''"
    "CHR '':'' \<notin> set ''a''" "CHR '':'' \<notin> set ''b''" by (simp_all add: sample_request_def)
  from npo_service_account_own_org [OF sample_ext_laws(2,3) sample_npo_fields(1,2) a sample_npo_fields(3) k]
  show ?thesis by (simp add: sample_npo_def mstr_def)
qed

theorem npo_project_ignores_skipper_witness:
  "npo_Handle sample_ext (sample_npo\<lparr>npo_Skipper := \<lambda>_. (True, None)\<rparr>) (sample_request ''Project'' ''n'' ''alice'') =
     Allowed ''Skipped: no requester annotation found''"
proof -
  let ?m = "sample_npo\<lparr>npo_Skipper := \<lambda>_. (True, None)\<rparr>" and ?req = "sample_request ''Project'' ''n'' ''alice''"
  have "gvk_Kind (rq_Kind ?req) = ''Project''" "npo_Skipper ?m ?req = (True, None)" by (simp_all add: sample_request_def)
  note h = npo_project_ignores_skipper [OF this, of sample_ext, THEN conjunct2, rule_format]
  have "npo_Decode ?m ?req = Inr (JObj [(''metadata'', JObj [])])" by (simp add: sample_npo_def)
  then have "npo_Handle sample_ext ?m ?req = handleProject sample_ext ?m (JObj [(''metadata'', JObj [])])"
    by (rule h)
  also have "mstr (GetAnnotations sample_ext (JObj [(''metadata'', JObj [])])) OpenShiftProjectRequesterAnnotation = []"
    by (simp add: sample_ext_simps string_map_at_def)
  then have "handleProject sample_ext ?m (JObj [(''metadata'', JObj [])]) = Allowed ''Skipped: no requester annotation found''"
    by (simp only: handleProject_def Let_def if_True simp_thms)
  finally show ?thesis .
qed

end
