(* ===== verification/ObjectGuards.thy ===== *)
theory ObjectGuards
  imports NamespaceMetadata
begin

text \<open>
  Three small webhooks: webhooks/reserved_resourcequota_limitrange_validator.go (the quotas and limit
  ranges managed by the agent are reserved), webhooks/service_cloudscale_lb_validator.go (the load
  balancer UUID of a service is fixed) and webhooks/pod_runonce_active_deadline_seconds_mutator.go
  (run-once pods get a deadline).
\<close>

section \<open>Reserved resource quotas and limit ranges\<close>

record ReservedResourceQuotaLimitRangeValidator =
  rrl_Skipper :: Skipper
  ReservedResourceQuotaNames :: "string list"
  ReservedLimitRangeNames :: "string list"

definition rrl_check :: "ReservedResourceQuotaLimitRangeValidator \<Rightarrow> Request \<Rightarrow> Response" where
  "rrl_check v req =
     (if gvk_Kind (rq_Kind req) = ''ResourceQuota'' \<and> List.member (ReservedResourceQuotaNames v) (rq_Name req)
      then Denied ''reserved ResourceQuota object''
      else if gvk_Kind (rq_Kind req) = ''LimitRange'' \<and> List.member (ReservedLimitRangeNames v) (rq_Name req)
      then Denied ''reserved LimitRange object''
      else Allowed ''allowed'')"

definition rrl_handle :: "ReservedResourceQuotaLimitRangeValidator \<Rightarrow> Request \<Rightarrow> Response" where
  "rrl_handle v req = after_skip (rrl_Skipper v) (\<lambda>err. err) (rrl_check v) req"

definition rrl_Handle :: "ext \<Rightarrow> ReservedResourceQuotaLimitRangeValidator \<Rightarrow> Request \<Rightarrow> Response" where
  "rrl_Handle E v req = snd (logAdmissionResponse E (rrl_handle v req))"

interpretation rrl: guarded_webhook "rrl_Skipper v" "rrl_Handle E v" "\<lambda>err. err" "rrl_check v" for E v
  by unfold_locales (simp add: rrl_Handle_def rrl_handle_def)

text \<open>
  A request is allowed exactly if the skipper skips it, or does not fail and the request is neither
  for a resource quota with a reserved quota name nor for a limit range with a reserved limit range
  name; this covers creation, update and deletion alike.
\<close>

theorem rrl_allowed_iff:
  "resp_allowed (rrl_Handle E v req) \<longleftrightarrow>
     snd (rrl_Skipper v req) = None \<and>
     (fst (rrl_Skipper v req) \<or>
      \<not> (gvk_Kind (rq_Kind req) = ''ResourceQuota'' \<and> rq_Name req \<in> set (ReservedResourceQuotaNames v)) \<and>
      \<not> (gvk_Kind (rq_Kind req) = ''LimitRange'' \<and> rq_Name req \<in> set (ReservedLimitRangeNames v)))"
  by (auto simp: rrl_Handle_def rrl_handle_def rrl_check_def after_skip_def
      split: prod.splits option.splits if_splits)

section \<open>The load balancer UUID of services\<close>

record Service =
  svc_Annotations :: "string gomap"

record ServiceCloudscaleLBValidator =
  slb_Decode :: "Request \<Rightarrow> err + Service"
  slb_DecodeRaw :: "string \<Rightarrow> err + Service"
  slb_Skipper :: Skipper

definition CloudscaleLoadbalancerUUIDAnnotation :: string where
  "CloudscaleLoadbalancerUUIDAnnotation = ''k8s.cloudscale.ch/loadbalancer-uuid''"

definition slb_oldService :: "ServiceCloudscaleLBValidator \<Rightarrow> Request \<Rightarrow> err + Service" where
  "slb_oldService v req =
     (if rq_OldObject req \<noteq> [] then slb_DecodeRaw v (rq_OldObject req) else Inr \<lparr>svc_Annotations = None\<rparr>)"

definition slb_check :: "ServiceCloudscaleLBValidator \<Rightarrow> Request \<Rightarrow> Response" where
  "slb_check v req = (case slb_Decode v req of
      Inl err \<Rightarrow> Errored 400 err
    | Inr newService \<Rightarrow>
      (case slb_oldService v req of
        Inl err \<Rightarrow> Errored 400 err
      | Inr oldService \<Rightarrow>
          (let oldAnnotiation = mstr (svc_Annotations oldService) CloudscaleLoadbalancerUUIDAnnotation;
               newAnnotiation = mstr (svc_Annotations newService) CloudscaleLoadbalancerUUIDAnnotation
           in if oldAnnotiation \<noteq> newAnnotiation
              then Denied (CloudscaleLoadbalancerUUIDAnnotation @ '' annotation cannot be changed'')
              else Allowed ''allowed'')))"

definition slb_handle :: "ServiceCloudscaleLBValidator \<Rightarrow> Request \<Rightarrow> Response" where
  "slb_handle v req = after_skip (slb_Skipper v) (\<lambda>err. err) (slb_check v) req"

definition slb_Handle :: "ext \<Rightarrow> ServiceCloudscaleLBValidator \<Rightarrow> Request \<Rightarrow> Response" where
  "slb_Handle E v req = snd (logAdmissionResponse E (slb_handle v req))"

interpretation slb: guarded_webhook "slb_Skipper v" "slb_Handle E v" "\<lambda>err. err" "slb_check v" for E v
  by unfold_locales (simp add: slb_Handle_def slb_handle_def)

lemma slb_check_allowed:
  "resp_allowed (slb_check v req) \<longleftrightarrow>
     (\<exists>old new. slb_oldService v req = Inr old \<and> slb_Decode v req = Inr new \<and>
        mstr (svc_Annotations old) CloudscaleLoadbalancerUUIDAnnotation =
        mstr (svc_Annotations new) CloudscaleLoadbalancerUUIDAnnotation)"
  by (auto simp: slb_check_def Let_def split: sum.splits)

text \<open>
  A service of a user who is not skipped is admitted exactly if its load balancer UUID is the one
  it had before; a new service is admitted exactly if it comes without one.
\<close>

theorem slb_uuid_fixed:
  assumes "slb_Skipper v req = (False, None)"
  shows "(resp_allowed (slb_Handle E v req) \<longleftrightarrow>
     (\<exists>old new. slb_oldService v req = Inr old \<and> slb_Decode v req = Inr new \<and>
        mstr (svc_Annotations old) CloudscaleLoadbalancerUUIDAnnotation =
        mstr (svc_Annotations new) CloudscaleLoadbalancerUUIDAnnotation)) \<and>
    (rq_OldObject req = [] \<longrightarrow> (resp_allowed (slb_Handle E v req) \<longleftrightarrow>
     (\<exists>new. slb_Decode v req = Inr new \<and> mstr (svc_Annotations new) CloudscaleLoadbalancerUUIDAnnotation = [])))"
  by (auto simp: slb.unskipped_checks [OF assms] slb_check_allowed slb_oldService_def)

section \<open>Deadlines of run-once pods\<close>

record 'q PodRunOnceActiveDeadlineSecondsMutator =
  rda_Decode :: "Request \<Rightarrow> err + 'q Pod"
  rda_getNamespace :: "string \<Rightarrow> err + Namespace"
  OverrideAnnotation :: string
  DefaultActiveDeadlineSeconds :: int
  rda_Skipper :: Skipper

definition activeDeadlinePatch :: "int \<Rightarrow> Operation" where
  "activeDeadlinePatch ads =
     \<lparr>op_Operation = ''add'', op_Path = ''/spec/activeDeadlineSeconds'', op_Value = JInt ads\<rparr>"

definition rda_check :: "ext \<Rightarrow> 'q PodRunOnceActiveDeadlineSecondsMutator \<Rightarrow> Request \<Rightarrow> Response" where
  "rda_check E m req = (case rda_Decode m req of
      Inl err \<Rightarrow> Errored 422 err
    | Inr pod \<Rightarrow>
        if RestartPolicy (pod_Spec pod) \<noteq> ''OnFailure'' \<and> RestartPolicy (pod_Spec pod) \<noteq> ''Never''
        then Allowed (''pod restart policy is '' @ Quote (isPrint E) (RestartPolicy (pod_Spec pod)) @
               '', no activeDeadlineSeconds needed'')
        else if ActiveDeadlineSeconds (pod_Spec pod) \<noteq> None
        then Allowed ''pod already has an activeDeadlineSeconds value''
        else case rda_getNamespace m (rq_Namespace req) of
            Inl err \<Rightarrow> Errored 500 (WrapErr ''failed to fetch namespace for override annotation: '' err [])
          | Inr ns \<Rightarrow>
              (let oa = mstr (ns_Annotations ns) (OverrideAnnotation m)
               in if oa = []
                  then Patched (''added default activeDeadlineSeconds '' @ Itoa (DefaultActiveDeadlineSeconds m))
                         [activeDeadlinePatch (DefaultActiveDeadlineSeconds m)]
                  else case Atoi oa of
                      Inl e \<Rightarrow> Errored 500 (WrapErr (''failed to parse override annotation '' @ Quote (isPrint E) oa @
                                 '' for namespace '' @ Quote (isPrint E) (rq_Namespace req) @ '': '') (AtoiErr E oa e) [])
                    | Inr parsed \<Rightarrow>
                        Patched (''added activeDeadlineSeconds '' @ Itoa parsed @ '' from override annotation '' @
                            Quote (isPrint E) (OverrideAnnotation m))
                          [activeDeadlinePatch parsed]))"

definition rda_handle :: "ext \<Rightarrow> 'q PodRunOnceActiveDeadlineSecondsMutator \<Rightarrow> Request \<Rightarrow> Response" where
  "rda_handle E m req =
     after_skip (rda_Skipper m) (\<lambda>err. WrapErr ''error while checking skipper: '' err []) (rda_check E m) req"

definition rda_Handle :: "ext \<Rightarrow> 'q PodRunOnceActiveDeadlineSecondsMutator \<Rightarrow> Request \<Rightarrow> Response" where
  "rda_Handle E m req = snd (logAdmissionResponse E (rda_handle E m req))"

interpretation rda: guarded_webhook "rda_Skipper m" "rda_Handle E m"
    "\<lambda>err. WrapErr ''error while checking skipper: '' err []" "rda_check E m" for E m
  by unfold_locales (simp add: rda_Handle_def rda_handle_def)

definition run_once :: "'q Pod \<Rightarrow> bool" where
  "run_once pod \<longleftrightarrow> RestartPolicy (pod_Spec pod) \<in> {''OnFailure'', ''Never''}"

text \<open>The deadline for a namespace: its override annotation if there is one, else the default.\<close>

definition namespaceDeadline :: "'q PodRunOnceActiveDeadlineSecondsMutator \<Rightarrow> Namespace \<Rightarrow> num_err + int" where
  "namespaceDeadline m ns =
     (if mstr (ns_Annotations ns) (OverrideAnnotation m) = [] then Inr (DefaultActiveDeadlineSeconds m)
      else Atoi (mstr (ns_Annotations ns) (OverrideAnnotation m)))"

lemma rda_check_patched:
  assumes "rda_Decode m req = Inr pod" and "run_once pod" and "ActiveDeadlineSeconds (pod_Spec pod) = None"
    and "resp_allowed (rda_check E m req)"
  shows "\<exists>ns n msg. rda_getNamespace m (rq_Namespace req) = Inr ns \<and> namespaceDeadline m ns = Inr n \<and>
    rda_check E m req = Patched msg [activeDeadlinePatch n]"
  using assms
  by (auto simp: rda_check_def run_once_def namespaceDeadline_def Let_def split: sum.splits if_splits)

lemma apply_activeDeadlinePatch:
  assumes "jget [''spec''] raw = Some (JObj sp)"
  shows "\<exists>obj. apply_patch [activeDeadlinePatch n] raw = Some obj \<and>
    jget [''spec'', ''activeDeadlineSeconds''] obj = Some (JInt n)"
proof -
  from assms obtain mj where "raw = JObj mj" "map_of mj ''spec'' = Some (JObj sp)"
    by (cases raw) (auto split: option.splits)
  then show ?thesis by (auto simp: apply_op_def activeDeadlinePatch_def pointer_tokens_def)
qed

text \<open>
  Every run-once pod without a deadline that the webhook admits gets one: the integer in the
  override annotation of its namespace if that annotation is set, and the configured default
  otherwise. The patch always applies to a pod document, which has a spec.
\<close>

theorem rda_deadline_set:
  assumes "rda_Skipper m req = (False, None)" and "rda_Decode m req = Inr pod" and "run_once pod"
    and "ActiveDeadlineSeconds (pod_Spec pod) = None" and "resp_allowed (rda_Handle E m req)"
    and "jget [''spec''] raw = Some (JObj sp)"
  shows "\<exists>ns n obj. rda_getNamespace m (rq_Namespace req) = Inr ns \<and> namespaceDeadline m ns = Inr n \<and>
    resp_object (rda_Handle E m req) raw = Some obj \<and>
    jget [''spec'', ''activeDeadlineSeconds''] obj = Some (JInt n)"
proof -
  have h: "rda_Handle E m req = rda_check E m req" by (rule rda.unskipped_checks [OF assms(1)])
  with assms(5) obtain ns n msg where "rda_getNamespace m (rq_Namespace req) = Inr ns" "namespaceDeadline m ns = Inr n"
    "rda_check E m req = Patched msg [activeDeadlinePatch n]"
    using rda_check_patched [OF assms(2-4), of E] by auto
  with h apply_activeDeadlinePatch [OF assms(6), of n] show ?thesis by auto
qed

text \<open>
  A pod that is not run-once, or that brings its own deadline, is admitted as it is, whether or not
  its namespace can be read.
\<close>

theorem rda_other_pods_unchanged:
  assumes "rda_Skipper m req = (False, None)" and "rda_Decode m req = Inr pod"
    and "\<not> run_once pod \<or> ActiveDeadlineSeconds (pod_Spec pod) \<noteq> None"
  shows "resp_allowed (rda_Handle E m req) \<and> resp_object (rda_Handle E m req) raw = Some raw"
  using assms(2,3) by (auto simp: rda.unskipped_checks [OF assms(1)] rda_check_def run_once_def)

section \<open>Witnesses\<close>

definition sample_slb :: ServiceCloudscaleLBValidator where
  "sample_slb = \<lparr>slb_Decode = (\<lambda>r. Inr \<lparr>svc_Annotations = Some [(''k8s.cloudscale.ch/loadbalancer-uuid'', ''x'')]\<rparr>),
     slb_DecodeRaw = (\<lambda>s. Inr \<lparr>svc_Annotations = None\<rparr>), slb_Skipper = (\<lambda>r. (False, None))\<rparr>"

theorem slb_uuid_fixed_witness: "\<not> resp_allowed (slb_Handle sample_ext sample_slb (sample_request ''Service'' ''s'' ''alice''))"
proof -
  let ?req = "sample_request ''Service'' ''s'' ''alice''"
  have s: "slb_Skipper sample_slb ?req = (False, None)" and o: "rq_OldObject ?req = []"
    by (simp_all add: sample_slb_def sample_request_def)
  let ?svc = "\<lparr>svc_Annotations = Some [(''k8s.cloudscale.ch/loadbalancer-uuid'', ''x'')]\<rparr>"
  have "slb_Decode sample_slb ?req = Inr ?svc" by (simp add: sample_slb_def)
  moreover have "mstr (svc_Annotations ?svc) CloudscaleLoadbalancerUUIDAnnotation \<noteq> []"
    by (simp add: mstr_def CloudscaleLoadbalancerUUIDAnnotation_def)
  ultimately show ?thesis using slb_uuid_fixed [OF s, of sample_ext] o by (metis Inr_inject)
qed

definition sample_rda :: "string \<Rightarrow> int PodRunOnceActiveDeadlineSecondsMutator" where
  "sample_rda policy = \<lparr>rda_Decode = (\<lambda>r. Inr \<lparr>pod_Name = ''p'', pod_Phase = [], pod_Spec = \<lparr>Containers = [],
        NodeSelector = None, RestartPolicy = policy, ActiveDeadlineSeconds = None\<rparr>\<rparr>),
     rda_getNamespace = (\<lambda>n. Inr \<lparr>ns_Name = n, ns_Labels = None, ns_Annotations = None, ns_DeletionTimestamp = None\<rparr>),
     OverrideAnnotation = ''override'', DefaultActiveDeadlineSeconds = 1800, rda_Skipper = (\<lambda>r. (False, None))\<rparr>"

theorem rda_deadline_set_witness:
  "\<exists>obj. resp_object (rda_Handle sample_ext (sample_rda ''Never'') (sample_request ''Pod'' ''p'' ''alice''))
       (JObj [(''spec'', JObj [])]) = Some obj \<and>
     jget [''spec'', ''activeDeadlineSeconds''] obj = Some (JInt 1800)"
proof -
  let ?req = "sample_request ''Pod'' ''p'' ''alice''" and ?m = "sample_rda ''Never''"
  let ?pod = "\<lparr>pod_Name = ''p'', pod_Phase = [], pod_Spec = \<lparr>Containers = [],
        NodeSelector = None, RestartPolicy = ''Never'', ActiveDeadlineSeconds = None\<rparr>\<rparr> :: int Pod"
  have "rda_Skipper ?m ?req = (False, None)" "rda_Decode ?m ?req = Inr ?pod" "run_once ?pod"
    "ActiveDeadlineSeconds (pod_Spec ?pod) = None" "jget [''spec''] (JObj [(''spec'', JObj [])]) = Some (JObj [])"
    by (simp_all add: sample_rda_def run_once_def)
  moreover have "resp_allowed (rda_Handle sample_ext ?m ?req)"
    by (simp add: rda_Handle_def rda_handle_def after_skip_def rda_check_def sample_rda_def)
  ultimately obtain ns n obj where "rda_getNamespace ?m (rq_Namespace ?req) = Inr ns" "namespaceDeadline ?m ns = Inr n"
    "resp_object (rda_Handle sample_ext ?m ?req) (JObj [(''spec'', JObj [])]) = Some obj"
    "jget [''spec'', ''activeDeadlineSeconds''] obj = Some (JInt n)"
    using rda_deadline_set by blast
  then show ?thesis by (auto simp: sample_rda_def namespaceDeadline_def)
qed

theorem rda_other_pods_unchanged_witness:
  "resp_allowed (rda_Handle sample_ext (sample_rda ''Always'') (sample_request ''Pod'' ''p'' ''alice''))"
proof -
  let ?req = "sample_request ''Pod'' ''p'' ''alice''" and ?m = "sample_rda ''Always''"
  let ?pod = "\<lparr>pod_Name = ''p'', pod_Phase = [], pod_Spec = \<lparr>Containers = [],
        NodeSelector = None, RestartPolicy = ''Always'', ActiveDeadlineSeconds = None\<rparr>\<rparr> :: int Pod"
  have "rda_Skipper ?m ?req = (False, None)" "rda_Decode ?m ?req = Inr ?pod"
    "\<not> run_once ?pod \<or> ActiveDeadlineSeconds (pod_Spec ?pod) \<noteq> None"
    by (simp_all add: sample_rda_def run_once_def)
  then show ?thesis using rda_other_pods_unchanged by blast
qed

end
