(* ===== verification/Cluster.thy ===== *)
theory Cluster
  imports Kube
begin

text \<open>
  What the controllers share. The API servers are one world \<open>'w\<close>; a read is a function of it, a write
  returns the next world. Which objects a world holds is a view \<open>at\<close> of it. The functions of package
  controllerutil (sigs.k8s.io/controller-runtime) are parameters whose documented behaviour is stated
  by \<open>cou_ok\<close>, \<open>scr_ok\<close> and \<open>finalizers_ok\<close>. The locale \<open>mutation\<close> is the contract of the callbacks
  that the controllers pass to \<open>CreateOrUpdate\<close>.
\<close>

section \<open>Events and requests\<close>

record Event =
  ev_Kind :: string
  ev_Namespace :: string
  ev_Name :: string
  ev_Type :: string
  ev_Reason :: string
  ev_Message :: string

text \<open>\<open>ctrl.Request\<close>: the name of the object to reconcile.\<close>

record CtrlRequest =
  req_Namespace :: string
  req_Name :: string

text \<open>A range over a map visits it in an order of the runtime's choice.\<close>

type_synonym 'v order = "(string \<times> 'v) list \<Rightarrow> (string \<times> 'v) list"

definition is_order :: "'v order \<Rightarrow> bool" where
  "is_order ord \<longleftrightarrow> (\<forall>al. mset (ord al) = mset al)"

lemma is_order_set: "is_order ord \<Longrightarrow> set (ord al) = set al"
  unfolding is_order_def by (metis mset_eq_setD)

lemma is_order_keys: "is_order ord \<Longrightarrow> distinct (map fst al) \<Longrightarrow> distinct (map fst (ord al))"
  unfolding is_order_def by (metis mset_eq_imp_distinct_iff mset_map)

lemma is_order_id: "is_order (\<lambda>al. al)"
  by (simp add: is_order_def)

section \<open>controllerutil.CreateOrUpdate\<close>

text \<open>
  The callback works on the object and on the variables \<open>'s\<close> that it captures; the call returns the
  next world, the object, the captured variables, the operation result and an error.
\<close>

type_synonym ('o, 's) MutateFn = "'o \<Rightarrow> 's \<Rightarrow> 'o \<times> 's \<times> err option"
type_synonym ('w, 'o, 's) CreateOrUpdate =
  "'o \<Rightarrow> ('o, 's) MutateFn \<Rightarrow> 's \<Rightarrow> 'w \<Rightarrow> 'w \<times> 'o \<times> 's \<times> string \<times> err option"

text \<open>A callback that captures nothing it changes.\<close>

definition capturing_none :: "('o \<Rightarrow> 'o \<times> err option) \<Rightarrow> ('o, unit) MutateFn" where
  "capturing_none f = (\<lambda>obj s. case f obj of (obj', err) \<Rightarrow> (obj', s, err))"

text \<open>
  The callback is applied to the existing object, or to the given one if there is none. Without an
  error the result is stored; with an error the stored object is the old one or, if the callback
  did not fail, possibly the new one. No other object changes.
\<close>

definition cou_ok :: "('w \<Rightarrow> 'k \<Rightarrow> 'o option) \<Rightarrow> ('o \<Rightarrow> 'k) \<Rightarrow> ('w, 'o, 's) CreateOrUpdate \<Rightarrow> bool" where
  "cou_ok at key cou \<longleftrightarrow>
     (\<forall>obj f s w w' obj' s' op e obj1 s1 fe.
        cou obj f s w = (w', obj', s', op, e) \<longrightarrow>
        f (case at w (key obj) of None \<Rightarrow> obj | Some old \<Rightarrow> old) s = (obj1, s1, fe) \<longrightarrow>
        (\<forall>k. k \<noteq> key obj \<longrightarrow> at w' k = at w k) \<and>
        (if e = None then fe = None \<and> obj' = obj1 \<and> s' = s1 \<and> at w' (key obj) = Some obj1
         else (s' = s \<or> s' = s1) \<and>
              (at w' (key obj) = at w (key obj) \<or> fe = None \<and> at w' (key obj) = Some obj1)))"

lemma cou_other:
  assumes "cou_ok at key cou" and "cou obj f s w = (w', obj', s', op, e)" and "k \<noteq> key obj"
  shows "at w' k = at w k"
proof -
  obtain obj1 s1 fe where "f (case at w (key obj) of None \<Rightarrow> obj | Some old \<Rightarrow> old) s = (obj1, s1, fe)"
    by (cases "f (case at w (key obj) of None \<Rightarrow> obj | Some old \<Rightarrow> old) s") auto
  with assms show ?thesis unfolding cou_ok_def by blast
qed

lemma cou_stored:
  assumes "cou_ok at key cou" and "cou obj f s w = (w', obj', s', op, None)"
  shows "f (case at w (key obj) of None \<Rightarrow> obj | Some old \<Rightarrow> old) s = (obj', s', None) \<and> at w' (key obj) = Some obj'"
proof -
  obtain obj1 s1 fe where f: "f (case at w (key obj) of None \<Rightarrow> obj | Some old \<Rightarrow> old) s = (obj1, s1, fe)"
    by (cases "f (case at w (key obj) of None \<Rightarrow> obj | Some old \<Rightarrow> old) s") auto
  from assms(1) [unfolded cou_ok_def, rule_format, OF assms(2) f] f show ?thesis by simp
qed

lemma cou_failed:
  assumes "cou_ok at key cou" and "cou obj f s w = (w', obj', s', op, Some e)"
    and "f (case at w (key obj) of None \<Rightarrow> obj | Some old \<Rightarrow> old) s = (obj1, s1, fe)"
  shows "s' = s \<or> s' = s1"
    and "at w' (key obj) = at w (key obj) \<or> fe = None \<and> at w' (key obj) = Some obj1"
  using assms(1) [unfolded cou_ok_def, rule_format, OF assms(2,3)] by auto

text \<open>A call that leaves another part of the world alone.\<close>

definition cou_frame :: "('w \<Rightarrow> 'v) \<Rightarrow> ('w, 'o, 's) CreateOrUpdate \<Rightarrow> bool" where
  "cou_frame view cou \<longleftrightarrow> (\<forall>obj f s w. view (fst (cou obj f s w)) = view w)"

section \<open>Callbacks\<close>

text \<open>
  Applied to the object it has produced, a callback succeeds and changes nothing: reconciling again
  finds the object in the state it should have.
\<close>

locale mutation =
  fixes mutate :: "'o \<Rightarrow> 'o \<times> err option"
  assumes settles: "mutate obj = (obj', None) \<Longrightarrow> mutate obj' = (obj', None)"
begin

lemma second_call_settles:
  assumes "cou_ok at key cou" and "key obj2 = key obj"
    and "cou obj (capturing_none mutate) () w = (w1, obj1, (), op1, None)"
    and "cou obj2 (capturing_none mutate) () w1 = (w2, obj3, (), op2, None)"
  shows "at w2 = at w1"
proof
  fix k
  from cou_stored [OF assms(1) assms(3)] have m: "mutate (case at w (key obj) of None \<Rightarrow> obj | Some old \<Rightarrow> old) = (obj1, None)"
    and st: "at w1 (key obj) = Some obj1"
    by (auto simp: capturing_none_def split: prod.splits)
  from cou_stored [OF assms(1) assms(4)] st have "mutate obj1 = (obj3, None)" "at w2 (key obj) = Some obj3"
    by (auto simp: capturing_none_def assms(2) split: prod.splits)
  with settles [OF m] st have "at w2 (key obj) = at w1 (key obj)" by simp
  then show "at w2 k = at w1 k" using cou_other [OF assms(1) assms(4)] assms(2) by (cases "k = key obj") auto
qed

end

section \<open>Owner references and finalizers\<close>

text \<open>
  \<open>SetControllerReference\<close> makes \<open>owner\<close> the controlling owner unless the object has another one, and
  changes nothing else; doing it again changes nothing. A reference has the identity \<open>ref owner\<close> of the owner,
  which for a namespace is its name: the objects of a namespace are gone before its name can be used again.
\<close>

definition scr_ok ::
    "('o \<Rightarrow> 'i option) \<Rightarrow> ('i \<Rightarrow> 'o \<Rightarrow> 'o) \<Rightarrow> ('c \<Rightarrow> 'i) \<Rightarrow> ('c \<Rightarrow> 'o \<Rightarrow> 'o \<times> err option) \<Rightarrow> bool" where
  "scr_ok controller set_controller ref scr \<longleftrightarrow>
     (\<forall>owner obj obj'. scr owner obj = (obj', None) \<longrightarrow>
        (controller obj = None \<or> controller obj = Some (ref owner)) \<and> obj' = set_controller (ref owner) obj \<and>
        scr owner obj' = (obj', None))"

text \<open>
  \<open>AddFinalizer\<close> and \<open>RemoveFinalizer\<close> on the list of finalizers, with the result that says whether
  the list was changed.
\<close>

record finalizerFns =
  AddFinalizer :: "string list \<Rightarrow> string \<Rightarrow> string list \<times> bool"
  RemoveFinalizer :: "string list \<Rightarrow> string \<Rightarrow> string list \<times> bool"

definition finalizers_ok :: "finalizerFns \<Rightarrow> bool" where
  "finalizers_ok F \<longleftrightarrow>
     (\<forall>fs f. set (fst (AddFinalizer F fs f)) = insert f (set fs) \<and> snd (AddFinalizer F fs f) = (f \<notin> set fs) \<and>
             set (fst (RemoveFinalizer F fs f)) = set fs - {f} \<and> snd (RemoveFinalizer F fs f) = (f \<in> set fs))"

section \<open>A world of stored objects\<close>

text \<open>A server that never fails, used where a statement is applied to an input.\<close>

definition store_cou :: "('o \<Rightarrow> 'k) \<Rightarrow> ('k \<Rightarrow> 'o option, 'o, 's) CreateOrUpdate" where
  "store_cou key obj f s w =
     (case f (case w (key obj) of None \<Rightarrow> obj | Some old \<Rightarrow> old) s of
        (obj', s', None) \<Rightarrow> (w(key obj \<mapsto> obj'), obj', s', ''updated'', None)
      | (obj', s', Some e) \<Rightarrow> (w, obj', s', ''unchanged'', Some e))"

lemma store_cou_ok: "cou_ok (\<lambda>w. w) key (store_cou key)"
  unfolding cou_ok_def store_cou_def by (auto split: option.splits prod.splits)

definition sample_finalizers :: finalizerFns where
  "sample_finalizers =
     \<lparr>AddFinalizer = (\<lambda>fs f. if f \<in> set fs then (fs, False) else (fs @ [f], True)),
      RemoveFinalizer = (\<lambda>fs f. (filter (\<lambda>g. g \<noteq> f) fs, f \<in> set fs))\<rparr>"

lemma sample_finalizers_ok: "finalizers_ok sample_finalizers"
  by (auto simp: finalizers_ok_def sample_finalizers_def)

end
