(* ===== verification/RatioValidator.thy ===== *)
theory RatioValidator
  imports Ratio NodeLimits NamespaceMetadata Cluster
begin

text \<open>
  webhooks/ratio_validator.go: warnings about namespaces whose memory to CPU ratio is below the fair
  use limit. The validator reaches the ratios through the interface \<open>ratioFetcher\<close>, whose contract is
  the locale \<open>ratio_fetcher\<close>, discharged for \<open>ratio.Fetcher\<close>. A range over the map of ratios visits it
  in an order of the runtime's choice, which is the argument \<open>ord\<close>.
\<close>

section \<open>The interface ratioFetcher\<close>

locale ratio_fetcher =
  fixes fetch :: "string \<Rightarrow> err + 'd Ratio gomap"
  assumes fetched_map: "fetch name = Inr m \<Longrightarrow> \<exists>al. m = Some al \<and> distinct (map fst al)"
begin

lemma fetched_put: "fetch name = Inr m \<Longrightarrow> \<exists>m'. mput k r m = Returns m' \<and> mwf m'"
  using fetched_map by (force simp: mput_def distinct_update)

end

interpretation fetcher: ratio_fetcher "FetchRatios E D f" for E D f
proof unfold_locales
  fix name m
  assume "FetchRatios E D f name = Inr m"
  then obtain pods where "m = Some (foldl (recordInto E D) [] pods)"
    by (auto simp: FetchRatios_def Let_def split: sum.splits if_splits)
  then show "\<exists>al. m = Some al \<and> distinct (map fst al)" using foldl_recordInto_keys [of E D pods] by blast
qed

section \<open>The validator\<close>

record ('s, 'd, 'q) RatioValidator =
  rv_DecodePod :: "Request \<Rightarrow> err + 'q Pod"
  rv_DecodeDeployment :: "Request \<Rightarrow> err + 'q Workload"
  rv_DecodeStatefulSet :: "Request \<Rightarrow> err + 'q Workload"
  rv_getNamespace :: "string \<Rightarrow> err + Namespace"
  rv_FetchRatios :: "string \<Rightarrow> err + 'd Ratio gomap"
  rv_asSelector :: "'s asSelector"
  rv_RatioLimits :: "('s, 'q) Limit list"
  rv_RatioWarnThreshold :: "'d option"
  rv_DefaultNodeSelector :: "string gomap"
  rv_DefaultNamespaceNodeSelectorAnnotation :: string

definition errored :: "int \<Rightarrow> err \<Rightarrow> Response" where
  "errored code err = RawResponse True (Some (code, Error err)) []"

definition recordObject ::
    "('d, 'q) decimals \<Rightarrow> ('s, 'd, 'q) RatioValidator \<Rightarrow> 'd Ratio \<Rightarrow> Request \<Rightarrow> err + 'd Ratio" where
  "recordObject D v r req =
     (if gvk_Kind (rq_Kind req) = ''Pod'' then
        (case rv_DecodePod v req of Inl err \<Rightarrow> Inl err | Inr pod \<Rightarrow> Inr (RecordPod D r [pod]))
      else if gvk_Kind (rq_Kind req) = ''Deployment'' then
        (case rv_DecodeDeployment v req of Inl err \<Rightarrow> Inl err | Inr deploy \<Rightarrow> Inr (RecordDeployment D r [deploy]))
      else if gvk_Kind (rq_Kind req) = ''StatefulSet'' then
        (case rv_DecodeStatefulSet v req of Inl err \<Rightarrow> Inl err | Inr sts \<Rightarrow> Inr (RecordStatefulSet D r [sts]))
      else Inr r)"

definition getNodeSelector :: "('s, 'd, 'q) RatioValidator \<Rightarrow> Request \<Rightarrow> err + string gomap" where
  "getNodeSelector v req =
     (if gvk_Kind (rq_Kind req) = ''Pod'' then
        (case rv_DecodePod v req of Inl err \<Rightarrow> Inl err | Inr pod \<Rightarrow> Inr (NodeSelector (pod_Spec pod)))
      else if gvk_Kind (rq_Kind req) = ''Deployment'' then
        (case rv_DecodeDeployment v req of Inl err \<Rightarrow> Inl err | Inr deploy \<Rightarrow> Inr (NodeSelector (wl_Template deploy)))
      else if gvk_Kind (rq_Kind req) = ''StatefulSet'' then
        (case rv_DecodeStatefulSet v req of Inl err \<Rightarrow> Inl err | Inr sts \<Rightarrow> Inr (NodeSelector (wl_Template sts)))
      else Inr None)"

text \<open>A selector that is returned together with an error is used all the same; the error is only logged.\<close>

definition getDefaultNodeSelectorFromNamespace ::
    "ext \<Rightarrow> ('s, 'd, 'q) RatioValidator \<Rightarrow> string \<Rightarrow> string gomap \<times> err option" where
  "getDefaultNodeSelectorFromNamespace E v namespace = (case rv_getNamespace v namespace of
      Inl err \<Rightarrow> (None, Some err)
    | Inr ns \<Rightarrow> ConvertSelectorToLabelsMap E (mstr (ns_Annotations ns) (rv_DefaultNamespaceNodeSelectorAnnotation v)))"

definition rv_nodeSel :: "ext \<Rightarrow> ('s, 'd, 'q) RatioValidator \<Rightarrow> Request \<Rightarrow> err + string gomap" where
  "rv_nodeSel E v req = (case getNodeSelector v req of
      Inl err \<Rightarrow> Inl err
    | Inr nodeSel \<Rightarrow>
        (let nodeSel = (if entries nodeSel = [] then fst (getDefaultNodeSelectorFromNamespace E v (rq_Namespace req)) else nodeSel);
             nodeSel = (if entries nodeSel = [] then rv_DefaultNodeSelector v else nodeSel)
         in Inr nodeSel))"

text \<open>The method call on the nil selector of a failed parse panics.\<close>

fun fuzzyLoop ::
    "ext \<Rightarrow> (string gomap \<Rightarrow> bool) option \<Rightarrow> string \<Rightarrow> (string \<times> 'd Ratio) list \<Rightarrow> string outcome" where
  "fuzzyLoop E sel s [] = Returns s"
| "fuzzyLoop E sel s ((k, r) # rest) = (case sel of
      None \<Rightarrow> Panics
    | Some matches \<Rightarrow>
        if matches (fst (ConvertSelectorToLabelsMap E k)) then Returns k else fuzzyLoop E sel s rest)"

definition fuzzyMatchRatioKey ::
    "ext \<Rightarrow> 'd Ratio order \<Rightarrow> string \<Rightarrow> 'd Ratio gomap \<Rightarrow> string outcome" where
  "fuzzyMatchRatioKey E ord s ratios =
     (if mget ratios s \<noteq> None then Returns s
      else fuzzyLoop E (case labels_Parse E s of Inl err \<Rightarrow> None | Inr sel \<Rightarrow> Some sel) s (ord (entries ratios)))"

text \<open>On creation the requests of the new object are added to the ratio of its node selector.\<close>

definition recordCreate ::
    "ext \<Rightarrow> ('d, 'q) decimals \<Rightarrow> 'd Ratio order \<Rightarrow> ('s, 'd, 'q) RatioValidator \<Rightarrow> Request \<Rightarrow> string gomap
      \<Rightarrow> 'd Ratio gomap \<Rightarrow> (err + 'd Ratio gomap) outcome" where
  "recordCreate E D ord v req nodeSel ratios =
     (case fuzzyMatchRatioKey E ord (labels_String E nodeSel) ratios of
        Panics \<Rightarrow> Panics
      | Returns key \<Rightarrow>
          (let r = (case mget ratios key of None \<Rightarrow> NewRatio D | Some r \<Rightarrow> r)
           in case recordObject D v r req of
                Inl err \<Rightarrow> Returns (Inl err)
              | Inr r \<Rightarrow>
                  (case mput key r ratios of Panics \<Rightarrow> Panics | Returns ratios \<Rightarrow> Returns (Inr ratios))))"

fun warnLoop ::
    "ext \<Rightarrow> ('d, 'q) decimals \<Rightarrow> ('s, 'd, 'q) RatioValidator \<Rightarrow> (string \<times> 'd Ratio) list \<Rightarrow> err + string list" where
  "warnLoop E D v [] = Inr []"
| "warnLoop E D v ((nodeSel, r) # rest) = (case ConvertSelectorToLabelsMap E nodeSel of
      (sel, Some err) \<Rightarrow> Inl err
    | (sel, None) \<Rightarrow>
        (case GetLimitForNodeSelector (rv_asSelector v) (rv_RatioLimits v) sel of
           None \<Rightarrow> warnLoop E D v rest
         | Some limit \<Rightarrow>
             if Below D r limit (rv_RatioWarnThreshold v)
             then map_sum id (\<lambda>ws. Warn (isPrint E) D r (Some limit) nodeSel # ws) (warnLoop E D v rest)
             else warnLoop E D v rest))"

definition rv_warn ::
    "ext \<Rightarrow> ('d, 'q) decimals \<Rightarrow> 'd Ratio order \<Rightarrow> ('s, 'd, 'q) RatioValidator \<Rightarrow> 'd Ratio gomap \<Rightarrow> Response" where
  "rv_warn E D ord v ratios = (case warnLoop E D v (ord (entries ratios)) of
      Inl err \<Rightarrow> errored 500 err
    | Inr warnings \<Rightarrow> RawResponse True None warnings)"

definition rv_Handle ::
    "ext \<Rightarrow> ('d, 'q) decimals \<Rightarrow> 'd Ratio order \<Rightarrow> 'd Ratio order \<Rightarrow> ('s, 'd, 'q) RatioValidator \<Rightarrow> Request
      \<Rightarrow> Response outcome" where
  "rv_Handle E D ord ord' v req =
     (if HasPrefix (Username (rq_UserInfo req)) ''system:'' then Returns (Allowed ''system user'')
      else case rv_FetchRatios v (rq_Namespace req) of
          Inl err \<Rightarrow>
            if IsErrDisabled err then Returns (Allowed ''validation disabled'')
            else if IsNotFound err then Returns (errored 404 err)
            else Returns (errored 500 err)
        | Inr ratios \<Rightarrow>
            (case rv_nodeSel E v req of
               Inl err \<Rightarrow> Returns (errored 400 err)
             | Inr nodeSel \<Rightarrow>
                 if rq_Operation req = Create then
                   (case recordCreate E D ord v req nodeSel ratios of
                      Panics \<Rightarrow> Panics
                    | Returns (Inl err) \<Rightarrow> Returns (errored 400 err)
                    | Returns (Inr ratios) \<Rightarrow> Returns (rv_warn E D ord' v ratios))
                 else Returns (rv_warn E D ord' v ratios)))"

section \<open>Properties\<close>

lemma fuzzyLoop_cases:
  assumes "fuzzyLoop E (Some matches) s al = res"
  shows "\<exists>k. res = Returns k \<and>
    (k \<in> fst ` set al \<and> matches (fst (ConvertSelectorToLabelsMap E k)) \<or>
     k = s \<and> (\<forall>k' \<in> fst ` set al. \<not> matches (fst (ConvertSelectorToLabelsMap E k'))))"
  using assms by (induction E "Some matches" s al rule: fuzzyLoop.induct) (auto split: if_splits)

text \<open>
  Whatever order the runtime visits the map in, the key that a node selector is matched to is the
  selector itself if it is a key; otherwise it is a key whose labels the selector matches if there is
  one, and the selector itself if there is none. The match does not panic if the selector parses.
\<close>

theorem fuzzyMatchRatioKey_sound:
  assumes "is_order ord" and "labels_Parse E s = Inr matches"
  shows "\<exists>k. fuzzyMatchRatioKey E ord s ratios = Returns k \<and>
    (k = s \<and> (mget ratios s \<noteq> None \<or>
              (\<forall>k' \<in> fst ` set (entries ratios). \<not> matches (fst (ConvertSelectorToLabelsMap E k')))) \<or>
     mget ratios s = None \<and> mget ratios k \<noteq> None \<and> matches (fst (ConvertSelectorToLabelsMap E k)))"
proof (cases "mget ratios s")
  case None
  from fuzzyLoop_cases [OF refl, of E matches s "ord (entries ratios)"] show ?thesis
    using None assms(2) by (auto simp: fuzzyMatchRatioKey_def is_order_set [OF assms(1)] mget_def map_of_eq_None_iff)
qed (simp add: fuzzyMatchRatioKey_def)

lemma errored_allowed [simp]: "resp_allowed (errored c e)"
  by (simp add: errored_def)

lemma rv_warn_allowed [simp]: "resp_allowed (rv_warn E D ord v ratios)"
  by (auto simp: rv_warn_def split: sum.splits)

lemma fuzzyMatch_returns:
  "\<exists>matches. labels_Parse E s = Inr matches \<Longrightarrow> \<exists>k. fuzzyMatchRatioKey E ord s ratios = Returns k"
proof -
  assume "\<exists>matches. labels_Parse E s = Inr matches"
  then obtain matches where p: "labels_Parse E s = Inr matches" ..
  from fuzzyLoop_cases [OF refl, of E matches s "ord (entries ratios)"] show ?thesis
    using p by (auto simp: fuzzyMatchRatioKey_def)
qed

text \<open>
  With the fetcher of the package ratio, and if the string of the selector the validator chooses for
  the request parses as a selector, the validator answers every request, and it never rejects one.
\<close>

theorem rv_never_denies:
  assumes fetch: "rv_FetchRatios v = FetchRatios E D f"
    and parses: "\<And>nodeSel. rv_nodeSel E v req = Inr nodeSel \<Longrightarrow> \<exists>matches. labels_Parse E (labels_String E nodeSel) = Inr matches"
  shows "\<exists>resp. rv_Handle E D ord ord' v req = Returns resp \<and> resp_allowed resp"
proof (cases "rv_FetchRatios v (rq_Namespace req)")
  case (Inr ratios)
  with fetch have m: "FetchRatios E D f (rq_Namespace req) = Inr ratios" by simp
  show ?thesis
  proof (cases "rv_nodeSel E v req")
    case sel: (Inr nodeSel)
    from parses [OF sel] obtain key where key: "fuzzyMatchRatioKey E ord (labels_String E nodeSel) ratios = Returns key"
      using fuzzyMatch_returns by blast
    with fetcher.fetched_put [OF m] have "\<exists>res. recordCreate E D ord v req nodeSel ratios = Returns res"
      by (auto simp: recordCreate_def Let_def split: sum.splits outcome.splits) (metis outcome.distinct(1))
    then show ?thesis using Inr sel by (auto simp: rv_Handle_def split: sum.splits)
  qed (use Inr in \<open>simp add: rv_Handle_def\<close>)
qed (simp add: rv_Handle_def)

text \<open>The ratios that a request is judged by: those of the namespace, with the new object on creation.\<close>

definition judged_ratios ::
    "ext \<Rightarrow> ('d, 'q) decimals \<Rightarrow> 'd Ratio order \<Rightarrow> ('s, 'd, 'q) RatioValidator \<Rightarrow> Request \<Rightarrow> 'd Ratio gomap \<Rightarrow> bool" where
  "judged_ratios E D ord v req ratios \<longleftrightarrow>
     (\<exists>current nodeSel. rv_FetchRatios v (rq_Namespace req) = Inr current \<and> rv_nodeSel E v req = Inr nodeSel \<and>
        (if rq_Operation req = Create then recordCreate E D ord v req nodeSel current = Returns (Inr ratios)
         else ratios = current))"

definition unfair :: "ext \<Rightarrow> ('d, 'q) decimals \<Rightarrow> ('s, 'd, 'q) RatioValidator \<Rightarrow> string \<times> 'd Ratio \<Rightarrow> bool" where
  "unfair E D v = (\<lambda>(k, r). case GetLimitForNodeSelector (rv_asSelector v) (rv_RatioLimits v) (fst (ConvertSelectorToLabelsMap E k)) of
      None \<Rightarrow> False | Some limit \<Rightarrow> Below D r limit (rv_RatioWarnThreshold v))"

definition warning :: "ext \<Rightarrow> ('d, 'q) decimals \<Rightarrow> ('s, 'd, 'q) RatioValidator \<Rightarrow> string \<times> 'd Ratio \<Rightarrow> string" where
  "warning E D v = (\<lambda>(k, r). Warn (isPrint E) D r
      (GetLimitForNodeSelector (rv_asSelector v) (rv_RatioLimits v) (fst (ConvertSelectorToLabelsMap E k))) k)"

lemma warnLoop_ok: "warnLoop E D v al = Inr ws \<Longrightarrow> ws = map (warning E D v) (filter (unfair E D v) al)"
proof (induction al arbitrary: ws)
  case (Cons x al)
  obtain k r where x: "x = (k, r)" by (cases x)
  obtain sel e where c: "ConvertSelectorToLabelsMap E k = (sel, e)" by (cases "ConvertSelectorToLabelsMap E k")
  with Cons.prems x have e: "e = None" by (cases e) auto
  from Cons.prems obtain ws' where "warnLoop E D v al = Inr ws'"
    using x c e by (cases "warnLoop E D v al") (auto split: option.splits if_splits)
  with Cons x c e show ?case by (auto simp: unfair_def warning_def split: option.splits if_splits)
qed simp

text \<open>
  An answer without an error carries one warning for every node selector whose judged ratio is below
  the threshold of the limit that applies to it, and no other warning; the order of the warnings is that
  in which the runtime visits the map.
\<close>

theorem rv_warns_exactly:
  assumes "is_order ord'" and "rv_Handle E D ord ord' v req = Returns (RawResponse True None ws)"
  shows "\<exists>ratios. judged_ratios E D ord v req ratios \<and>
           mset ws = image_mset (warning E D v) (filter_mset (unfair E D v) (mset (entries ratios)))"
proof -
  from assms(2) obtain ratios where "judged_ratios E D ord v req ratios"
      and "rv_warn E D ord' v ratios = RawResponse True None ws"
    by (auto simp: rv_Handle_def judged_ratios_def errored_def split: sum.splits if_splits outcome.splits)
  moreover from this(2) have "ws = map (warning E D v) (filter (unfair E D v) (ord' (entries ratios)))"
    using warnLoop_ok by (auto simp: rv_warn_def errored_def split: sum.splits)
  ultimately show ?thesis using assms(1)
    by (intro exI [of _ ratios]) (simp add: is_order_def mset_filter)
qed

lemma recordCreate_ok:
  assumes "recordCreate E D ord v req nodeSel ratios = Returns (Inr ratios')"
  obtains key r where "fuzzyMatchRatioKey E ord (labels_String E nodeSel) ratios = Returns key"
    and "recordObject D v (case mget ratios key of None \<Rightarrow> NewRatio D | Some r \<Rightarrow> r) req = Inr r"
    and "\<And>k. mget ratios' k = (if k = key then Some r else mget ratios k)"
  using assms by (auto simp: recordCreate_def Let_def go_map split: outcome.splits sum.splits)

text \<open>
  On the creation of a Deployment or StatefulSet the requests of its template, multiplied by its
  replicas (one if it does not say), are added to the entry of one key, and all other entries stay.
\<close>

theorem recordCreate_workload:
  assumes "dec_laws D val" and "gvk_Kind (rq_Kind req) = ''Deployment'' \<and> rv_DecodeDeployment v req = Inr wl \<or>
      gvk_Kind (rq_Kind req) = ''StatefulSet'' \<and> rv_DecodeStatefulSet v req = Inr wl"
    and "recordCreate E D ord v req nodeSel ratios = Returns (Inr ratios')"
  shows "\<exists>key r. fuzzyMatchRatioKey E ord (labels_String E nodeSel) ratios = Returns key \<and> mget ratios' key = Some r \<and>
     (let n = of_int (case wl_Replicas wl of None \<Rightarrow> 1 | Some n \<Rightarrow> n) in
      val (CPU r) = (case mget ratios key of None \<Rightarrow> 0 | Some r0 \<Rightarrow> val (CPU r0)) + n * requests D val ct_Cpu (wl_Template wl) \<and>
      val (Memory r) = (case mget ratios key of None \<Rightarrow> 0 | Some r0 \<Rightarrow> val (Memory r0)) + n * requests D val ct_Memory (wl_Template wl)) \<and>
     (\<forall>k. k \<noteq> key \<longrightarrow> mget ratios' k = mget ratios k)"
proof -
  from recordCreate_ok [OF assms(3)] obtain key r where
    key: "fuzzyMatchRatioKey E ord (labels_String E nodeSel) ratios = Returns key"
    and r: "recordObject D v (case mget ratios key of None \<Rightarrow> NewRatio D | Some r \<Rightarrow> r) req = Inr r"
    and m: "\<And>k. mget ratios' k = (if k = key then Some r else mget ratios k)" by metis
  from r assms(2) have "r = recordWorkload D (case mget ratios key of None \<Rightarrow> NewRatio D | Some r \<Rightarrow> r) wl"
    by (auto simp: recordObject_def RecordDeployment_def RecordStatefulSet_def)
  then show ?thesis using key m
    by (auto simp: recordWorkload_def recordReplicatedPodSpec_val [OF assms(1)] NewRatio_def dec_lawsD [OF assms(1)]
        Let_def mult.commute split: option.splits)
qed

text \<open>
  C35: On the creation of a Pod whose status does not say that it is running, which is every Pod that has
  just been submitted, nothing is added: every entry stays as it was, and at most an entry with zero
  requests is new.
\<close>

theorem recordCreate_new_pod:
  assumes "gvk_Kind (rq_Kind req) = ''Pod''" and "rv_DecodePod v req = Inr pod" and "pod_Phase pod \<noteq> PodRunning"
    and "recordCreate E D ord v req nodeSel ratios = Returns (Inr ratios')"
  shows "mget ratios' k = mget ratios k \<or> mget ratios k = None \<and> mget ratios' k = Some (NewRatio D)"
proof -
  from recordCreate_ok [OF assms(4)] obtain key r where
    r: "recordObject D v (case mget ratios key of None \<Rightarrow> NewRatio D | Some r \<Rightarrow> r) req = Inr r"
    and m: "\<And>k. mget ratios' k = (if k = key then Some r else mget ratios k)" by metis
  from r assms(1,2,3) have "r = (case mget ratios key of None \<Rightarrow> NewRatio D | Some r \<Rightarrow> r)"
    by (simp add: recordObject_def RecordPod_def)
  then show ?thesis using m by (auto split: option.splits)
qed

section \<open>A concrete validator\<close>

definition sample_rv :: "(unit, rat, rat) RatioValidator" where
  "sample_rv =
     \<lparr>rv_DecodePod = (\<lambda>r. Inr (sample_pod None [] 3 1)),
      rv_DecodeDeployment = (\<lambda>r. Inr \<lparr>wl_Replicas = Some 2, wl_Template = pod_Spec (sample_pod None [] 3 1)\<rparr>),
      rv_DecodeStatefulSet = (\<lambda>r. Inl (NotFound ''sts'')),
      rv_getNamespace = ft_getNamespace sample_fetcher,
      rv_FetchRatios = FetchRatios sample_ext rat_decimals sample_fetcher,
      rv_asSelector = (\<lambda>_. Inr (\<lambda>_. True)), rv_RatioLimits = [\<lparr>lim_NodeSelector = (), lim_Limit = Some (of_int (4 * mib))\<rparr>],
      rv_RatioWarnThreshold = None, rv_DefaultNodeSelector = None, rv_DefaultNamespaceNodeSelectorAnnotation = ''sel''\<rparr>"

definition sample_ratios :: "rat Ratio gomap" where
  "sample_ratios = Some [([], \<lparr>CPU = 2, Memory = 5\<rparr>)]"

lemma sample_recordCreate:
  "recordCreate sample_ext rat_decimals (\<lambda>al. al) sample_rv (sample_request ''Deployment'' ''ns'' ''alice'') None sample_ratios =
     Returns (Inr (Some [([], \<lparr>CPU = 4, Memory = 11\<rparr>)]))"
  "recordCreate sample_ext rat_decimals (\<lambda>al. al) sample_rv (sample_request ''Pod'' ''ns'' ''alice'') None sample_ratios =
     Returns (Inr sample_ratios)"
  by (simp_all add: recordCreate_def fuzzyMatchRatioKey_def sample_ratios_def recordObject_def sample_rv_def sample_request_def
      sample_ext_simps RecordDeployment_def RecordPod_def recordWorkload_def recordReplicatedPodSpec_def rat_decimals_def
      mput_def sample_pod_def PodRunning_def)

lemma sample_nodeSel: "rv_nodeSel sample_ext sample_rv (sample_request ''Deployment'' ''ns'' ''alice'') = Inr None"
  by (simp add: rv_nodeSel_def getNodeSelector_def sample_rv_def sample_request_def sample_pod_def sample_ext_simps
      getDefaultNodeSelectorFromNamespace_def sample_fetcher_def mstr_def Cut_def)

theorem fuzzyMatchRatioKey_sound_witness:
  "\<exists>k. fuzzyMatchRatioKey sample_ext (\<lambda>al. al) ''app=x'' sample_ratios = Returns k \<and> mget sample_ratios k \<noteq> None"
  using fuzzyMatchRatioKey_sound [OF is_order_id sample_ext_simps(3), of "''app=x''" sample_ratios]
  by (auto simp: sample_ratios_def)

theorem rv_never_denies_witness:
  "\<exists>resp. rv_Handle sample_ext rat_decimals (\<lambda>al. al) (\<lambda>al. al) sample_rv (sample_request ''Deployment'' ''ns'' ''alice'') = Returns resp \<and>
     resp_allowed resp"
  by (rule rv_never_denies [where f = sample_fetcher]) (simp_all add: sample_rv_def sample_ext_simps)

theorem recordCreate_workload_witness:
  "\<exists>key r. mget (Some [([], \<lparr>CPU = 4, Memory = 11\<rparr>)]) key = Some r \<and>
     CPU r = (case mget sample_ratios key of None \<Rightarrow> 0 | Some r0 \<Rightarrow> CPU r0) +
       2 * requests rat_decimals (\<lambda>x. x) ct_Cpu (pod_Spec (sample_pod None [] 3 1))"
proof -
  let ?wl = "\<lparr>wl_Replicas = Some 2, wl_Template = pod_Spec (sample_pod None [] 3 1)\<rparr>"
  let ?req = "sample_request ''Deployment'' ''ns'' ''alice''"
  have "gvk_Kind (rq_Kind ?req) = ''Deployment'' \<and> rv_DecodeDeployment sample_rv ?req = Inr ?wl \<or>
      gvk_Kind (rq_Kind ?req) = ''StatefulSet'' \<and> rv_DecodeStatefulSet sample_rv ?req = Inr ?wl"
    by (simp add: sample_rv_def sample_request_def)
  from recordCreate_workload [OF rat_decimals_laws this sample_recordCreate(1)] show ?thesis
    by (auto simp: Let_def split: if_splits)
qed

theorem recordCreate_new_pod_witness:
  "recordCreate sample_ext rat_decimals (\<lambda>al. al) sample_rv (sample_request ''Pod'' ''ns'' ''alice'') None sample_ratios =
     Returns (Inr sample_ratios) \<and> (mget sample_ratios [] = mget sample_ratios [] \<or> mget sample_ratios [] = None)"
  using recordCreate_new_pod [OF _ _ _ sample_recordCreate(2), of "sample_pod None [] 3 1" "[]"] sample_recordCreate(2)
  by (simp add: sample_rv_def sample_request_def sample_pod_def PodRunning_def)

lemma sample_below: "Below rat_decimals \<lparr>CPU = 4, Memory = 11\<rparr> (of_int (4 * mib)) None"
proof -
  have "\<lfloor>11 / 4 :: rat\<rfloor> = 2" by (simp add: floor_eq_iff)
  then have "round_half_even (11 / 4) = 3" by (simp add: round_half_even_def Let_def)
  moreover have "round_away (3 / of_int mib) = 1" by (simp add: round_away_def ceiling_eq_iff mib_def)
  ultimately show ?thesis by (simp add: Below_def Ratio_Ratio_def rat_decimals_def)
qed

lemma sample_rv_Handle:
  "rv_Handle sample_ext rat_decimals (\<lambda>al. al) (\<lambda>al. al) sample_rv (sample_request ''Deployment'' ''ns'' ''alice'') =
     Returns (RawResponse True None [warning sample_ext rat_decimals sample_rv ([], \<lparr>CPU = 4, Memory = 11\<rparr>)])"
proof -
  have f: "rv_FetchRatios sample_rv ''ns'' = Inr sample_ratios"
    using sample_FetchRatios by (simp add: sample_rv_def sample_ratios_def)
  show ?thesis
    using sample_below f sample_recordCreate(1) sample_nodeSel
    by (simp add: rv_Handle_def sample_request_def HasPrefix_def rv_warn_def warning_def sample_ext_simps)
       (simp add: sample_rv_def Cut_def sample_ext_simps)
qed

theorem rv_warns_exactly_witness:
  "\<exists>ratios. judged_ratios sample_ext rat_decimals (\<lambda>al. al) sample_rv (sample_request ''Deployment'' ''ns'' ''alice'') ratios \<and>
     size (filter_mset (unfair sample_ext rat_decimals sample_rv) (mset (entries ratios))) = 1"
  using rv_warns_exactly [OF is_order_id sample_rv_Handle] by (metis size_image_mset size_mset length_Cons list.size(3) One_nat_def)

end
