(* ===== verification/RatioController.thy ===== *)
theory RatioController
  imports RatioValidator
begin

text \<open>
  controllers/ratio_controller.go: on every change of a pod the ratios of its namespace are compared with
  the fair use limits, and events on the pod and on the namespace report those that are too low.
\<close>

section \<open>The controller\<close>

record ('s, 'd, 'q) RatioReconciler =
  rc_getPod :: "string \<Rightarrow> string \<Rightarrow> err + 'q Pod"
  rc_getNamespace :: "string \<Rightarrow> err + Namespace"
  rc_FetchRatios :: "string \<Rightarrow> err + 'd Ratio gomap"
  rc_asSelector :: "'s asSelector"
  rc_RatioLimits :: "('s, 'q) Limit list"
  rc_RatioWarnThreshold :: "'d option"

definition eventReason :: string where
  "eventReason = ''TooMuchCPURequest''"

definition warnPod ::
    "ext \<Rightarrow> ('d, 'q) decimals \<Rightarrow> ('s, 'd, 'q) RatioReconciler \<Rightarrow> string \<Rightarrow> string \<Rightarrow> 'd Ratio \<Rightarrow> string \<Rightarrow> 'q
      \<Rightarrow> Event list \<times> err option" where
  "warnPod E D r name namespace nsRatio sel limit = (case rc_getPod r namespace name of
      Inl err \<Rightarrow> ([], Some err)
    | Inr pod \<Rightarrow>
        ([\<lparr>ev_Kind = ''Pod'', ev_Namespace = namespace, ev_Name = pod_Name pod, ev_Type = ''Warning'',
           ev_Reason = eventReason, ev_Message = Warn (isPrint E) D nsRatio (Some limit) sel\<rparr>], None))"

definition warnNamespace ::
    "ext \<Rightarrow> ('d, 'q) decimals \<Rightarrow> ('s, 'd, 'q) RatioReconciler \<Rightarrow> string \<Rightarrow> 'd Ratio \<Rightarrow> string \<Rightarrow> 'q
      \<Rightarrow> Event list \<times> err option" where
  "warnNamespace E D r name nsRatio sel limit = (case rc_getNamespace r name of
      Inl err \<Rightarrow> ([], Some err)
    | Inr ns \<Rightarrow>
        ([\<lparr>ev_Kind = ''Namespace'', ev_Namespace = [], ev_Name = ns_Name ns, ev_Type = ''Warning'',
           ev_Reason = eventReason, ev_Message = Warn (isPrint E) D nsRatio (Some limit) sel\<rparr>], None))"

text \<open>An error of \<open>warnPod\<close> or \<open>warnNamespace\<close> is only logged.\<close>

fun rc_loop ::
    "ext \<Rightarrow> ('d, 'q) decimals \<Rightarrow> ('s, 'd, 'q) RatioReconciler \<Rightarrow> CtrlRequest \<Rightarrow> (string \<times> 'd Ratio) list
      \<Rightarrow> Event list \<times> err option" where
  "rc_loop E D r req [] = ([], None)"
| "rc_loop E D r req ((nodeSel, ratio) # rest) = (case ConvertSelectorToLabelsMap E nodeSel of
      (sel, Some err) \<Rightarrow>
        ([], Some (WrapErr (''failed to convert node selector '' @ [CHR 0x27] @ nodeSel @ [CHR 0x27] @ '' to labels map: '') err []))
    | (sel, None) \<Rightarrow>
        (case GetLimitForNodeSelector (rc_asSelector r) (rc_RatioLimits r) sel of
           None \<Rightarrow> rc_loop E D r req rest
         | Some limit \<Rightarrow>
             if Below D ratio limit (rc_RatioWarnThreshold r) then
               (case rc_loop E D r req rest of (events, err) \<Rightarrow>
                  (fst (warnPod E D r (req_Name req) (req_Namespace req) ratio nodeSel limit) @
                   fst (warnNamespace E D r (req_Namespace req) ratio nodeSel limit) @ events, err))
             else rc_loop E D r req rest))"

definition rc_Reconcile ::
    "ext \<Rightarrow> ('d, 'q) decimals \<Rightarrow> 'd Ratio order \<Rightarrow> ('s, 'd, 'q) RatioReconciler \<Rightarrow> CtrlRequest \<Rightarrow> Event list \<times> err option" where
  "rc_Reconcile E D ord r req = (case rc_FetchRatios r (req_Namespace req) of
      Inl err \<Rightarrow> if IsErrDisabled err then ([], None) else ([], Some err)
    | Inr nsRatios \<Rightarrow> rc_loop E D r req (ord (entries nsRatios)))"

section \<open>Properties\<close>

text \<open>The limits that apply, as the webhook computes them.\<close>

definition rc_unfair :: "ext \<Rightarrow> ('d, 'q) decimals \<Rightarrow> ('s, 'd, 'q) RatioReconciler \<Rightarrow> string \<times> 'd Ratio \<Rightarrow> bool" where
  "rc_unfair E D r = (\<lambda>(k, ratio).
      case GetLimitForNodeSelector (rc_asSelector r) (rc_RatioLimits r) (fst (ConvertSelectorToLabelsMap E k)) of
        None \<Rightarrow> False | Some limit \<Rightarrow> Below D ratio limit (rc_RatioWarnThreshold r))"

definition rc_message :: "ext \<Rightarrow> ('d, 'q) decimals \<Rightarrow> ('s, 'd, 'q) RatioReconciler \<Rightarrow> string \<times> 'd Ratio \<Rightarrow> string" where
  "rc_message E D r = (\<lambda>(k, ratio). Warn (isPrint E) D ratio
      (GetLimitForNodeSelector (rc_asSelector r) (rc_RatioLimits r) (fst (ConvertSelectorToLabelsMap E k))) k)"

definition warnEvent :: "string \<Rightarrow> string \<Rightarrow> string \<Rightarrow> string \<Rightarrow> Event" where
  "warnEvent kind namespace name msg = \<lparr>ev_Kind = kind, ev_Namespace = namespace, ev_Name = name,
     ev_Type = ''Warning'', ev_Reason = eventReason, ev_Message = msg\<rparr>"

definition rc_events ::
    "('s, 'd, 'q) RatioReconciler \<Rightarrow> CtrlRequest \<Rightarrow> string \<Rightarrow> Event list" where
  "rc_events r req msg =
     (case rc_getPod r (req_Namespace req) (req_Name req) of
        Inl err \<Rightarrow> [] | Inr pod \<Rightarrow> [warnEvent ''Pod'' (req_Namespace req) (pod_Name pod) msg]) @
     (case rc_getNamespace r (req_Namespace req) of
        Inl err \<Rightarrow> [] | Inr ns \<Rightarrow> [warnEvent ''Namespace'' [] (ns_Name ns) msg])"

lemma rc_events_warn:
  "fst (warnPod E D r (req_Name req) (req_Namespace req) ratio k limit) @
   fst (warnNamespace E D r (req_Namespace req) ratio k limit) = rc_events r req (Warn (isPrint E) D ratio (Some limit) k)"
  by (simp add: rc_events_def warnPod_def warnNamespace_def warnEvent_def split: sum.splits)

lemma rc_loop_events:
  "rc_loop E D r req al = (events, None) \<Longrightarrow>
     events = concat (map (\<lambda>x. rc_events r req (rc_message E D r x)) (filter (rc_unfair E D r) al))"
proof (induction al arbitrary: events)
  case (Cons x al)
  obtain k ratio where x: "x = (k, ratio)" by (cases x)
  obtain sel e where c: "ConvertSelectorToLabelsMap E k = (sel, e)" by (cases "ConvertSelectorToLabelsMap E k")
  with Cons.prems x have e: "e = None" by (cases e) auto
  obtain events' e' where l: "rc_loop E D r req al = (events', e')" by (cases "rc_loop E D r req al")
  with Cons.prems x c e have "e' = None" by (auto split: option.splits if_splits)
  with Cons.IH l have ih: "events' = concat (map (\<lambda>x. rc_events r req (rc_message E D r x)) (filter (rc_unfair E D r) al))" by simp
  show ?case
  proof (cases "GetLimitForNodeSelector (rc_asSelector r) (rc_RatioLimits r) sel")
    case None
    with Cons.prems x c e l ih show ?thesis by (simp add: rc_unfair_def)
  next
    case (Some limit)
    with Cons.prems x c e l ih show ?thesis
      by (auto simp: rc_unfair_def rc_message_def rc_events_warn [symmetric] split: if_splits)
  qed
qed simp

text \<open>
  A reconciliation that succeeds records, for every node selector of the namespace whose ratio is
  below the threshold of its limit and for no other, an event on the pod and an event on the namespace
  (each if the object still exists), and nothing else; if the check is disabled for the namespace it
  records nothing.
\<close>

theorem rc_Reconcile_events:
  assumes "is_order ord" and "rc_Reconcile E D ord r req = (events, None)"
  shows "(case rc_FetchRatios r (req_Namespace req) of
      Inl err \<Rightarrow> IsErrDisabled err \<and> events = []
    | Inr nsRatios \<Rightarrow> mset events =
        (\<Sum>x \<in># filter_mset (rc_unfair E D r) (mset (entries nsRatios)). mset (rc_events r req (rc_message E D r x))))"
proof (cases "rc_FetchRatios r (req_Namespace req)")
  case (Inl err)
  with assms(2) show ?thesis by (simp add: rc_Reconcile_def split: if_splits)
next
  case (Inr nsRatios)
  with assms(2) have "rc_loop E D r req (ord (entries nsRatios)) = (events, None)" by (simp add: rc_Reconcile_def)
  from rc_loop_events [OF this] have "mset events =
      (\<Sum>x \<in># mset (filter (rc_unfair E D r) (ord (entries nsRatios))). mset (rc_events r req (rc_message E D r x)))"
    by (simp add: mset_concat o_def flip: sum_mset_sum_list)
  with assms(1) Inr show ?thesis by (simp add: is_order_def mset_filter)
qed

section \<open>A concrete controller\<close>

definition sample_rc :: "(unit, rat, rat) RatioReconciler" where
  "sample_rc =
     \<lparr>rc_getPod = (\<lambda>ns n. Inl (NotFound n)), rc_getNamespace = ft_getNamespace sample_fetcher,
      rc_FetchRatios = (\<lambda>n. Inr (Some [([], \<lparr>CPU = 4, Memory = 11\<rparr>)])),
      rc_asSelector = (\<lambda>_. Inr (\<lambda>_. True)), rc_RatioLimits = [\<lparr>lim_NodeSelector = (), lim_Limit = Some (of_int (4 * mib))\<rparr>],
      rc_RatioWarnThreshold = None\<rparr>"

definition sample_rc_req :: CtrlRequest where
  "sample_rc_req = \<lparr>req_Namespace = ''ns'', req_Name = ''pod''\<rparr>"

lemma sample_rc_Reconcile: "\<exists>events. rc_Reconcile sample_ext rat_decimals (\<lambda>al. al) sample_rc sample_rc_req = (events, None)"
  by (simp add: rc_Reconcile_def sample_rc_def sample_ext_simps Cut_def)

lemma sample_rc_unfair: "rc_unfair sample_ext rat_decimals sample_rc ([], \<lparr>CPU = 4, Memory = 11\<rparr>)"
  using sample_below by (simp add: rc_unfair_def sample_rc_def)

theorem rc_Reconcile_events_witness:
  "\<exists>events msg. rc_Reconcile sample_ext rat_decimals (\<lambda>al. al) sample_rc sample_rc_req = (events, None) \<and>
     mset events = {# warnEvent ''Namespace'' [] ''ns'' msg #}"
proof -
  obtain events where r: "rc_Reconcile sample_ext rat_decimals (\<lambda>al. al) sample_rc sample_rc_req = (events, None)"
    using sample_rc_Reconcile by blast
  have f: "rc_FetchRatios sample_rc (req_Namespace sample_rc_req) = Inr (Some [([], \<lparr>CPU = 4, Memory = 11\<rparr>)])"
    by (simp add: sample_rc_def)
  have "rc_events sample_rc sample_rc_req msg = [warnEvent ''Namespace'' [] ''ns'' msg]" for msg
    by (simp add: rc_events_def sample_rc_def sample_fetcher_def sample_rc_req_def)
  with rc_Reconcile_events [OF is_order_id r] f sample_rc_unfair r show ?thesis by auto
qed

end
