(* ===== verification/OrgRBAC.thy ===== *)
theory OrgRBAC
  imports Cluster Skipper
begin

text \<open>
  controllers/org_rbac_controller.go: the role bindings that give an organization its default cluster
  roles in each of its namespaces.
\<close>

section \<open>The controller\<close>

definition rbacGroupName :: string where
  "rbacGroupName = ''rbac.authorization.k8s.io''"

record RoleRef =
  rr_APIGroup :: string
  rr_Kind :: string
  rr_Name :: string

record RoleBinding =
  rb_Namespace :: string
  rb_Name :: string
  rb_Labels :: "string gomap"
  rb_Controller :: "string option"
  rb_RoleRef :: RoleRef
  rb_Subjects :: "Subject list"

definition rb_key :: "RoleBinding \<Rightarrow> string \<times> string" where
  "rb_key rb = (rb_Namespace rb, rb_Name rb)"

record 'w OrganizationRBACReconciler =
  or_getNamespace :: "string \<Rightarrow> 'w \<Rightarrow> err + Namespace"
  or_CreateOrUpdate :: "('w, RoleBinding, unit) CreateOrUpdate"
  or_SetControllerReference :: "Namespace \<Rightarrow> RoleBinding \<Rightarrow> RoleBinding \<times> err option"
  or_OrganizationLabel :: string
  or_DefaultClusterRoles :: "string gomap"

definition LabelRoleBindingUninitialized :: string where
  "LabelRoleBindingUninitialized = ''appuio.io/uninitialized''"

definition LabelNamespaceNoRBAC :: string where
  "LabelNamespaceNoRBAC = ''appuio.io/no-rbac-creation''"

definition getOrganization :: "'w OrganizationRBACReconciler \<Rightarrow> Namespace \<Rightarrow> string" where
  "getOrganization r ns = (if ns_Labels ns \<noteq> None then mstr (ns_Labels ns) (or_OrganizationLabel r) else [])"

definition skipRBACManagement :: "Namespace \<Rightarrow> bool" where
  "skipRBACManagement ns =
     (let label = (if ns_Labels ns \<noteq> None then mstr (ns_Labels ns) LabelNamespaceNoRBAC else [])
      in ParseBool label = Some True)"

definition rolebindingIsUninitialized :: "RoleBinding \<Rightarrow> bool" where
  "rolebindingIsUninitialized rolebinding =
     (if rb_Labels rolebinding = None then False
      else ParseBool (mstr (rb_Labels rolebinding) LabelRoleBindingUninitialized) = Some True)"

definition rb_mutate ::
    "(Namespace \<Rightarrow> RoleBinding \<Rightarrow> RoleBinding \<times> err option) \<Rightarrow> Namespace \<Rightarrow> string
      \<Rightarrow> RoleBinding \<Rightarrow> RoleBinding \<times> err option" where
  "rb_mutate scr ns grp rb =
     (let rb = (if rolebindingIsUninitialized rb
                then rb\<lparr>rb_Subjects := [\<lparr>sub_Kind = ''Group'', sub_APIGroup = rbacGroupName, sub_Namespace = [], sub_Name = grp\<rparr>],
                        rb_Labels := map_option (AList.delete LabelRoleBindingUninitialized) (rb_Labels rb)\<rparr>
                else rb)
      in scr ns rb)"

definition newRoleBinding :: "Namespace \<Rightarrow> string \<Rightarrow> string \<Rightarrow> RoleBinding" where
  "newRoleBinding ns name clusterRole =
     \<lparr>rb_Namespace = ns_Name ns, rb_Name = name, rb_Labels = Some [(LabelRoleBindingUninitialized, ''true'')],
      rb_Controller = None, rb_RoleRef = \<lparr>rr_APIGroup = rbacGroupName, rr_Kind = ''ClusterRole'', rr_Name = clusterRole\<rparr>,
      rb_Subjects = []\<rparr>"

definition putRoleBinding ::
    "'w OrganizationRBACReconciler \<Rightarrow> Namespace \<Rightarrow> string \<Rightarrow> string \<Rightarrow> string \<Rightarrow> 'w \<Rightarrow> 'w \<times> err option" where
  "putRoleBinding r ns name clusterRole grp w =
     (case or_CreateOrUpdate r (newRoleBinding ns name clusterRole)
         (capturing_none (rb_mutate (or_SetControllerReference r) ns grp)) () w of
        (w', rb, s, op, err) \<Rightarrow> (w', err))"

text \<open>One binding per default role; a failure is recorded as an event and does not stop the others.\<close>

fun putAll ::
    "ext \<Rightarrow> 'w OrganizationRBACReconciler \<Rightarrow> Namespace \<Rightarrow> string \<Rightarrow> (string \<times> string) list \<Rightarrow> 'w
      \<Rightarrow> 'w \<times> Event list \<times> err option list" where
  "putAll E r ns org [] w = (w, [], [])"
| "putAll E r ns org ((rb, cr) # rest) w =
     (case putRoleBinding r ns rb cr org w of
        (w', err) \<Rightarrow>
          (case putAll E r ns org rest w' of
             (w'', events, errs) \<Rightarrow>
               (case err of
                  None \<Rightarrow> (w'', events, errs)
                | Some e \<Rightarrow>
                    (w'', \<lparr>ev_Kind = ''Namespace'', ev_Namespace = [], ev_Name = ns_Name ns, ev_Type = ''Warning'',
                           ev_Reason = ''RoleBindingCreationFailed'',
                           ev_Message = ''Failed to create rolebinding '' @ Quote (isPrint E) rb\<rparr> # events,
                     Some e # errs))))"

definition or_Reconcile ::
    "ext \<Rightarrow> string order \<Rightarrow> 'w OrganizationRBACReconciler \<Rightarrow> CtrlRequest \<Rightarrow> 'w \<Rightarrow> 'w \<times> Event list \<times> err option" where
  "or_Reconcile E ord r req w = (case or_getNamespace r (req_Name req) w of
      Inl err \<Rightarrow> (w, [], IgnoreNotFound err)
    | Inr ns \<Rightarrow>
        if ns_DeletionTimestamp ns \<noteq> None then (w, [], None)
        else
          (let org = getOrganization r ns
           in if org = [] then (w, [], None)
              else if skipRBACManagement ns then (w, [], None)
              else case putAll E r ns org (ord (entries (or_DefaultClusterRoles r))) w of
                  (w', events, errs) \<Rightarrow> (w', events, multierr_Combine E errs)))"

section \<open>The callback\<close>

definition rb_scr_ok :: "(Namespace \<Rightarrow> RoleBinding \<Rightarrow> RoleBinding \<times> err option) \<Rightarrow> bool" where
  "rb_scr_ok scr \<longleftrightarrow> scr_ok rb_Controller (\<lambda>c rb. rb\<lparr>rb_Controller := Some c\<rparr>) ns_Name scr"

definition orgSubject :: "string \<Rightarrow> Subject" where
  "orgSubject grp = \<lparr>sub_Kind = ''Group'', sub_APIGroup = rbacGroupName, sub_Namespace = [], sub_Name = grp\<rparr>"

definition unmarked :: "string gomap \<Rightarrow> string gomap" where
  "unmarked labels = map_option (AList.delete LabelRoleBindingUninitialized) labels"

lemma rb_mutate_ok:
  assumes "rb_scr_ok scr" and "rb_mutate scr ns grp rb = (rb', None)"
  shows "rb' = (if rolebindingIsUninitialized rb
                then rb\<lparr>rb_Subjects := [orgSubject grp], rb_Labels := unmarked (rb_Labels rb), rb_Controller := Some (ns_Name ns)\<rparr>
                else rb\<lparr>rb_Controller := Some (ns_Name ns)\<rparr>)"
  using assms by (auto simp: rb_mutate_def rb_scr_ok_def scr_ok_def Let_def orgSubject_def unmarked_def split: if_splits)

lemma unmarked_initialized: "\<not> rolebindingIsUninitialized (rb\<lparr>rb_Labels := unmarked labels\<rparr>)"
  by (cases labels) (auto simp: rolebindingIsUninitialized_def unmarked_def mstr_def ParseBool_def)

lemma rb_mutate_initialized:
  assumes "rb_scr_ok scr" and "rb_mutate scr ns grp rb = (rb', None)"
  shows "\<not> rolebindingIsUninitialized rb'"
  using rb_mutate_ok [OF assms] unmarked_initialized [of "rb_Labels rb" rb]
  by (auto simp: rolebindingIsUninitialized_def split: if_splits)

lemma rb_mutation: "rb_scr_ok scr \<Longrightarrow> mutation (rb_mutate scr ns grp)"
proof unfold_locales
  fix rb rb'
  assume s: "rb_scr_ok scr" and m: "rb_mutate scr ns grp rb = (rb', None)"
  from m obtain rb0 where "scr ns rb0 = (rb', None)" by (auto simp: rb_mutate_def Let_def split: if_splits)
  with s have "scr ns rb' = (rb', None)" by (auto simp: rb_scr_ok_def scr_ok_def)
  with rb_mutate_initialized [OF s m] show "rb_mutate scr ns grp rb' = (rb', None)" by (simp add: rb_mutate_def)
qed

section \<open>What reconciling does\<close>

text \<open>The binding that should be stored, from the one that was stored before.\<close>

definition desired :: "Namespace \<Rightarrow> string \<Rightarrow> string \<Rightarrow> string \<Rightarrow> RoleBinding option \<Rightarrow> RoleBinding" where
  "desired ns name clusterRole org before = (case before of
      None \<Rightarrow> \<lparr>rb_Namespace = ns_Name ns, rb_Name = name, rb_Labels = Some [], rb_Controller = Some (ns_Name ns),
          rb_RoleRef = \<lparr>rr_APIGroup = rbacGroupName, rr_Kind = ''ClusterRole'', rr_Name = clusterRole\<rparr>,
          rb_Subjects = [orgSubject org]\<rparr>
    | Some rb \<Rightarrow>
        if rolebindingIsUninitialized rb
        then rb\<lparr>rb_Subjects := [orgSubject org], rb_Labels := unmarked (rb_Labels rb), rb_Controller := Some (ns_Name ns)\<rparr>
        else rb\<lparr>rb_Controller := Some (ns_Name ns)\<rparr>)"

definition or_client_ok :: "('w \<Rightarrow> string \<times> string \<Rightarrow> RoleBinding option) \<Rightarrow> 'w OrganizationRBACReconciler \<Rightarrow> bool" where
  "or_client_ok at r \<longleftrightarrow> cou_ok at rb_key (or_CreateOrUpdate r) \<and> rb_scr_ok (or_SetControllerReference r)"

lemma newRoleBinding_facts [simp]:
  "rb_key (newRoleBinding ns name cr) = (ns_Name ns, name)"
  "rolebindingIsUninitialized (newRoleBinding ns name cr)"
  by (simp_all add: newRoleBinding_def rb_key_def rolebindingIsUninitialized_def mstr_def ParseBool_def)

lemma putRoleBinding_ok:
  assumes "or_client_ok at r" and "putRoleBinding r ns name cr org w = (w', None)"
  shows "at w' (ns_Name ns, name) = Some (desired ns name cr org (at w (ns_Name ns, name)))"
proof -
  from assms(2) obtain rb op where c: "or_CreateOrUpdate r (newRoleBinding ns name cr)
      (capturing_none (rb_mutate (or_SetControllerReference r) ns org)) () w = (w', rb, (), op, None)"
    by (auto simp: putRoleBinding_def split: prod.splits)
  have ok: "cou_ok at rb_key (or_CreateOrUpdate r)" "rb_scr_ok (or_SetControllerReference r)"
    using assms(1) by (simp_all add: or_client_ok_def)
  from cou_stored [OF ok(1) c] have
    m: "rb_mutate (or_SetControllerReference r) ns org
          (case at w (ns_Name ns, name) of None \<Rightarrow> newRoleBinding ns name cr | Some old \<Rightarrow> old) = (rb, None)"
    and st: "at w' (ns_Name ns, name) = Some rb"
    by (auto simp: capturing_none_def split: prod.splits)
  from rb_mutate_ok [OF ok(2) m] have "rb = desired ns name cr org (at w (ns_Name ns, name))"
    by (auto simp: desired_def split: option.splits)
       (simp_all add: newRoleBinding_def unmarked_def)
  with st show ?thesis by simp
qed

lemma putRoleBinding_other:
  assumes "or_client_ok at r" and "putRoleBinding r ns name cr org w = (w', e)" and "k \<noteq> (ns_Name ns, name)"
  shows "at w' k = at w k"
  using assms cou_other [of at rb_key "or_CreateOrUpdate r" "newRoleBinding ns name cr"]
  by (auto simp: putRoleBinding_def or_client_ok_def split: prod.splits)

lemma putAll_other:
  assumes "or_client_ok at r"
  shows "putAll E r ns org al w = (w', events, errs) \<Longrightarrow> k \<notin> (\<lambda>name. (ns_Name ns, name)) ` fst ` set al \<Longrightarrow> at w' k = at w k"
proof (induction al arbitrary: w w' events errs)
  case (Cons x al)
  obtain name cr where x: "x = (name, cr)" by (cases x)
  obtain w1 e where p: "putRoleBinding r ns name cr org w = (w1, e)" by (cases "putRoleBinding r ns name cr org w")
  obtain w2 evs es where q: "putAll E r ns org al w1 = (w2, evs, es)" by (cases "putAll E r ns org al w1") auto
  have "w' = w2" using Cons.prems(1) x p q by (cases e) auto
  moreover have "at w2 k = at w1 k" using Cons.IH [OF q] Cons.prems(2) by auto
  moreover have "at w1 k = at w k" using putRoleBinding_other [OF assms p] Cons.prems(2) x by auto
  ultimately show ?case by simp
qed simp

lemma putAll_errs:
  "putAll E r ns org al w = (w', events, errs) \<Longrightarrow> length events = length errs \<and> None \<notin> set errs"
proof (induction al arbitrary: w w' events errs)
  case (Cons x al)
  obtain name cr where x: "x = (name, cr)" by (cases x)
  obtain w1 e where p: "putRoleBinding r ns name cr org w = (w1, e)" by (cases "putRoleBinding r ns name cr org w")
  obtain w2 evs es where q: "putAll E r ns org al w1 = (w2, evs, es)" by (cases "putAll E r ns org al w1") auto
  from Cons.IH [OF q] Cons.prems x p q show ?case by (cases e) auto
qed simp

lemma putAll_ok:
  assumes "or_client_ok at r"
  shows "putAll E r ns org al w = (w', events, []) \<Longrightarrow> distinct (map fst al) \<Longrightarrow> (name, cr) \<in> set al \<Longrightarrow>
    at w' (ns_Name ns, name) = Some (desired ns name cr org (at w (ns_Name ns, name)))"
proof (induction al arbitrary: w w' events)
  case (Cons x al)
  obtain name1 cr1 where x: "x = (name1, cr1)" by (cases x)
  obtain w1 e where p: "putRoleBinding r ns name1 cr1 org w = (w1, e)" by (cases "putRoleBinding r ns name1 cr1 org w")
  obtain w2 evs es where q0: "putAll E r ns org al w1 = (w2, evs, es)" by (cases "putAll E r ns org al w1") auto
  with Cons.prems(1) x p have e: "e = None" and q: "putAll E r ns org al w1 = (w', evs, [])" by (cases e; auto)+
  show ?case
  proof (cases "(name, cr) = x")
    case True
    with x Cons.prems(2) have "name1 = name" "cr1 = cr" "name \<notin> fst ` set al" by auto
    with putAll_other [OF assms q, of "(ns_Name ns, name)"] putRoleBinding_ok [OF assms] p e show ?thesis by auto
  next
    case False
    with Cons.prems(3) have al: "(name, cr) \<in> set al" by simp
    then have "name \<in> fst ` set al" by force
    with Cons.prems(2) x have "name \<noteq> name1" by auto
    with Cons.IH [OF q _ al] Cons.prems(2) putRoleBinding_other [OF assms p] show ?thesis by auto
  qed
qed simp

section \<open>Properties\<close>

definition manages :: "'w OrganizationRBACReconciler \<Rightarrow> Namespace \<Rightarrow> bool" where
  "manages r ns \<longleftrightarrow> ns_DeletionTimestamp ns = None \<and> mstr (ns_Labels ns) (or_OrganizationLabel r) \<noteq> [] \<and>
     ParseBool (mstr (ns_Labels ns) LabelNamespaceNoRBAC) \<noteq> Some True"

lemma getOrganization_eq: "getOrganization r ns = mstr (ns_Labels ns) (or_OrganizationLabel r)"
  by (cases "ns_Labels ns") (auto simp: getOrganization_def)

lemma skipRBAC_eq: "skipRBACManagement ns \<longleftrightarrow> ParseBool (mstr (ns_Labels ns) LabelNamespaceNoRBAC) = Some True"
  by (cases "ns_Labels ns") (auto simp: skipRBACManagement_def ParseBool_def)

lemma or_Reconcile_managed:
  assumes "or_getNamespace r (req_Name req) w = Inr ns" and "manages r ns"
  shows "or_Reconcile E ord r req w =
    (case putAll E r ns (mstr (ns_Labels ns) (or_OrganizationLabel r)) (ord (entries (or_DefaultClusterRoles r))) w of
       (w', events, errs) \<Rightarrow> (w', events, multierr_Combine E errs))"
  using assms by (simp add: or_Reconcile_def manages_def getOrganization_eq skipRBAC_eq)

lemma or_Reconcile_wanted:
  assumes "combine_ok E" and "is_order ord" and "or_client_ok at r"
    and "or_getNamespace r (req_Name req) w = Inr ns" and "manages r ns"
    and "mwf (or_DefaultClusterRoles r)" and "or_Reconcile E ord r req w = (w', events, None)"
  shows "mget (or_DefaultClusterRoles r) name = Some cr \<Longrightarrow> at w' (ns_Name ns, name) =
      Some (desired ns name cr (mstr (ns_Labels ns) (or_OrganizationLabel r)) (at w (ns_Name ns, name)))"
    and "events = []"
    and "fst k \<noteq> ns_Name ns \<or> mget (or_DefaultClusterRoles r) (snd k) = None \<Longrightarrow> at w' k = at w k"
proof -
  let ?al = "entries (or_DefaultClusterRoles r)" and ?org = "mstr (ns_Labels ns) (or_OrganizationLabel r)"
  from assms(7) obtain errs where p: "putAll E r ns ?org (ord ?al) w = (w', events, errs)"
    and c: "multierr_Combine E errs = None"
    unfolding or_Reconcile_managed [OF assms(4,5)] by (auto split: prod.splits)
  have "errs = []" using c assms(1) putAll_errs [OF p] by (cases errs) (auto simp: combine_ok_def)
  with p have p: "putAll E r ns ?org (ord ?al) w = (w', events, [])" by simp
  have d: "distinct (map fst (ord ?al))" using is_order_keys [OF assms(2)] assms(6) by (simp add: mwf_def)
  have s: "set (ord ?al) = set ?al" using is_order_set [OF assms(2)] .
  show "at w' k = at w k" if "fst k \<noteq> ns_Name ns \<or> mget (or_DefaultClusterRoles r) (snd k) = None"
    using putAll_other [OF assms(3) p, of k] that by (cases k) (auto simp: s mget_def map_of_eq_None_iff)
  show "at w' (ns_Name ns, name) = Some (desired ns name cr ?org (at w (ns_Name ns, name)))"
    if "mget (or_DefaultClusterRoles r) name = Some cr"
    using putAll_ok [OF assms(3) p d] map_of_SomeD [OF that [unfolded mget_def]] by (simp add: s)
  show "events = []" using putAll_errs [OF p] by simp
qed

text \<open>
  When reconciling a namespace of an organization succeeds, every default role has its binding in
  the namespace: a new one, or one marked as uninitialized, binds the group of the organization, and one
  that is already initialized keeps its subjects, its labels and its role. No event is recorded, and no
  other binding is touched.
\<close>

theorem or_Reconcile_binds:
  assumes "combine_ok E" and "is_order ord" and "or_client_ok at r"
    and "or_getNamespace r (req_Name req) w = Inr ns" and "manages r ns"
    and "mwf (or_DefaultClusterRoles r)" and "or_Reconcile E ord r req w = (w', events, None)"
  shows "(\<forall>name cr. mget (or_DefaultClusterRoles r) name = Some cr \<longrightarrow>
            at w' (ns_Name ns, name) =
              Some (desired ns name cr (mstr (ns_Labels ns) (or_OrganizationLabel r)) (at w (ns_Name ns, name)))) \<and>
         events = [] \<and>
         (\<forall>k. fst k \<noteq> ns_Name ns \<or> mget (or_DefaultClusterRoles r) (snd k) = None \<longrightarrow> at w' k = at w k)"
  using or_Reconcile_wanted [OF assms] by blast

text \<open>
  The bindings of a namespace that is being deleted, that carries no organization, or that opts out
  with the label appuio.io/no-rbac-creation are left alone, and reconciling it is no error.
\<close>

theorem or_Reconcile_unmanaged:
  assumes "or_getNamespace r (req_Name req) w = Inr ns" and "\<not> manages r ns"
  shows "or_Reconcile E ord r req w = (w, [], None)"
  using assms by (auto simp: or_Reconcile_def manages_def getOrganization_eq skipRBAC_eq Let_def)

text \<open>
  Putting a role binding again after it was put successfully changes nothing: what the first call
  made of the binding is what the second wants.
\<close>

theorem putRoleBinding_settles:
  assumes "or_client_ok at r" and "putRoleBinding r ns name cr org w = (w1, None)"
    and "putRoleBinding r ns name cr' org w1 = (w2, None)"
  shows "at w2 = at w1"
proof -
  have ok: "cou_ok at rb_key (or_CreateOrUpdate r)" "rb_scr_ok (or_SetControllerReference r)"
    using assms(1) by (simp_all add: or_client_ok_def)
  from assms(2) obtain rb op where a: "or_CreateOrUpdate r (newRoleBinding ns name cr)
      (capturing_none (rb_mutate (or_SetControllerReference r) ns org)) () w = (w1, rb, (), op, None)"
    by (auto simp: putRoleBinding_def split: prod.splits)
  from assms(3) obtain rb' op' where b: "or_CreateOrUpdate r (newRoleBinding ns name cr')
      (capturing_none (rb_mutate (or_SetControllerReference r) ns org)) () w1 = (w2, rb', (), op', None)"
    by (auto simp: putRoleBinding_def split: prod.splits)
  show ?thesis by (rule mutation.second_call_settles [OF rb_mutation [OF ok(2)] ok(1) _ a b]) simp
qed

section \<open>A concrete controller\<close>

definition sample_orgns :: "string gomap \<Rightarrow> Namespace" where
  "sample_orgns labels = \<lparr>ns_Name = ''ns'', ns_Labels = labels, ns_Annotations = None, ns_DeletionTimestamp = None\<rparr>"

definition sample_or :: "string gomap \<Rightarrow> (string \<times> string \<Rightarrow> RoleBinding option) OrganizationRBACReconciler" where
  "sample_or labels =
     \<lparr>or_getNamespace = (\<lambda>n w. Inr (sample_orgns labels)), or_CreateOrUpdate = store_cou rb_key,
      or_SetControllerReference = (\<lambda>ns rb. (rb\<lparr>rb_Controller := Some (ns_Name ns)\<rparr>,
        if rb_Controller rb = None \<or> rb_Controller rb = Some (ns_Name ns) then None else Some (NewErr ''already owned''))),
      or_OrganizationLabel = ''org'', or_DefaultClusterRoles = Some [(''admin'', ''admin'')]\<rparr>"

lemma sample_or_ok: "or_client_ok (\<lambda>w. w) (sample_or labels)"
  by (auto simp: or_client_ok_def sample_or_def store_cou_ok rb_scr_ok_def scr_ok_def split: if_splits)

lemma sample_or_put:
  "\<exists>w'. putRoleBinding (sample_or labels) ns name cr org Map.empty = (w', None) \<and>
     (\<exists>w''. putRoleBinding (sample_or labels) ns name cr org w' = (w'', None))"
  by (simp add: putRoleBinding_def sample_or_def store_cou_def capturing_none_def rb_mutate_def Let_def)
     (simp add: newRoleBinding_def rb_key_def)

theorem putRoleBinding_settles_witness:
  "\<exists>w1 w2. putRoleBinding (sample_or None) (sample_orgns None) ''admin'' ''admin'' ''acme'' Map.empty = (w1, None) \<and>
     putRoleBinding (sample_or None) (sample_orgns None) ''admin'' ''admin'' ''acme'' w1 = (w2, None) \<and> w2 = w1"
  using sample_or_put [of None "sample_orgns None" "''admin''" "''admin''" "''acme''"] putRoleBinding_settles [OF sample_or_ok [of None]] by fast

theorem or_Reconcile_unmanaged_witness:
  "or_Reconcile sample_ext (\<lambda>al. al) (sample_or (Some [(''other'', ''x'')])) \<lparr>req_Namespace = [], req_Name = ''ns''\<rparr> Map.empty =
     (Map.empty, [], None)"
  by (rule or_Reconcile_unmanaged [of _ _ _ "sample_orgns (Some [(''other'', ''x'')])"])
     (simp_all add: sample_or_def manages_def sample_orgns_def mstr_def)

lemma sample_or_managed:
  "manages (sample_or (Some [(''org'', ''acme'')])) (sample_orgns (Some [(''org'', ''acme'')]))"
  by (simp add: manages_def sample_or_def sample_orgns_def mstr_def LabelNamespaceNoRBAC_def ParseBool_def)

lemma sample_or_fields:
  "or_getNamespace (sample_or l) n w = Inr (sample_orgns l)" "mwf (or_DefaultClusterRoles (sample_or l))"
  "mget (or_DefaultClusterRoles (sample_or l)) ''admin'' = Some ''admin''"
  "entries (or_DefaultClusterRoles (sample_or l)) = [(''admin'', ''admin'')]"
  by (simp_all add: sample_or_def)

lemma sample_or_Reconcile:
  "\<exists>w'. or_Reconcile sample_ext (\<lambda>al. al) (sample_or (Some [(''org'', ''acme'')])) \<lparr>req_Namespace = [], req_Name = ''ns''\<rparr> Map.empty = (w', [], None)"
proof -
  let ?l = "Some [(''org'', ''acme'')]"
  obtain w' where "putRoleBinding (sample_or ?l) (sample_orgns ?l) ''admin'' ''admin'' (mstr (ns_Labels (sample_orgns ?l)) (or_OrganizationLabel (sample_or ?l))) Map.empty = (w', None)"
    using sample_or_put by blast
  then show ?thesis
    unfolding or_Reconcile_managed [OF sample_or_fields(1) sample_or_managed] sample_or_fields
    using sample_ext_laws(1) by (simp add: combine_ok_def)
qed

theorem or_Reconcile_binds_witness:
  "\<exists>w' rb. or_Reconcile sample_ext (\<lambda>al. al) (sample_or (Some [(''org'', ''acme'')])) \<lparr>req_Namespace = [], req_Name = ''ns''\<rparr> Map.empty =
     (w', [], None) \<and> w' (''ns'', ''admin'') = Some rb \<and> rb_Subjects rb = [orgSubject ''acme'']"
proof -
  let ?l = "Some [(''org'', ''acme'')]"
  obtain w' where r: "or_Reconcile sample_ext (\<lambda>al. al) (sample_or ?l) \<lparr>req_Namespace = [], req_Name = ''ns''\<rparr> Map.empty = (w', [], None)"
    using sample_or_Reconcile by blast
  from or_Reconcile_binds [OF sample_ext_laws(1) is_order_id sample_or_ok sample_or_fields(1) sample_or_managed sample_or_fields(2) r]
    sample_or_fields(3) r show ?thesis
    by (auto simp: desired_def sample_orgns_def sample_or_def mstr_def)
qed

end
