(* ===== verification/GroupSync.thy ===== *)
theory GroupSync
  imports Cluster
begin

text \<open>
  controllers/groupsync_controller.go: groups of the cluster follow the teams and the members of the
  organizations on the control API. A finalizer on the upstream object keeps it until its group is gone.
\<close>

section \<open>The controller\<close>

record UserRef =
  ur_Name :: string

datatype UpstreamKind = TeamKind | OrganizationMembersKind

text \<open>A \<open>Team\<close> or an \<open>OrganizationMembers\<close> object: the fields the controller reads of either.\<close>

record Upstream =
  up_Kind :: UpstreamKind
  up_Namespace :: string
  up_Name :: string
  up_DeletionTimestamp :: "int option"
  up_Finalizers :: "string list"
  up_ResolvedUserRefs :: "UserRef list"

definition up_key :: "Upstream \<Rightarrow> UpstreamKind \<times> string \<times> string" where
  "up_key u = (up_Kind u, up_Namespace u, up_Name u)"

record 'w GroupSyncReconciler =
  gs_ForeignGet :: "UpstreamKind \<Rightarrow> string \<Rightarrow> string \<Rightarrow> 'w \<Rightarrow> err + Upstream"
  gs_ForeignUpdate :: "Upstream \<Rightarrow> 'w \<Rightarrow> 'w \<times> err option"
  gs_Delete :: "Group \<Rightarrow> 'w \<Rightarrow> 'w \<times> err option"
  gs_CreateOrUpdate :: "('w, Group, unit) CreateOrUpdate"
  ControlAPIFinalizerZoneName :: string

definition OrganizationMembersManifestName :: string where
  "OrganizationMembersManifestName = ''members''"

definition UpstreamFinalizerPrefix :: string where
  "UpstreamFinalizerPrefix = ''agent.appuio.io/group-zone-''"

text \<open>The upstream object of a group: a team if the name of the group has a plus sign.\<close>

definition upstreamOf :: "string \<Rightarrow> UpstreamKind \<times> string \<times> string" where
  "upstreamOf name =
     (if CHR ''+'' \<in> set name
      then (let nsn = SplitN2 (CHR ''+'') name in (TeamKind, nsn ! 0, nsn ! 1))
      else (OrganizationMembersKind, name, OrganizationMembersManifestName))"

definition group_mutate :: "UserRef list \<Rightarrow> Group \<Rightarrow> Group \<times> err option" where
  "group_mutate members grp = (grp\<lparr>grp_Users := sort (map ur_Name members)\<rparr>, None)"

definition gs_remove ::
    "finalizerFns \<Rightarrow> 'w GroupSyncReconciler \<Rightarrow> string \<Rightarrow> Group \<Rightarrow> Upstream \<Rightarrow> 'w \<Rightarrow> 'w \<times> err option" where
  "gs_remove F r finalizerName grp upstream w = (case gs_Delete r grp w of
      (w', err) \<Rightarrow>
        if (case err of None \<Rightarrow> False | Some e \<Rightarrow> \<not> IsNotFound e) then (w', err)
        else (case RemoveFinalizer F (up_Finalizers upstream) finalizerName of
            (finalizers, changed) \<Rightarrow>
              if changed then gs_ForeignUpdate r (upstream\<lparr>up_Finalizers := finalizers\<rparr>) w' else (w', None)))"

definition gs_sync ::
    "finalizerFns \<Rightarrow> 'w GroupSyncReconciler \<Rightarrow> string \<Rightarrow> Group \<Rightarrow> Upstream \<Rightarrow> 'w \<Rightarrow> 'w \<times> err option" where
  "gs_sync F r finalizerName grp upstream w =
     (case gs_CreateOrUpdate r grp (capturing_none (group_mutate (up_ResolvedUserRefs upstream))) () w of
        (w', grp', s, op, Some err) \<Rightarrow> (w', Some err)
      | (w', grp', s, op, None) \<Rightarrow>
          (case AddFinalizer F (up_Finalizers upstream) finalizerName of
             (finalizers, changed) \<Rightarrow>
               if changed then gs_ForeignUpdate r (upstream\<lparr>up_Finalizers := finalizers\<rparr>) w' else (w', None)))"

definition gs_Reconcile ::
    "finalizerFns \<Rightarrow> 'w GroupSyncReconciler \<Rightarrow> CtrlRequest \<Rightarrow> 'w \<Rightarrow> 'w \<times> err option" where
  "gs_Reconcile F r req w =
     (let finalizerName = UpstreamFinalizerPrefix @ ControlAPIFinalizerZoneName r;
          grp = \<lparr>grp_Name = req_Name req, grp_Users = []\<rparr>
      in case upstreamOf (req_Name req) of (kind, ns, name) \<Rightarrow>
        (case gs_ForeignGet r kind ns name w of
           Inl err \<Rightarrow> if IsNotFound err then (w, None) else (w, Some err)
         | Inr upstream \<Rightarrow>
             if up_DeletionTimestamp upstream \<noteq> None then gs_remove F r finalizerName grp upstream w
             else gs_sync F r finalizerName grp upstream w))"

text \<open>The watches on the control API: the group to reconcile for an upstream object.\<close>

definition teamMapper :: "Upstream \<Rightarrow> CtrlRequest list" where
  "teamMapper team = [\<lparr>req_Namespace = [], req_Name = up_Namespace team @ ''+'' @ up_Name team\<rparr>]"

definition organizationMembersMapper :: "Upstream \<Rightarrow> CtrlRequest list" where
  "organizationMembersMapper member = [\<lparr>req_Namespace = [], req_Name = up_Namespace member\<rparr>]"

section \<open>The contract of the clients\<close>

interpretation members: mutation "group_mutate refs" for refs
  by unfold_locales (auto simp: group_mutate_def)

text \<open>
  \<open>groups\<close> are the groups of the cluster that are not marked for deletion, \<open>ups\<close> the upstream objects.
  An update that takes the last finalizer of an object that is being deleted makes the object disappear.
\<close>

definition gs_get_ok :: "('w \<Rightarrow> UpstreamKind \<times> string \<times> string \<Rightarrow> Upstream option) \<Rightarrow> 'w GroupSyncReconciler \<Rightarrow> bool" where
  "gs_get_ok ups r \<longleftrightarrow>
     (\<forall>kind ns name w u. gs_ForeignGet r kind ns name w = Inr u \<longrightarrow>
        up_key u = (kind, ns, name) \<and> ups w (kind, ns, name) = Some u)"

definition gs_delete_ok ::
    "('w \<Rightarrow> string \<Rightarrow> Group option) \<Rightarrow> ('w \<Rightarrow> UpstreamKind \<times> string \<times> string \<Rightarrow> Upstream option)
      \<Rightarrow> 'w GroupSyncReconciler \<Rightarrow> bool" where
  "gs_delete_ok groups ups r \<longleftrightarrow>
     (\<forall>grp w w' e. gs_Delete r grp w = (w', e) \<longrightarrow>
        ups w' = ups w \<and> (\<forall>n. n \<noteq> grp_Name grp \<longrightarrow> groups w' n = groups w n) \<and>
        (e = None \<or> (\<exists>e'. e = Some e' \<and> IsNotFound e') \<longrightarrow> groups w' (grp_Name grp) = None))"

definition gs_update_ok ::
    "('w \<Rightarrow> string \<Rightarrow> Group option) \<Rightarrow> ('w \<Rightarrow> UpstreamKind \<times> string \<times> string \<Rightarrow> Upstream option)
      \<Rightarrow> 'w GroupSyncReconciler \<Rightarrow> bool" where
  "gs_update_ok groups ups r \<longleftrightarrow>
     (\<forall>u w w' e. gs_ForeignUpdate r u w = (w', e) \<longrightarrow>
        groups w' = groups w \<and> (\<forall>k. k \<noteq> up_key u \<longrightarrow> ups w' k = ups w k) \<and>
        (e = None \<longrightarrow> ups w' (up_key u) = Some u \<or> up_DeletionTimestamp u \<noteq> None \<and> ups w' (up_key u) = None))"

definition gs_client_ok ::
    "('w \<Rightarrow> string \<Rightarrow> Group option) \<Rightarrow> ('w \<Rightarrow> UpstreamKind \<times> string \<times> string \<Rightarrow> Upstream option)
      \<Rightarrow> 'w GroupSyncReconciler \<Rightarrow> bool" where
  "gs_client_ok groups ups r \<longleftrightarrow>
     cou_ok groups grp_Name (gs_CreateOrUpdate r) \<and> cou_frame ups (gs_CreateOrUpdate r) \<and>
     gs_get_ok ups r \<and> gs_delete_ok groups ups r \<and> gs_update_ok groups ups r"

definition gs_finalizer :: "'w GroupSyncReconciler \<Rightarrow> string" where
  "gs_finalizer r = UpstreamFinalizerPrefix @ ControlAPIFinalizerZoneName r"

lemma gs_updateD:
  assumes "gs_client_ok groups ups r" and "gs_ForeignUpdate r u w = (w', e)"
  shows "groups w' = groups w" and "k \<noteq> up_key u \<Longrightarrow> ups w' k = ups w k"
    and "e = None \<Longrightarrow> ups w' (up_key u) = Some u \<or> up_DeletionTimestamp u \<noteq> None \<and> ups w' (up_key u) = None"
proof -
  have "gs_update_ok groups ups r" using assms(1) by (simp only: gs_client_ok_def)
  note this [unfolded gs_update_ok_def, rule_format, OF assms(2)]
  then show "groups w' = groups w" "k \<noteq> up_key u \<Longrightarrow> ups w' k = ups w k"
    "e = None \<Longrightarrow> ups w' (up_key u) = Some u \<or> up_DeletionTimestamp u \<noteq> None \<and> ups w' (up_key u) = None"
    by blast+
qed

lemma gs_deleteD:
  assumes "gs_client_ok groups ups r" and "gs_Delete r grp w = (w', e)"
  shows "ups w' = ups w" and "n \<noteq> grp_Name grp \<Longrightarrow> groups w' n = groups w n"
    and "e = None \<or> (\<exists>e'. e = Some e' \<and> IsNotFound e') \<Longrightarrow> groups w' (grp_Name grp) = None"
proof -
  have "gs_delete_ok groups ups r" using assms(1) by (simp only: gs_client_ok_def)
  note this [unfolded gs_delete_ok_def, rule_format, OF assms(2)]
  then show "ups w' = ups w" "n \<noteq> grp_Name grp \<Longrightarrow> groups w' n = groups w n"
    "e = None \<or> (\<exists>e'. e = Some e' \<and> IsNotFound e') \<Longrightarrow> groups w' (grp_Name grp) = None"
    by blast+
qed

lemma gs_getD:
  assumes "gs_client_ok groups ups r" and "gs_ForeignGet r kind ns name w = Inr u"
  shows "up_key u = (kind, ns, name)" and "ups w (kind, ns, name) = Some u"
proof -
  have "gs_get_ok ups r" using assms(1) by (simp only: gs_client_ok_def)
  from this [unfolded gs_get_ok_def, rule_format, OF assms(2)]
  show "up_key u = (kind, ns, name)" "ups w (kind, ns, name) = Some u" by simp_all
qed

lemma gs_couD:
  assumes "gs_client_ok groups ups r" and "gs_CreateOrUpdate r grp f s w = (w', grp', s', op, e)"
  shows "ups w' = ups w"
proof -
  have "cou_frame ups (gs_CreateOrUpdate r)" using assms(1) by (simp only: gs_client_ok_def)
  then have "ups (fst (gs_CreateOrUpdate r grp f s w)) = ups w" by (simp add: cou_frame_def)
  then show ?thesis using assms(2) by simp
qed

lemma up_key_update [simp]: "up_key (u\<lparr>up_Finalizers := fs\<rparr>) = up_key u"
  by (simp add: up_key_def)

lemma finalizersD:
  assumes "finalizers_ok F"
  shows "AddFinalizer F fs f = (fs', c) \<Longrightarrow> set fs' = insert f (set fs) \<and> c = (f \<notin> set fs)"
    and "RemoveFinalizer F fs f = (fs', c) \<Longrightarrow> set fs' = set fs - {f} \<and> c = (f \<in> set fs)"
  using assms unfolding finalizers_ok_def by (metis fst_conv snd_conv)+

section \<open>Properties\<close>

text \<open>
  The name that a watch makes from a team or from the members of an organization leads the
  reconciler back to the same upstream object, if the namespace has no plus sign (which no namespace
  has).
\<close>

theorem mappers_roundtrip:
  assumes "CHR ''+'' \<notin> set (up_Namespace u)"
  shows "(up_Kind u = TeamKind \<longrightarrow> map (upstreamOf \<circ> req_Name) (teamMapper u) = [up_key u]) \<and>
         (up_Kind u = OrganizationMembersKind \<and> up_Name u = OrganizationMembersManifestName \<longrightarrow>
            map (upstreamOf \<circ> req_Name) (organizationMembersMapper u) = [up_key u])"
  using assms by (auto simp: teamMapper_def organizationMembersMapper_def upstreamOf_def up_key_def Let_def SplitN2_append)

lemma gs_sync_ok:
  assumes "finalizers_ok F" and "gs_client_ok groups ups r"
    and "gs_ForeignGet r kind ns name w = Inr u" and "up_DeletionTimestamp u = None"
    and "gs_sync F r (gs_finalizer r) \<lparr>grp_Name = n, grp_Users = []\<rparr> u w = (w', None)"
  shows "\<exists>grp. groups w' n = Some grp \<and> grp_Users grp = sort (map ur_Name (up_ResolvedUserRefs u))"
    and "\<exists>u'. ups w' (kind, ns, name) = Some u' \<and> set (up_Finalizers u') = insert (gs_finalizer r) (set (up_Finalizers u)) \<and>
            up_ResolvedUserRefs u' = up_ResolvedUserRefs u"
    and "m \<noteq> n \<Longrightarrow> groups w' m = groups w m" and "k \<noteq> (kind, ns, name) \<Longrightarrow> ups w' k = ups w k"
proof -
  let ?grp = "\<lparr>grp_Name = n, grp_Users = []\<rparr>" and ?f = "capturing_none (group_mutate (up_ResolvedUserRefs u))"
  note s = assms(5)
  from s obtain w1 grp' op where c: "gs_CreateOrUpdate r ?grp ?f () w = (w1, grp', (), op, None)"
    by (auto simp: gs_sync_def split: prod.splits option.splits)
  obtain fs ch where a: "AddFinalizer F (up_Finalizers u) (gs_finalizer r) = (fs, ch)" by (cases "AddFinalizer F (up_Finalizers u) (gs_finalizer r)")
  have cok: "cou_ok groups grp_Name (gs_CreateOrUpdate r)" using assms(2) by (simp add: gs_client_ok_def)
  have g: "groups w1 n = Some grp'" "grp_Users grp' = sort (map ur_Name (up_ResolvedUserRefs u))"
    using cou_stored [OF cok c] by (auto simp: capturing_none_def group_mutate_def)
  have o: "m \<noteq> n \<Longrightarrow> groups w1 m = groups w m" for m using cou_other [OF cok c] by simp
  note u = gs_couD [OF assms(2) c] and k = gs_getD [OF assms(2,3)] and f = finalizersD(1) [OF assms(1) a]
  have w: "groups w' = groups w1 \<and> (\<forall>k. k \<noteq> (kind, ns, name) \<longrightarrow> ups w' k = ups w k) \<and>
    ups w' (kind, ns, name) = Some (if ch then u\<lparr>up_Finalizers := fs\<rparr> else u)"
  proof (cases ch)
    case True
    with s c a have "gs_ForeignUpdate r (u\<lparr>up_Finalizers := fs\<rparr>) w1 = (w', None)" by (simp add: gs_sync_def)
    note d = gs_updateD [OF assms(2) this]
    from d(3) assms(4) have "ups w' (kind, ns, name) = Some (u\<lparr>up_Finalizers := fs\<rparr>)" by (simp add: k)
    with d(1,2) True u k show ?thesis by auto
  next
    case False
    with s c a have "w' = w1" by (simp add: gs_sync_def)
    with False u k show ?thesis by simp
  qed
  then show "k \<noteq> (kind, ns, name) \<Longrightarrow> ups w' k = ups w k" by blast
  from w g o f show "\<exists>grp. groups w' n = Some grp \<and> grp_Users grp = sort (map ur_Name (up_ResolvedUserRefs u))"
    "\<exists>u'. ups w' (kind, ns, name) = Some u' \<and> set (up_Finalizers u') = insert (gs_finalizer r) (set (up_Finalizers u)) \<and>
            up_ResolvedUserRefs u' = up_ResolvedUserRefs u"
    "m \<noteq> n \<Longrightarrow> groups w' m = groups w m" by auto
qed

text \<open>
  When reconciling a group whose upstream object exists and is not being deleted succeeds, the
  group consists of exactly the resolved members of the upstream object, in sorted order, the upstream
  object carries the finalizer of this zone, and no other group or upstream object has changed.
\<close>

theorem gs_Reconcile_syncs:
  assumes "finalizers_ok F" and "gs_client_ok groups ups r" and "upstreamOf (req_Name req) = (kind, ns, name)"
    and "gs_ForeignGet r kind ns name w = Inr u" and "up_DeletionTimestamp u = None"
    and "gs_Reconcile F r req w = (w', None)"
  shows "(\<exists>grp. groups w' (req_Name req) = Some grp \<and> grp_Users grp = sort (map ur_Name (up_ResolvedUserRefs u))) \<and>
         (\<exists>u'. ups w' (kind, ns, name) = Some u' \<and> set (up_Finalizers u') = insert (gs_finalizer r) (set (up_Finalizers u)) \<and>
               up_ResolvedUserRefs u' = up_ResolvedUserRefs u) \<and>
         (\<forall>n. n \<noteq> req_Name req \<longrightarrow> groups w' n = groups w n) \<and>
         (\<forall>k. k \<noteq> (kind, ns, name) \<longrightarrow> ups w' k = ups w k)"
proof -
  have "gs_sync F r (gs_finalizer r) \<lparr>grp_Name = req_Name req, grp_Users = []\<rparr> u w = (w', None)"
    using assms(3-6) by (simp add: gs_Reconcile_def gs_finalizer_def Let_def)
  note gs_sync_ok [OF assms(1,2,4,5) this]
  then show ?thesis by blast
qed

text \<open>
  Whatever the outcome of a reconciliation, if an upstream object has lost the finalizer of this zone,
  or has disappeared while it carried it, then it is the upstream object of the reconciled group, it was
  being deleted, and the group is gone.
\<close>

lemma gs_finalizer_guards_group:
  assumes "finalizers_ok F" and "gs_client_ok groups ups r" and "gs_Reconcile F r req w = (w', e)"
    and "ups w k = Some u" and "gs_finalizer r \<in> set (up_Finalizers u)"
    and "\<not> (\<exists>u'. ups w' k = Some u' \<and> gs_finalizer r \<in> set (up_Finalizers u'))"
  shows "k = upstreamOf (req_Name req) \<and> up_DeletionTimestamp u \<noteq> None \<and> groups w' (req_Name req) = None"
proof -
  let ?grp = "\<lparr>grp_Name = req_Name req, grp_Users = []\<rparr>" and ?fin = "gs_finalizer r"
  obtain kind ns name where key: "upstreamOf (req_Name req) = (kind, ns, name)" by (cases "upstreamOf (req_Name req)") auto
  have lost: "ups w' k \<noteq> ups w k" using assms(4-6) by auto
  show ?thesis
  proof (cases "gs_ForeignGet r kind ns name w")
    case (Inl err)
    then have "w' = w" using assms(3) key by (auto simp: gs_Reconcile_def Let_def split: if_splits)
    with lost show ?thesis by simp
  next
    case (Inr v)
    note v = gs_getD [OF assms(2) Inr]
    show ?thesis
    proof (cases "up_DeletionTimestamp v")
      case None
      then have s: "gs_sync F r ?fin ?grp v w = (w', e)"
        using assms(3) key Inr by (simp add: gs_Reconcile_def gs_finalizer_def Let_def)
      obtain w1 grp' s' op e1 where c: "gs_CreateOrUpdate r ?grp (capturing_none (group_mutate (up_ResolvedUserRefs v))) () w = (w1, grp', s', op, e1)"
        by (cases "gs_CreateOrUpdate r ?grp (capturing_none (group_mutate (up_ResolvedUserRefs v))) () w") auto
      obtain fs ch where a: "AddFinalizer F (up_Finalizers v) ?fin = (fs, ch)" by (cases "AddFinalizer F (up_Finalizers v) ?fin")
      note u1 = gs_couD [OF assms(2) c] and f = finalizersD(1) [OF assms(1) a]
      from lost s c a u1 have ch: ch and up: "gs_ForeignUpdate r (v\<lparr>up_Finalizers := fs\<rparr>) w1 = (w', e)"
        by (auto simp: gs_sync_def split: option.splits if_splits)
      from gs_updateD(2) [OF assms(2) up, of k] lost u1 v(1) have "k = (kind, ns, name)" by auto
      with v(2) assms(4,5) f ch show ?thesis by simp
    next
      case (Some t)
      then have s: "gs_remove F r ?fin ?grp v w = (w', e)"
        using assms(3) key Inr by (simp add: gs_Reconcile_def gs_finalizer_def Let_def)
      obtain w1 e1 where d: "gs_Delete r ?grp w = (w1, e1)" by (cases "gs_Delete r ?grp w")
      obtain fs ch where a: "RemoveFinalizer F (up_Finalizers v) ?fin = (fs, ch)" by (cases "RemoveFinalizer F (up_Finalizers v) ?fin")
      note u1 = gs_deleteD [OF assms(2) d]
      from lost s d a u1(1) have up: "gs_ForeignUpdate r (v\<lparr>up_Finalizers := fs\<rparr>) w1 = (w', e)"
        and ok: "e1 = None \<or> (\<exists>e'. e1 = Some e' \<and> IsNotFound e')"
        by (auto simp: gs_remove_def split: option.splits if_splits)
      from gs_updateD(2) [OF assms(2) up, of k] lost u1(1) v(1) have "k = (kind, ns, name)" by auto
      with v(2) assms(4) Some key u1(3) [OF ok] gs_updateD(1) [OF assms(2) up] show ?thesis by simp
    qed
  qed
qed

section \<open>A concrete controller\<close>

text \<open>A world is a pair of the groups and the upstream objects.\<close>

type_synonym gs_world = "(string \<Rightarrow> Group option) \<times> (UpstreamKind \<times> string \<times> string \<Rightarrow> Upstream option)"

definition sample_gs :: "gs_world GroupSyncReconciler" where
  "sample_gs =
     \<lparr>gs_ForeignGet = (\<lambda>kind ns name w. case snd w (kind, ns, name) of
        Some u \<Rightarrow> if up_key u = (kind, ns, name) then Inr u else Inl (NotFound name) | None \<Rightarrow> Inl (NotFound name)),
      gs_ForeignUpdate = (\<lambda>u w. ((fst w, (snd w)(up_key u := if up_DeletionTimestamp u \<noteq> None \<and> up_Finalizers u = [] then None else Some u)), None)),
      gs_Delete = (\<lambda>grp w. (((fst w)(grp_Name grp := None), snd w), if fst w (grp_Name grp) = None then Some (NotFound (grp_Name grp)) else None)),
      gs_CreateOrUpdate = (\<lambda>obj f s w. case store_cou grp_Name obj f s (fst w) of (g, r) \<Rightarrow> ((g, snd w), r)),
      ControlAPIFinalizerZoneName = ''z1''\<rparr>"

lemma sample_gs_ok: "gs_client_ok fst snd sample_gs"
proof -
  have "cou_ok fst grp_Name (gs_CreateOrUpdate sample_gs)"
    unfolding cou_ok_def sample_gs_def store_cou_def by (auto split: option.splits prod.splits)
  moreover have "cou_frame snd (gs_CreateOrUpdate sample_gs)"
    unfolding cou_frame_def sample_gs_def by (auto split: prod.splits)
  ultimately show ?thesis by (auto simp: gs_client_ok_def gs_get_ok_def gs_delete_ok_def gs_update_ok_def sample_gs_def split: option.splits if_splits)
qed

definition sample_team :: "int option \<Rightarrow> string list \<Rightarrow> Upstream" where
  "sample_team t fs = \<lparr>up_Kind = TeamKind, up_Namespace = ''acme'', up_Name = ''dev'', up_DeletionTimestamp = t,
     up_Finalizers = fs, up_ResolvedUserRefs = [\<lparr>ur_Name = ''bob''\<rparr>, \<lparr>ur_Name = ''alice''\<rparr>]\<rparr>"

definition sample_gs_world :: "int option \<Rightarrow> string list \<Rightarrow> gs_world" where
  "sample_gs_world t fs = ([''acme+dev'' \<mapsto> \<lparr>grp_Name = ''acme+dev'', grp_Users = []\<rparr>],
     [(TeamKind, ''acme'', ''dev'') \<mapsto> sample_team t fs])"

definition sample_gs_req :: CtrlRequest where
  "sample_gs_req = \<lparr>req_Namespace = [], req_Name = ''acme+dev''\<rparr>"

lemma sample_gs_key: "upstreamOf (req_Name sample_gs_req) = (TeamKind, ''acme'', ''dev'')"
  by (simp add: upstreamOf_def sample_gs_req_def SplitN2_def)

lemma sample_gs_get: "gs_ForeignGet sample_gs TeamKind ''acme'' ''dev'' (sample_gs_world t fs) = Inr (sample_team t fs)"
  by (simp add: sample_gs_def sample_gs_world_def sample_team_def up_key_def)

theorem mappers_roundtrip_witness:
  "map (upstreamOf \<circ> req_Name) (teamMapper (sample_team None [])) = [(TeamKind, ''acme'', ''dev'')]"
  using mappers_roundtrip [of "sample_team None []"] by (simp add: sample_team_def up_key_def)

lemma sample_gs_Reconcile: "\<exists>w'. gs_Reconcile sample_finalizers sample_gs sample_gs_req (sample_gs_world None []) = (w', None)"
  unfolding gs_Reconcile_def Let_def sample_gs_key
  by (simp add: sample_gs_get, simp add: sample_team_def gs_sync_def, simp add: sample_gs_def store_cou_def capturing_none_def group_mutate_def sample_finalizers_def)

theorem gs_Reconcile_syncs_witness:
  "\<exists>w' grp. gs_Reconcile sample_finalizers sample_gs sample_gs_req (sample_gs_world None []) = (w', None) \<and>
     fst w' ''acme+dev'' = Some grp \<and> grp_Users grp = [''alice'', ''bob'']"
proof -
  obtain w' where r: "gs_Reconcile sample_finalizers sample_gs sample_gs_req (sample_gs_world None []) = (w', None)"
    using sample_gs_Reconcile by blast
  have n: "up_DeletionTimestamp (sample_team None []) = None" by (simp add: sample_team_def)
  from gs_Reconcile_syncs [OF sample_finalizers_ok sample_gs_ok sample_gs_key sample_gs_get n r] r show ?thesis
    by (auto simp: sample_gs_req_def sample_team_def)
qed

lemma sample_gs_removed:
  "gs_Reconcile sample_finalizers sample_gs sample_gs_req (sample_gs_world (Some 1) [gs_finalizer sample_gs]) =
     ((Map.empty, Map.empty), None)"
  unfolding gs_Reconcile_def Let_def sample_gs_key
  by (simp add: sample_gs_get, simp add: sample_team_def gs_remove_def, simp add: sample_gs_def gs_finalizer_def sample_finalizers_def
      up_key_def sample_gs_world_def sample_gs_req_def)

end
