(* ===== verification/GroupLifecycle.thy ===== *)
theory GroupLifecycle
  imports GroupSync
begin

text \<open>
  The life of a group and of its upstream object over any sequence of reconciliations, interleaved with
  what the users of the control API, its server and the agents of other zones do. The state is the world
  with its two views \<open>groups\<close> and \<open>ups\<close>, and the names of the groups whose creation was interrupted; a step is one
  reconciliation, however it ends, or one move of the others.
\<close>

section \<open>Names\<close>

lemma split_at_plus: "CHR ''+'' \<in> set n \<Longrightarrow> n = takeWhile (\<lambda>x. x \<noteq> CHR ''+'') n @ CHR ''+'' # tl (dropWhile (\<lambda>x. x \<noteq> CHR ''+'') n)"
  by (induction n) auto

lemma upstreamOf_inj: "upstreamOf n = upstreamOf m \<Longrightarrow> n = m"
  using split_at_plus [of n] split_at_plus [of m] by (auto simp: upstreamOf_def SplitN2_def Let_def split: if_splits)

section \<open>Steps\<close>

text \<open>
  The finalizer of the zone is on the upstream object of the group \<open>n\<close>.
\<close>

definition guarded :: "('w \<Rightarrow> UpstreamKind \<times> string \<times> string \<Rightarrow> Upstream option) \<Rightarrow> 'w GroupSyncReconciler \<Rightarrow> string \<Rightarrow> 'w \<Rightarrow> bool" where
  "guarded ups r n w \<longleftrightarrow> (\<exists>u. ups w (upstreamOf n) = Some u \<and> gs_finalizer r \<in> set (up_Finalizers u))"

text \<open>
  The others create, change and delete upstream objects, and other zones set and remove their finalizers.
  They leave the groups of this zone alone and do not touch its finalizer, and the server keeps an object
  that has one and does not take back its deletion.
\<close>

definition others_move ::
    "('w \<Rightarrow> string \<Rightarrow> Group option) \<Rightarrow> ('w \<Rightarrow> UpstreamKind \<times> string \<times> string \<Rightarrow> Upstream option)
      \<Rightarrow> 'w GroupSyncReconciler \<Rightarrow> 'w \<Rightarrow> 'w \<Rightarrow> bool" where
  "others_move groups ups r w w' \<longleftrightarrow> groups w' = groups w \<and>
     (\<forall>k u. ups w k = Some u \<and> gs_finalizer r \<in> set (up_Finalizers u) \<longrightarrow>
        (\<exists>u'. ups w' k = Some u' \<and> gs_finalizer r \<in> set (up_Finalizers u') \<and>
              (up_DeletionTimestamp u \<noteq> None \<longrightarrow> up_DeletionTimestamp u' \<noteq> None)))"

text \<open>
  An attempt that is interrupted: the group is created, but an error comes before the finalizer is set. The group stays open
  until an attempt that finds the upstream object succeeds.
\<close>

definition interrupted :: "('w \<Rightarrow> string \<Rightarrow> Group option) \<Rightarrow> CtrlRequest \<Rightarrow> 'w \<Rightarrow> 'w \<times> err option \<Rightarrow> bool" where
  "interrupted groups req w res \<longleftrightarrow>
     snd res \<noteq> None \<and> groups w (req_Name req) = None \<and> groups (fst res) (req_Name req) \<noteq> None"

definition completed_attempt :: "'w GroupSyncReconciler \<Rightarrow> CtrlRequest \<Rightarrow> 'w \<Rightarrow> 'w \<times> err option \<Rightarrow> bool" where
  "completed_attempt r req w res \<longleftrightarrow> snd res = None \<and>
     (case upstreamOf (req_Name req) of (kind, ns, name) \<Rightarrow> \<exists>u. gs_ForeignGet r kind ns name w = Inr u)"

definition open_after ::
    "('w \<Rightarrow> string \<Rightarrow> Group option) \<Rightarrow> 'w GroupSyncReconciler \<Rightarrow> CtrlRequest \<Rightarrow> 'w \<Rightarrow> 'w \<times> err option
      \<Rightarrow> string set \<Rightarrow> string set" where
  "open_after groups r req w res opened =
     (if interrupted groups req w res then insert (req_Name req) opened
      else if completed_attempt r req w res then opened - {req_Name req} else opened)"

inductive life_step ::
    "('w \<Rightarrow> string \<Rightarrow> Group option) \<Rightarrow> ('w \<Rightarrow> UpstreamKind \<times> string \<times> string \<Rightarrow> Upstream option)
      \<Rightarrow> finalizerFns \<Rightarrow> 'w GroupSyncReconciler \<Rightarrow> 'w \<times> string set \<Rightarrow> 'w \<times> string set \<Rightarrow> bool"
  for groups ups F r where
  others: "others_move groups ups r w w' \<Longrightarrow> life_step groups ups F r (w, opened) (w', opened)"
| reconcile: "gs_Reconcile F r req w = (w', e) \<Longrightarrow>
    life_step groups ups F r (w, opened) (w', open_after groups r req w (w', e) opened)"

section \<open>What a reconciliation does\<close>

text \<open>A reconciliation does one of three things.\<close>

lemma gs_Reconcile_cases:
  assumes "gs_Reconcile F r req w = (w', e)" and "upstreamOf (req_Name req) = (kind, ns, name)"
  obtains (missing) err where "gs_ForeignGet r kind ns name w = Inl err" and "w' = w" and "e = None \<longrightarrow> IsNotFound err"
  | (sync) u where "gs_ForeignGet r kind ns name w = Inr u" and "up_DeletionTimestamp u = None"
      and "gs_sync F r (gs_finalizer r) \<lparr>grp_Name = req_Name req, grp_Users = []\<rparr> u w = (w', e)"
  | (remove) u t where "gs_ForeignGet r kind ns name w = Inr u" and "up_DeletionTimestamp u = Some t"
      and "gs_remove F r (gs_finalizer r) \<lparr>grp_Name = req_Name req, grp_Users = []\<rparr> u w = (w', e)"
  using assms by (cases "gs_ForeignGet r kind ns name w") (auto simp: gs_Reconcile_def gs_finalizer_def Let_def split: if_splits)

lemma gs_sync_cases:
  assumes "gs_sync F r f grp u w = (w', e)"
  obtains w1 grp' s op e1 fs ch where
    "gs_CreateOrUpdate r grp (capturing_none (group_mutate (up_ResolvedUserRefs u))) () w = (w1, grp', s, op, e1)"
    and "AddFinalizer F (up_Finalizers u) f = (fs, ch)"
    and "w' = w1 \<or> ch \<and> gs_ForeignUpdate r (u\<lparr>up_Finalizers := fs\<rparr>) w1 = (w', e)"
proof -
  obtain w1 grp' s op e1 where c: "gs_CreateOrUpdate r grp (capturing_none (group_mutate (up_ResolvedUserRefs u))) () w = (w1, grp', s, op, e1)"
    by (cases "gs_CreateOrUpdate r grp (capturing_none (group_mutate (up_ResolvedUserRefs u))) () w") auto
  obtain fs ch where a: "AddFinalizer F (up_Finalizers u) f = (fs, ch)" by (cases "AddFinalizer F (up_Finalizers u) f")
  show ?thesis using assms c a by (intro that [OF c a]) (cases e1; cases ch; simp add: gs_sync_def)
qed

lemma gs_remove_cases:
  assumes "gs_remove F r f grp u w = (w', e)"
  obtains w1 e1 fs ch where "gs_Delete r grp w = (w1, e1)" and "RemoveFinalizer F (up_Finalizers u) f = (fs, ch)"
    and "w' = w1 \<or> ch \<and> gs_ForeignUpdate r (u\<lparr>up_Finalizers := fs\<rparr>) w1 = (w', e)"
proof -
  obtain w1 e1 where d: "gs_Delete r grp w = (w1, e1)" by (cases "gs_Delete r grp w")
  obtain fs ch where a: "RemoveFinalizer F (up_Finalizers u) f = (fs, ch)" by (cases "RemoveFinalizer F (up_Finalizers u) f")
  show ?thesis using assms d a by (intro that [OF d a]) (cases e1; cases ch; simp add: gs_remove_def split: if_splits)
qed

lemma written_back:
  assumes "gs_client_ok groups ups r" and "w' = w1 \<or> ch \<and> gs_ForeignUpdate r (u\<lparr>up_Finalizers := fs\<rparr>) w1 = (w', e)"
  shows "groups w' = groups w1" and "k \<noteq> up_key u \<Longrightarrow> ups w' k = ups w1 k"
proof -
  show "groups w' = groups w1" using assms(2) by (rule disjE) (simp, erule conjE, erule gs_updateD(1) [OF assms(1)])
  show "k \<noteq> up_key u \<Longrightarrow> ups w' k = ups w1 k"
    using assms(2) by (rule disjE) (simp, erule conjE, erule gs_updateD(2) [OF assms(1)], simp)
qed

text \<open>It leaves the other groups alone, and the other upstream objects.\<close>

lemma gs_Reconcile_other:
  assumes "gs_client_ok groups ups r" and "gs_Reconcile F r req w = (w', e)"
  shows "n \<noteq> req_Name req \<Longrightarrow> groups w' n = groups w n" and "k \<noteq> upstreamOf (req_Name req) \<Longrightarrow> ups w' k = ups w k"
proof -
  obtain kind ns name where key: "upstreamOf (req_Name req) = (kind, ns, name)" by (cases "upstreamOf (req_Name req)") auto
  have cok: "cou_ok groups grp_Name (gs_CreateOrUpdate r)" using assms(1) by (simp add: gs_client_ok_def)
  have "(n \<noteq> req_Name req \<longrightarrow> groups w' n = groups w n) \<and> (k \<noteq> (kind, ns, name) \<longrightarrow> ups w' k = ups w k)"
    using assms(2) key
  proof (cases rule: gs_Reconcile_cases)
    case (sync u)
    from sync(3) show ?thesis
    proof (cases rule: gs_sync_cases)
      case (1 w1 grp' s op e1 fs ch)
      from written_back [OF assms(1) 1(3)] cou_other [OF cok 1(1)] gs_couD [OF assms(1) 1(1)] gs_getD(1) [OF assms(1) sync(1)]
      show ?thesis by simp
    qed
  next
    case (remove u t)
    from remove(3) show ?thesis
    proof (cases rule: gs_remove_cases)
      case (1 w1 e1 fs ch)
      from written_back [OF assms(1) 1(3)] gs_deleteD(1,2) [OF assms(1) 1(1)]
        gs_getD(1) [OF assms(1) remove(1)]
      show ?thesis by simp
    qed
  qed simp
  with key show "n \<noteq> req_Name req \<Longrightarrow> groups w' n = groups w n" and "k \<noteq> upstreamOf (req_Name req) \<Longrightarrow> ups w' k = ups w k"
    by auto
qed

text \<open>A reconciliation without an error ends with the group guarded, or gone if the object is being deleted.\<close>

lemma gs_Reconcile_ok:
  assumes "finalizers_ok F" and "gs_client_ok groups ups r" and "gs_Reconcile F r req w = (w', None)"
    and "upstreamOf (req_Name req) = (kind, ns, name)" and "gs_ForeignGet r kind ns name w = Inr u"
  shows "if up_DeletionTimestamp u = None then guarded ups r (req_Name req) w'
         else groups w' (req_Name req) = None \<and> \<not> guarded ups r (req_Name req) w'"
proof (cases "up_DeletionTimestamp u")
  case None
  then have "gs_sync F r (gs_finalizer r) \<lparr>grp_Name = req_Name req, grp_Users = []\<rparr> u w = (w', None)"
    using assms(3-5) by (simp add: gs_Reconcile_def gs_finalizer_def Let_def)
  from gs_sync_ok(2) [OF assms(1,2,5) None this] None show ?thesis by (auto simp: guarded_def assms(4))
next
  case (Some t)
  let ?grp = "\<lparr>grp_Name = req_Name req, grp_Users = []\<rparr>"
  from Some have s: "gs_remove F r (gs_finalizer r) ?grp u w = (w', None)"
    using assms(3-5) by (simp add: gs_Reconcile_def gs_finalizer_def Let_def)
  obtain w1 e1 where d: "gs_Delete r ?grp w = (w1, e1)" by (cases "gs_Delete r ?grp w")
  obtain fs ch where a: "RemoveFinalizer F (up_Finalizers u) (gs_finalizer r) = (fs, ch)"
    by (cases "RemoveFinalizer F (up_Finalizers u) (gs_finalizer r)")
  note u = gs_getD [OF assms(2,5)] and f = finalizersD(2) [OF assms(1) a] and d1 = gs_deleteD [OF assms(2) d]
  from s d have ok: "e1 = None \<or> (\<exists>e'. e1 = Some e' \<and> IsNotFound e')"
    by (cases e1) (simp_all add: gs_remove_def split: if_splits)
  note gone = d1(3) [OF ok]
  show ?thesis
  proof (cases ch)
    case True
    with s d a ok have up: "gs_ForeignUpdate r (u\<lparr>up_Finalizers := fs\<rparr>) w1 = (w', None)"
      by (cases e1) (simp_all add: gs_remove_def)
    from gs_updateD(3) [OF assms(2) up refl]
    have "ups w' (kind, ns, name) = Some (u\<lparr>up_Finalizers := fs\<rparr>) \<or> ups w' (kind, ns, name) = None" unfolding up_key_update u(1)
      by (elim disjE conjE) (rule disjI1, assumption, rule disjI2, assumption)
    then have "\<not> guarded ups r (req_Name req) w'" unfolding guarded_def assms(4) by (elim disjE) (simp_all add: f(1))
    with gs_updateD(1) [OF assms(2) up] gone Some show ?thesis by simp
  next
    case False
    with s d a ok have "w' = w1" by (cases e1) (simp_all add: gs_remove_def)
    with False f gone Some d1(1) u show ?thesis by (simp add: guarded_def assms(4))
  qed
qed

lemma gs_Reconcile_absent:
  assumes "upstreamOf (req_Name req) = (kind, ns, name)" and "gs_ForeignGet r kind ns name w = Inl err"
    and "gs_Reconcile F r req w = (w', e)"
  shows "w' = w"
  using assms by (auto simp: gs_Reconcile_def Let_def split: if_splits)

section \<open>Invariant\<close>

lemma gs_Reconcile_guarded:
  assumes "finalizers_ok F" and "gs_client_ok groups ups r" and "gs_Reconcile F r req w = (w', e)" and "guarded ups r n w"
  shows "groups w' n = None \<and> n = req_Name req \<or> guarded ups r n w'"
proof -
  from assms(4) obtain u where u: "ups w (upstreamOf n) = Some u" "gs_finalizer r \<in> set (up_Finalizers u)" by (auto simp: guarded_def)
  show ?thesis using gs_finalizer_guards_group [OF assms(1-3) u] upstreamOf_inj by (auto simp: guarded_def)
qed

lemma reconcile_guarded:
  assumes "finalizers_ok F" and "gs_client_ok groups ups r" and "gs_Reconcile F r req w = (w', e)"
    and "groups w n = None \<or> guarded ups r n w \<or> n \<in> opened"
  shows "groups w' n = None \<or> guarded ups r n w' \<or> n \<in> open_after groups r req w (w', e) opened"
proof (cases "n = req_Name req")
  case False
  with gs_Reconcile_guarded [OF assms(1-3)] assms(4) gs_Reconcile_other(1) [OF assms(2,3) False] show ?thesis
    by (auto simp: open_after_def)
next
  case n: True
  obtain kind ns name where key: "upstreamOf (req_Name req) = (kind, ns, name)" by (cases "upstreamOf (req_Name req)") auto
  show ?thesis
  proof (cases e)
    case (Some err)
    with n gs_Reconcile_guarded [OF assms(1-3), of n] assms(4) show ?thesis
      by (auto simp: open_after_def interrupted_def completed_attempt_def)
  next
    case None
    show ?thesis
    proof (cases "gs_ForeignGet r kind ns name w")
      case (Inl err)
      from gs_Reconcile_absent [OF key Inl assms(3)] assms(4) None Inl key show ?thesis
        by (auto simp: open_after_def interrupted_def completed_attempt_def)
    next
      case (Inr u)
      from gs_Reconcile_ok [OF assms(1,2) _ key Inr] assms(3) None n show ?thesis by (auto split: if_splits)
    qed
  qed
qed

lemma life_step_guarded:
  assumes "finalizers_ok F" and "gs_client_ok groups ups r" and "life_step groups ups F r (w, opened) (w', opened')"
    and "groups w n = None \<or> guarded ups r n w \<or> n \<in> opened"
  shows "groups w' n = None \<or> guarded ups r n w' \<or> n \<in> opened'"
  using assms(3)
proof cases
  case others
  with assms(4) show ?thesis unfolding others_move_def guarded_def by metis
next
  case (reconcile req e)
  with reconcile_guarded [OF assms(1,2) reconcile(2) assms(4)] show ?thesis by simp
qed

text \<open>
  C4: Whatever reconciliations, successful or not, and moves of the users, the server and other zones happen, a group
  exists in the zone only while its upstream object exists and carries the finalizer of the zone, with one exception: an attempt
  that created the group and failed before the finalizer was set, while no later attempt that found the upstream object
  has succeeded. Without such an attempt (the set stays empty) there is no exception.
\<close>

theorem group_follows_upstream:
  assumes "finalizers_ok F" and "gs_client_ok groups ups r" and "(life_step groups ups F r)\<^sup>*\<^sup>* (w, opened) (w', opened')"
    and "groups w n = None \<or> guarded ups r n w \<or> n \<in> opened"
  shows "groups w' n \<noteq> None \<longrightarrow> guarded ups r n w' \<or> n \<in> opened'"
proof -
  from assms(3) have "groups w' n = None \<or> guarded ups r n w' \<or> n \<in> opened'"
    by (induction rule: rtranclp_induct2) (use assms(4) life_step_guarded [OF assms(1,2)] in blast)+
  then show ?thesis by auto
qed

text \<open>
  When the upstream object of a group is being deleted, a reconciliation without an error ends with the
  group gone and the finalizer of the zone off the object, so that nothing of this zone holds the deletion up;
  with no other finalizer the object is released.
\<close>

theorem deletion_completes:
  assumes "finalizers_ok F" and "gs_client_ok groups ups r" and "gs_Reconcile F r req w = (w', None)"
    and "upstreamOf (req_Name req) = (kind, ns, name)" and "gs_ForeignGet r kind ns name w = Inr u"
    and "up_DeletionTimestamp u \<noteq> None"
  shows "groups w' (req_Name req) = None \<and> \<not> guarded ups r (req_Name req) w' \<and>
    (\<forall>n. n \<noteq> req_Name req \<longrightarrow> groups w' n = groups w n)"
  using gs_Reconcile_ok [OF assms(1-5)] gs_Reconcile_other [OF assms(2,3)] assms(6) by simp

text \<open>
  C22: The group is created before the finalizer is set: if the update that sets it fails, the reconciliation
  reports the error with the group in place, and if the upstream object, which carries no finalizer of the zone,
  is then deleted before the next attempt, every later reconciliation reports success and keeps the group.
\<close>

theorem unguarded_group_stays:
  assumes "finalizers_ok F" and "gs_client_ok groups ups r" and "upstreamOf (req_Name req) = (kind, ns, name)"
    and "gs_ForeignGet r kind ns name w = Inr u" and "up_DeletionTimestamp u = None"
    and "gs_finalizer r \<notin> set (up_Finalizers u)"
    and "gs_CreateOrUpdate r \<lparr>grp_Name = req_Name req, grp_Users = []\<rparr>
           (capturing_none (group_mutate (up_ResolvedUserRefs u))) () w = (w1, grp, (), op, None)"
    and "gs_ForeignUpdate r (u\<lparr>up_Finalizers := fst (AddFinalizer F (up_Finalizers u) (gs_finalizer r))\<rparr>) w1 = (w2, Some e)"
    and "others_move groups ups r w2 w3" and "gs_ForeignGet r kind ns name w3 = Inl err" and "IsNotFound err"
  shows "gs_Reconcile F r req w = (w2, Some e) \<and> gs_Reconcile F r req w3 = (w3, None) \<and>
    (\<exists>g. groups w3 (req_Name req) = Some g \<and> grp_Users g = sort (map ur_Name (up_ResolvedUserRefs u)))"
proof -
  obtain fs ch where a: "AddFinalizer F (up_Finalizers u) (gs_finalizer r) = (fs, ch)" by (cases "AddFinalizer F (up_Finalizers u) (gs_finalizer r)")
  with finalizersD(1) [OF assms(1) a] assms(6) have ch by simp
  with a assms(3-8) have "gs_Reconcile F r req w = (w2, Some e)"
    by (simp add: gs_Reconcile_def gs_sync_def gs_finalizer_def Let_def)
  moreover have "gs_Reconcile F r req w3 = (w3, None)" using assms(3,10,11) by (simp add: gs_Reconcile_def Let_def)
  moreover have "cou_ok groups grp_Name (gs_CreateOrUpdate r)" using assms(2) by (simp add: gs_client_ok_def)
  from cou_stored [OF this assms(7)] have "groups w1 (req_Name req) = Some grp" "grp_Users grp = sort (map ur_Name (up_ResolvedUserRefs u))"
    by (auto simp: capturing_none_def group_mutate_def)
  moreover have "groups w3 = groups w2" using assms(9) by (simp add: others_move_def)
  ultimately show ?thesis using gs_updateD(1) [OF assms(2,8)] by simp
qed

section \<open>A concrete life\<close>

definition sample_gs_start :: gs_world where
  "sample_gs_start = (Map.empty, [(TeamKind, ''acme'', ''dev'') \<mapsto> sample_team None []])"

lemma sample_gs_started:
  "\<exists>w'. gs_Reconcile sample_finalizers sample_gs sample_gs_req sample_gs_start = (w', None) \<and> fst w' ''acme+dev'' \<noteq> None"
  unfolding gs_Reconcile_def Let_def sample_gs_key
  by (simp add: sample_gs_def sample_gs_start_def sample_team_def up_key_def gs_sync_def store_cou_def capturing_none_def
      group_mutate_def sample_finalizers_def sample_gs_req_def)

theorem group_follows_upstream_witness:
  "\<exists>w. (life_step fst snd sample_finalizers sample_gs)\<^sup>*\<^sup>* (sample_gs_start, {}) (w, {}) \<and> fst w ''acme+dev'' \<noteq> None \<and>
     guarded snd sample_gs ''acme+dev'' w"
proof -
  obtain w' where r: "gs_Reconcile sample_finalizers sample_gs sample_gs_req sample_gs_start = (w', None)"
    and g: "fst w' ''acme+dev'' \<noteq> None" using sample_gs_started by blast
  have "open_after fst sample_gs sample_gs_req sample_gs_start (w', None) {} = {}" by (simp add: open_after_def interrupted_def)
  with life_step.reconcile [OF r, of fst snd "{}"] have "life_step fst snd sample_finalizers sample_gs (sample_gs_start, {}) (w', {})" by simp
  then have s: "(life_step fst snd sample_finalizers sample_gs)\<^sup>*\<^sup>* (sample_gs_start, {}) (w', {})" by simp
  have "fst sample_gs_start ''acme+dev'' = None \<or> guarded snd sample_gs ''acme+dev'' sample_gs_start \<or> ''acme+dev'' \<in> {}"
    by (simp add: sample_gs_start_def)
  from group_follows_upstream [OF sample_finalizers_ok sample_gs_ok s this] g s show ?thesis by blast
qed

theorem deletion_completes_witness:
  "fst (fst (gs_Reconcile sample_finalizers sample_gs sample_gs_req (sample_gs_world (Some 1) [gs_finalizer sample_gs]))) ''acme+dev'' = None"
proof -
  have d: "up_DeletionTimestamp (sample_team (Some 1) fs) \<noteq> None" for fs by (simp add: sample_team_def)
  from deletion_completes [OF sample_finalizers_ok sample_gs_ok sample_gs_removed sample_gs_key sample_gs_get d]
  show ?thesis unfolding sample_gs_removed by simp
qed

text \<open>A control API that refuses every update.\<close>

definition failing_gs :: "gs_world GroupSyncReconciler" where
  "failing_gs = sample_gs\<lparr>gs_ForeignUpdate := \<lambda>u w. (w, Some (NewErr ''conflict''))\<rparr>"

definition gs_left_behind :: gs_world where
  "gs_left_behind = ([''acme+dev'' \<mapsto> \<lparr>grp_Name = ''acme+dev'', grp_Users = [''alice'', ''bob'']\<rparr>], [(TeamKind, ''acme'', ''dev'') \<mapsto> sample_team None []])"

lemma failing_gs_ok: "gs_client_ok fst snd failing_gs"
  using sample_gs_ok by (simp add: failing_gs_def gs_client_ok_def gs_get_ok_def gs_delete_ok_def gs_update_ok_def)

theorem unguarded_group_stays_witness:
  "\<exists>g. gs_Reconcile sample_finalizers failing_gs sample_gs_req (fst gs_left_behind, Map.empty) = ((fst gs_left_behind, Map.empty), None) \<and>
   fst gs_left_behind ''acme+dev'' = Some g \<and> grp_Users g = [''alice'', ''bob'']"
proof -
  have g: "gs_ForeignGet failing_gs TeamKind ''acme'' ''dev'' sample_gs_start = Inr (sample_team None [])"
    by (simp add: failing_gs_def sample_gs_def sample_gs_start_def sample_team_def up_key_def)
  have t: "up_DeletionTimestamp (sample_team None []) = None" "gs_finalizer failing_gs \<notin> set (up_Finalizers (sample_team None []))"
    by (simp_all add: sample_team_def)
  have c: "\<exists>grp op. gs_CreateOrUpdate failing_gs \<lparr>grp_Name = req_Name sample_gs_req, grp_Users = []\<rparr>
      (capturing_none (group_mutate (up_ResolvedUserRefs (sample_team None [])))) () sample_gs_start = (gs_left_behind, grp, (), op, None)"
    by (simp add: failing_gs_def sample_gs_def sample_gs_start_def gs_left_behind_def sample_team_def store_cou_def capturing_none_def
        group_mutate_def sample_gs_req_def)
  then obtain grp op where c: "gs_CreateOrUpdate failing_gs \<lparr>grp_Name = req_Name sample_gs_req, grp_Users = []\<rparr>
      (capturing_none (group_mutate (up_ResolvedUserRefs (sample_team None [])))) () sample_gs_start = (gs_left_behind, grp, (), op, None)" by blast
  have u: "gs_ForeignUpdate failing_gs v gs_left_behind = (gs_left_behind, Some (NewErr ''conflict''))" for v by (simp add: failing_gs_def)
  have o: "others_move fst snd failing_gs gs_left_behind (fst gs_left_behind, Map.empty)"
    by (simp add: others_move_def gs_left_behind_def sample_team_def)
  have n: "gs_ForeignGet failing_gs TeamKind ''acme'' ''dev'' (fst gs_left_behind, Map.empty) = Inl (NotFound ''dev'')" "IsNotFound (NotFound ''dev'')"
    by (simp_all add: failing_gs_def sample_gs_def)
  from unguarded_group_stays [OF sample_finalizers_ok failing_gs_ok sample_gs_key g t c u o n] show ?thesis
    by (auto simp: sample_gs_req_def sample_team_def)
qed

end
