(* ===== verification/QuotaTransformer.thy ===== *)
theory QuotaTransformer
  imports Cluster
begin

text \<open>
  controllers/transformers: changes to the objects of a usage profile before they are applied to a
  namespace. The interface \<open>Transformer\<close> is the type of its method; its contract is the locale
  \<open>transformer\<close>. The one implementation overrides the hard limits of resource quotas from annotations
  of the namespace.
\<close>

section \<open>Unstructured objects\<close>

text \<open>
  The methods of \<open>unstructured.Unstructured\<close> and of \<open>schema.GroupVersionKind\<close> (k8s.io/apimachinery)
  that the code calls, on the object as a document, and \<open>json.Unmarshal\<close> into a map of strings.
\<close>

record unstr =
  us_GVK :: "json \<Rightarrow> GroupVersionKind"
  us_GVKString :: "GroupVersionKind \<Rightarrow> string"
  us_GVKEmpty :: "GroupVersionKind \<Rightarrow> bool"
  us_GetName :: "json \<Rightarrow> string"
  us_GetNamespace :: "json \<Rightarrow> string"
  us_SetGroupVersionKind :: "json \<Rightarrow> GroupVersionKind \<Rightarrow> json"
  us_SetNamespace :: "json \<Rightarrow> string \<Rightarrow> json"
  us_SetName :: "json \<Rightarrow> string \<Rightarrow> json"
  us_SetLabels :: "json \<Rightarrow> string gomap \<Rightarrow> json"
  SetNestedField :: "json \<Rightarrow> json \<Rightarrow> string list \<Rightarrow> json \<times> err option"
  unmarshalStringMap :: "string \<Rightarrow> err + string gomap"

text \<open>A nested field whose parent is an object can be set; nothing else of the document changes.\<close>

definition nested_ok :: "unstr \<Rightarrow> bool" where
  "nested_ok U \<longleftrightarrow>
     (\<forall>j v p j'. json_add p v j = Some j' \<longrightarrow> SetNestedField U j v p = (j', None)) \<and>
     (\<forall>j v p j' q. SetNestedField U j v p = (j', None) \<longrightarrow> diverge p q \<longrightarrow> jget q j' = jget q j) \<and>
     (\<forall>j v p j' e. SetNestedField U j v p = (j', Some e) \<longrightarrow> j' = j)"

section \<open>The transformer of resource quotas\<close>

type_synonym Transformer = "json \<Rightarrow> Namespace \<Rightarrow> json \<times> err option"

record resourceQuotaTransformer =
  LabelBase :: string

record kv =
  kv_k :: string
  kv_v :: string

definition NewResourceQuotaTransformer :: "string \<Rightarrow> resourceQuotaTransformer" where
  "NewResourceQuotaTransformer labelBase = \<lparr>LabelBase = TrimSuffix labelBase ''/'' @ ''/''\<rparr>"

definition resourceQuotaSpecHardPath :: "string list" where
  "resourceQuotaSpecHardPath = [''spec'', ''hard'']"

definition resourceQuotaV1gvk :: GroupVersionKind where
  "resourceQuotaV1gvk = \<lparr>gvk_Group = [], gvk_Version = ''v1'', gvk_Kind = ''ResourceQuota''\<rparr>"

definition storageClassPart :: string where
  "storageClassPart = ''storageclass.storage.k8s.io''"

text \<open>\<open>overrides[objName] = append(overrides[objName], ...)\<close>\<close>

definition addOverride :: "string \<Rightarrow> (string \<times> kv list) list \<Rightarrow> kv \<Rightarrow> (string \<times> kv list) list" where
  "addOverride objName overrides ov =
     AList.update objName ((case map_of overrides objName of None \<Rightarrow> [] | Some l \<Rightarrow> l) @ [ov]) overrides"

text \<open>The body of the loop over the annotations.\<close>

definition overrideStep ::
    "ext \<Rightarrow> unstr \<Rightarrow> string order \<Rightarrow> resourceQuotaTransformer
      \<Rightarrow> (string \<times> kv list) list \<times> err option list \<Rightarrow> string \<times> string \<Rightarrow> (string \<times> kv list) list \<times> err option list" where
  "overrideStep E U ord l = (\<lambda>(overrides, errors) (k, v).
     if \<not> HasPrefix k (LabelBase l) then (overrides, errors)
     else (case Cut (TrimPrefix k (LabelBase l)) ''.'' of (objName, key, ok) \<Rightarrow>
       if \<not> ok then (overrides, errors @ [Some (NewErr (''invalid annotation '' @ Quote (isPrint E) k))])
       else if key = ''storageclasses'' then
         (case unmarshalStringMap U v of
            Inl err \<Rightarrow> (overrides, errors @ [Some (WrapErr ''failed to unmarshal storageclasses: '' err [])])
          | Inr conf \<Rightarrow>
              (foldl (\<lambda>overrides (k, v). if Contains k storageClassPart
                        then addOverride objName overrides \<lparr>kv_k = k, kv_v = v\<rparr> else overrides)
                 overrides (ord (entries conf)), errors))
       else (addOverride objName overrides \<lparr>kv_k = ReplaceAll key (CHR ''_'') ''/'', kv_v = v\<rparr>, errors)))"

definition overridesFromObj ::
    "ext \<Rightarrow> unstr \<Rightarrow> string order \<Rightarrow> string order \<Rightarrow> resourceQuotaTransformer \<Rightarrow> Namespace
      \<Rightarrow> (string \<times> kv list) list \<times> err option" where
  "overridesFromObj E U ord ord' l obj =
     (case foldl (overrideStep E U ord' l) ([], []) (ord (entries (ns_Annotations obj))) of
        (overrides, errors) \<Rightarrow> (overrides, multierr_Combine E errors))"

definition applyOverrides :: "unstr \<Rightarrow> json \<Rightarrow> err option list \<Rightarrow> kv list \<Rightarrow> json \<times> err option list" where
  "applyOverrides U u errors ovs = foldl (\<lambda>(u, errors) ov.
     case SetNestedField U u (JStr (kv_v ov)) (resourceQuotaSpecHardPath @ [kv_k ov]) of (u', e) \<Rightarrow> (u', errors @ [e]))
     (u, errors) ovs"

definition Transform ::
    "ext \<Rightarrow> unstr \<Rightarrow> string order \<Rightarrow> string order \<Rightarrow> resourceQuotaTransformer \<Rightarrow> Transformer" where
  "Transform E U ord ord' l u contextNs =
     (if us_GVK U u \<noteq> resourceQuotaV1gvk then (u, None)
      else (case overridesFromObj E U ord ord' l contextNs of (parsed, parseErr) \<Rightarrow>
        (case map_of parsed (us_GetName U u) of
           None \<Rightarrow> (u, parseErr)
         | Some ovs \<Rightarrow>
             (case applyOverrides U u [parseErr] ovs of (u', errors) \<Rightarrow> (u', multierr_Combine E errors)))))"

section \<open>The contract of the interface\<close>

text \<open>
  A transformer leaves everything outside the spec of an object alone: kind, name, owner and labels are
  the reconciler's. The law holds for methods of unstructured objects that behave as documented.
\<close>

locale transformer =
  fixes U :: unstr and transform :: Transformer
  assumes keeps_rest: "nested_ok U \<Longrightarrow> diverge [''spec''] q \<Longrightarrow> jget q (fst (transform u ns)) = jget q u"

lemma applyOverrides_rest:
  assumes "nested_ok U" and "diverge resourceQuotaSpecHardPath q"
  shows "jget q (fst (applyOverrides U u es ovs)) = jget q u"
  using assms(2) unfolding applyOverrides_def
proof (induction ovs arbitrary: u es)
  case (Cons ov ovs)
  let ?p = "resourceQuotaSpecHardPath @ [kv_k ov]"
  obtain u' e where s: "SetNestedField U u (JStr (kv_v ov)) ?p = (u', e)" by (cases "SetNestedField U u (JStr (kv_v ov)) ?p")
  have "diverge ?p q" using Cons.prems by (cases q; cases "tl q") (auto simp: resourceQuotaSpecHardPath_def)
  with assms(1) [unfolded nested_ok_def] s have "jget q u' = jget q u" by (cases e) fastforce+
  with Cons.IH [of u' "es @ [e]"] Cons.prems s show ?case by simp
qed simp

interpretation quota: transformer U "Transform E U ord ord' l" for E U ord ord' l
proof unfold_locales
  fix q u ns
  assume "nested_ok U" and d: "diverge [''spec''] q"
  moreover from d have "diverge resourceQuotaSpecHardPath q" by (cases q) (auto simp: resourceQuotaSpecHardPath_def)
  ultimately show "jget q (fst (Transform E U ord ord' l u ns)) = jget q u"
    using applyOverrides_rest [of U q] by (auto simp: Transform_def split: prod.splits option.splits) (metis fst_conv)
qed

section \<open>Which overrides there are\<close>

text \<open>The annotations of a namespace ask for the value \<open>v\<close> at the resource \<open>k\<close> of the quota \<open>name\<close>.\<close>

definition asks :: "unstr \<Rightarrow> resourceQuotaTransformer \<Rightarrow> string \<times> string \<Rightarrow> string \<Rightarrow> kv \<Rightarrow> bool" where
  "asks U l = (\<lambda>(a, val) name ov.
     \<exists>key. HasPrefix a (LabelBase l) \<and> Cut (TrimPrefix a (LabelBase l)) ''.'' = (name, key, True) \<and>
       (if key = ''storageclasses''
        then \<exists>conf. unmarshalStringMap U val = Inr conf \<and> (kv_k ov, kv_v ov) \<in> set (entries conf) \<and> Contains (kv_k ov) storageClassPart
        else ov = \<lparr>kv_k = ReplaceAll key (CHR ''_'') ''/'', kv_v = val\<rparr>))"

definition overridesOf :: "(string \<times> kv list) list \<Rightarrow> string \<Rightarrow> kv set" where
  "overridesOf overrides name = (case map_of overrides name of None \<Rightarrow> {} | Some l \<Rightarrow> set l)"

lemma overridesOf_add [simp]:
  "overridesOf (addOverride n al ov) name = (if name = n then insert ov (overridesOf al name) else overridesOf al name)"
  by (auto simp: overridesOf_def addOverride_def split: option.splits)

lemma overridesOf_conf:
  "overridesOf (foldl (\<lambda>al (k, v). if P k then addOverride n al \<lparr>kv_k = k, kv_v = v\<rparr> else al) al conf) name =
     overridesOf al name \<union> (if name = n then {ov. (kv_k ov, kv_v ov) \<in> set conf \<and> P (kv_k ov)} else {})"
proof (induction conf arbitrary: al)
  case (Cons c conf)
  obtain k v where c: "c = (k, v)" by (cases c)
  have "{ov. (kv_k ov, kv_v ov) \<in> set (c # conf) \<and> P (kv_k ov)} =
      (if P k then {\<lparr>kv_k = k, kv_v = v\<rparr>} else {}) \<union> {ov. (kv_k ov, kv_v ov) \<in> set conf \<and> P (kv_k ov)}"
    using c by (auto split: if_splits)
  then show ?case using c by (simp add: Cons.IH)
qed simp

lemma overrideStep_overrides:
  assumes "is_order ord"
  shows "overridesOf (fst (overrideStep E U ord l (al, es) x)) name = overridesOf al name \<union> {ov. asks U l x name ov}"
proof -
  obtain a val where x: "x = (a, val)" by (cases x)
  obtain n key ok where c: "Cut (TrimPrefix a (LabelBase l)) ''.'' = (n, key, ok)" by (cases "Cut (TrimPrefix a (LabelBase l)) ''.''") auto
  have s: "set (ord (entries conf)) = set (entries conf)" for conf using is_order_set [OF assms] .
  show ?thesis
  proof (cases "HasPrefix a (LabelBase l) \<and> ok")
    case False
    then show ?thesis using x c by (auto simp: overrideStep_def asks_def)
  next
    case True
    then show ?thesis using x c s
      by (auto simp: overrideStep_def asks_def overridesOf_conf split: sum.splits if_splits)
  qed
qed

lemma foldl_overrides:
  assumes "is_order ord"
  shows "overridesOf (fst (foldl (overrideStep E U ord l) (al, es) xs)) name =
    overridesOf al name \<union> {ov. \<exists>x \<in> set xs. asks U l x name ov}"
proof (induction xs arbitrary: al es)
  case (Cons x xs)
  obtain al' es' where st: "overrideStep E U ord l (al, es) x = (al', es')" by (cases "overrideStep E U ord l (al, es) x")
  with overrideStep_overrides [OF assms, of E U l al es x name] have "overridesOf al' name = overridesOf al name \<union> {ov. asks U l x name ov}"
    by simp
  then show ?case using Cons.IH [of al' es'] st by auto
qed simp

lemma overridesFromObj_exact:
  assumes "is_order ord" and "is_order ord'"
  shows "overridesOf (fst (overridesFromObj E U ord ord' l ns)) name =
    {ov. \<exists>x \<in> set (entries (ns_Annotations ns)). asks U l x name ov}"
  using foldl_overrides [OF assms(2), of E U l "[]" "[]" "ord (entries (ns_Annotations ns))" name]
  by (cases "foldl (overrideStep E U ord' l) ([], []) (ord (entries (ns_Annotations ns)))")
     (simp add: overridesFromObj_def is_order_set [OF assms(1)] overridesOf_def)

section \<open>Properties\<close>

lemma json_add_hard:
  assumes "jget resourceQuotaSpecHardPath u = Some (JObj m)"
  shows "\<exists>u'. json_add (resourceQuotaSpecHardPath @ [k]) v u = Some u' \<and>
     jget resourceQuotaSpecHardPath u' = Some (JObj (AList.update k v m))"
proof -
  from assms obtain m0 m1 where "u = JObj m0" "map_of m0 ''spec'' = Some (JObj m1)" "map_of m1 ''hard'' = Some (JObj m)"
    unfolding resourceQuotaSpecHardPath_def by (cases u) (auto split: option.splits elim: jget.elims)
  then show ?thesis by (simp add: resourceQuotaSpecHardPath_def)
qed

lemma applyOverrides_hard:
  assumes "nested_ok U" and "jget resourceQuotaSpecHardPath u = Some (JObj m)"
  shows "jget resourceQuotaSpecHardPath (fst (applyOverrides U u es ovs)) =
     Some (JObj (foldl (\<lambda>m ov. AList.update (kv_k ov) (JStr (kv_v ov)) m) m ovs))"
  using assms(2) unfolding applyOverrides_def
proof (induction ovs arbitrary: u es m)
  case (Cons ov ovs)
  from json_add_hard [OF Cons.prems, of "kv_k ov" "JStr (kv_v ov)"] obtain u' where
    u': "json_add (resourceQuotaSpecHardPath @ [kv_k ov]) (JStr (kv_v ov)) u = Some u'"
    and h: "jget resourceQuotaSpecHardPath u' = Some (JObj (AList.update (kv_k ov) (JStr (kv_v ov)) m))" by blast
  from u' assms(1) have "SetNestedField U u (JStr (kv_v ov)) (resourceQuotaSpecHardPath @ [kv_k ov]) = (u', None)"
    by (simp add: nested_ok_def)
  with Cons.IH [OF h] show ?case by simp
qed simp

definition asked :: "unstr \<Rightarrow> resourceQuotaTransformer \<Rightarrow> Namespace \<Rightarrow> string \<Rightarrow> string \<Rightarrow> string set" where
  "asked U l ns name k = {v. \<exists>x \<in> set (entries (ns_Annotations ns)). asks U l x name \<lparr>kv_k = k, kv_v = v\<rparr>}"

lemma foldl_last_override:
  "map_of (foldl (\<lambda>m ov. AList.update (kv_k ov) (JStr (kv_v ov)) m) m ovs) k =
     (case map_of (rev (map (\<lambda>ov. (kv_k ov, JStr (kv_v ov))) ovs)) k of None \<Rightarrow> map_of m k | Some j \<Rightarrow> Some j)"
proof -
  have "foldl (\<lambda>m ov. AList.update (kv_k ov) (JStr (kv_v ov)) m) m ovs =
      foldl (\<lambda>al (k, v). AList.update k v al) m (map (\<lambda>ov. (kv_k ov, JStr (kv_v ov))) ovs)"
    by (induction ovs arbitrary: m) auto
  then show ?thesis by (simp add: map_of_foldl_update)
qed

lemma foldl_override_cases:
  assumes "vs = {v. \<lparr>kv_k = k, kv_v = v\<rparr> \<in> set ovs}"
  shows "if vs = {} then map_of (foldl (\<lambda>m ov. AList.update (kv_k ov) (JStr (kv_v ov)) m) m ovs) k = map_of m k
     else \<exists>v \<in> vs. map_of (foldl (\<lambda>m ov. AList.update (kv_k ov) (JStr (kv_v ov)) m) m ovs) k = Some (JStr v)"
proof (cases "map_of (rev (map (\<lambda>ov. (kv_k ov, JStr (kv_v ov))) ovs)) k")
  case None
  then have "vs = {}" unfolding assms by (force simp: map_of_eq_None_iff image_iff)
  with None show ?thesis by (simp add: foldl_last_override)
next
  case (Some j)
  from map_of_SomeD [OF Some] obtain ov where "ov \<in> set ovs" "k = kv_k ov" "j = JStr (kv_v ov)" by auto
  moreover have "\<lparr>kv_k = kv_k ov, kv_v = kv_v ov\<rparr> = ov" by simp
  ultimately have "kv_v ov \<in> vs" "j = JStr (kv_v ov)" unfolding assms by (simp_all only: mem_Collect_eq)
  with Some show ?thesis by (auto simp: foldl_last_override)
qed

lemma Transform_hard:
  assumes "is_order ord" and "is_order ord'" and "nested_ok U" and "Transform E U ord ord' l u ns = (u', e)"
    and "us_GVK U u = resourceQuotaV1gvk" and h: "jget resourceQuotaSpecHardPath u = Some (JObj hard)"
  shows "\<exists>hard'. jget resourceQuotaSpecHardPath u' = Some (JObj hard') \<and>
            (\<forall>k. if asked U l ns (us_GetName U u) k = {} then map_of hard' k = map_of hard k
                 else \<exists>v \<in> asked U l ns (us_GetName U u) k. map_of hard' k = Some (JStr v))"
    and "\<forall>q. diverge resourceQuotaSpecHardPath q \<longrightarrow> jget q u' = jget q u"
proof -
  obtain parsed pe where p: "overridesFromObj E U ord ord' l ns = (parsed, pe)" by (cases "overridesFromObj E U ord ord' l ns")
  define ovs where "ovs = (case map_of parsed (us_GetName U u) of None \<Rightarrow> [] | Some ovs \<Rightarrow> ovs)"
  have u': "u' = fst (applyOverrides U u [pe] ovs)"
    using assms(4,5) p by (auto simp: Transform_def ovs_def applyOverrides_def split: option.splits prod.splits)
  have "asked U l ns (us_GetName U u) k = {v. \<lparr>kv_k = k, kv_v = v\<rparr> \<in> set ovs}" for k
    using overridesFromObj_exact [OF assms(1,2), of E U l ns "us_GetName U u"] p
    by (auto simp: asked_def overridesOf_def ovs_def split: option.splits)
  then have "if asked U l ns (us_GetName U u) k = {} then map_of (foldl (\<lambda>m ov. AList.update (kv_k ov) (JStr (kv_v ov)) m) hard ovs) k = map_of hard k
     else \<exists>v \<in> asked U l ns (us_GetName U u) k. map_of (foldl (\<lambda>m ov. AList.update (kv_k ov) (JStr (kv_v ov)) m) hard ovs) k = Some (JStr v)" for k
    by (rule foldl_override_cases)
  with applyOverrides_hard [OF assms(3) h, of "[pe]" ovs] show "\<exists>hard'. jget resourceQuotaSpecHardPath u' = Some (JObj hard') \<and>
            (\<forall>k. if asked U l ns (us_GetName U u) k = {} then map_of hard' k = map_of hard k
                 else \<exists>v \<in> asked U l ns (us_GetName U u) k. map_of hard' k = Some (JStr v))" unfolding u' by simp
  show "\<forall>q. diverge resourceQuotaSpecHardPath q \<longrightarrow> jget q u' = jget q u"
    using applyOverrides_rest [OF assms(3), of _ u "[pe]" ovs] unfolding u' by simp
qed

text \<open>
  C12: Transforming a ResourceQuota that has hard limits sets a limit exactly where annotations of the
  namespace ask for one, to a value that one of them asks for, keeps every other limit, and changes
  nothing else of the object; this does not depend on the order in which the maps are visited and holds
  even if some of the annotations cannot be parsed. Objects of other kinds are not changed.
\<close>

theorem Transform_overrides:
  assumes "is_order ord" and "is_order ord'" and "nested_ok U" and "Transform E U ord ord' l u ns = (u', e)"
    and "us_GVK U u = resourceQuotaV1gvk \<longrightarrow> jget resourceQuotaSpecHardPath u = Some (JObj hard)"
  shows "if us_GVK U u = resourceQuotaV1gvk
    then (\<exists>hard'. jget resourceQuotaSpecHardPath u' = Some (JObj hard') \<and>
            (\<forall>k. if asked U l ns (us_GetName U u) k = {} then map_of hard' k = map_of hard k
                 else \<exists>v \<in> asked U l ns (us_GetName U u) k. map_of hard' k = Some (JStr v))) \<and>
         (\<forall>q. diverge resourceQuotaSpecHardPath q \<longrightarrow> jget q u' = jget q u)
    else u' = u \<and> e = None"
proof (cases "us_GVK U u = resourceQuotaV1gvk")
  case True
  with assms(5) have "jget resourceQuotaSpecHardPath u = Some (JObj hard)" by simp
  from Transform_hard [OF assms(1-4) True this] True show ?thesis by simp
qed (use assms(4) in \<open>simp add: Transform_def\<close>)

text \<open>
  The annotation that is named after the label base, a quota (whose name has no dot) and a resource
  (whose name has no underscore), with the slashes of the resource written as underscores, asks for its
  value at exactly that resource of that quota, whether or not the base is configured with a final slash.
\<close>

theorem annotation_names_override:
  assumes "b = base \<or> b = base @ ''/''" and "\<not> HasSuffix base ''/''"
    and "CHR ''.'' \<notin> set name" and "CHR ''_'' \<notin> set k" and "k \<noteq> ''storageclasses''"
  shows "asks U (NewResourceQuotaTransformer b) (base @ ''/'' @ name @ ''.'' @ ReplaceAll k (CHR ''/'') ''_'', v) n ov \<longleftrightarrow>
     n = name \<and> ov = \<lparr>kv_k = k, kv_v = v\<rparr>"
proof -
  have base: "LabelBase (NewResourceQuotaTransformer b) = base @ ''/''"
    using assms(1,2) TrimSuffix_append [of base "''/''"] by (auto simp: NewResourceQuotaTransformer_def TrimSuffix_def)
  let ?key = "ReplaceAll k (CHR ''/'') ''_''"
  have undo: "ReplaceAll ?key (CHR ''_'') ''/'' = k" using assms(4) by (induction k) auto
  have "?key \<noteq> ''storageclasses''"
  proof
    assume s: "?key = ''storageclasses''"
    then have "ReplaceAll ?key (CHR ''_'') ''/'' = ''storageclasses''" by simp
    with undo assms(5) show False by simp
  qed
  moreover have "HasPrefix (base @ ''/'' @ name @ ''.'' @ ?key) (base @ ''/'')"
    "TrimPrefix (base @ ''/'' @ name @ ''.'' @ ?key) (base @ ''/'') = name @ CHR ''.'' # ?key"
    using HasPrefix_append [of "base @ ''/''"] TrimPrefix_append [of "base @ ''/''"] by auto
  ultimately show ?thesis using Cut_first [OF assms(3), of ?key] by (auto simp: asks_def base undo)
qed

section \<open>A concrete transformer\<close>

definition setMeta :: "string \<Rightarrow> json \<Rightarrow> json \<Rightarrow> json" where
  "setMeta k v j = (case j of
      JObj m \<Rightarrow> (case map_of m ''metadata'' of
          None \<Rightarrow> JObj (AList.update ''metadata'' (JObj [(k, v)]) m)
        | Some (JObj mm) \<Rightarrow> JObj (AList.update ''metadata'' (JObj (AList.update k v mm)) m)
        | Some _ \<Rightarrow> j)
    | _ \<Rightarrow> j)"

definition getString :: "string list \<Rightarrow> json \<Rightarrow> string" where
  "getString p j = (case jget p j of Some (JStr s) \<Rightarrow> s | _ \<Rightarrow> [])"

definition sample_unstr :: unstr where
  "sample_unstr =
     \<lparr>us_GVK = (\<lambda>j. \<lparr>gvk_Group = [], gvk_Version = ''v1'', gvk_Kind = getString [''kind''] j\<rparr>),
      us_GVKString = gvk_Kind, us_GVKEmpty = (\<lambda>g. gvk_Kind g = []),
      us_GetName = getString [''metadata'', ''name''], us_GetNamespace = getString [''metadata'', ''namespace''],
      us_SetGroupVersionKind = (\<lambda>j g. case j of JObj m \<Rightarrow> JObj (AList.update ''kind'' (JStr (gvk_Kind g)) m) | _ \<Rightarrow> j),
      us_SetNamespace = (\<lambda>j n. setMeta ''namespace'' (JStr n) j), us_SetName = (\<lambda>j n. setMeta ''name'' (JStr n) j),
      us_SetLabels = (\<lambda>j l. setMeta ''labels'' (json_of_map (entries l)) j),
      SetNestedField = (\<lambda>j v p. case json_add p v j of None \<Rightarrow> (j, Some (NewErr ''not a map'')) | Some j' \<Rightarrow> (j', None)),
      unmarshalStringMap = (\<lambda>s. Inl (NewErr ''invalid''))\<rparr>"

lemma sample_unstr_nested: "nested_ok sample_unstr"
  using jget_json_add_other by (fastforce simp: nested_ok_def sample_unstr_def split: option.splits)

definition sample_quota :: json where
  "sample_quota = JObj [(''kind'', JStr ''ResourceQuota''), (''metadata'', JObj [(''name'', JStr ''q'')]),
     (''spec'', JObj [(''hard'', JObj [(''pods'', JStr ''1''), (''count/jobs'', JStr ''1'')])])]"

definition sample_quota_ns :: Namespace where
  "sample_quota_ns = \<lparr>ns_Name = ''n'', ns_Labels = None, ns_Annotations = Some [(''b/q.count_jobs'', ''2'')], ns_DeletionTimestamp = None\<rparr>"

theorem annotation_names_override_witness:
  "asks sample_unstr (NewResourceQuotaTransformer ''b'') (''b'' @ ''/'' @ ''q'' @ ''.'' @ ReplaceAll ''count/jobs'' (CHR ''/'') ''_'', ''2'')
     ''q'' \<lparr>kv_k = ''count/jobs'', kv_v = ''2''\<rparr>"
  by (subst annotation_names_override [where base = "''b''"]) (simp_all add: HasSuffix_def)

lemma sample_asked: "v \<in> asked sample_unstr (NewResourceQuotaTransformer ''b'') sample_quota_ns ''q'' ''count/jobs'' \<longleftrightarrow> v = ''2''"
  by (auto simp: asked_def sample_quota_ns_def asks_def NewResourceQuotaTransformer_def TrimSuffix_def HasSuffix_def HasPrefix_def
      TrimPrefix_def Cut_def)

theorem Transform_overrides_witness:
  "\<exists>hard'. jget resourceQuotaSpecHardPath
       (fst (Transform sample_ext sample_unstr (\<lambda>al. al) (\<lambda>al. al) (NewResourceQuotaTransformer ''b'') sample_quota sample_quota_ns)) =
     Some (JObj hard') \<and> map_of hard' ''count/jobs'' = Some (JStr ''2'')"
proof -
  let ?l = "NewResourceQuotaTransformer ''b''"
  obtain u' e where t: "Transform sample_ext sample_unstr (\<lambda>al. al) (\<lambda>al. al) ?l sample_quota sample_quota_ns = (u', e)"
    by (cases "Transform sample_ext sample_unstr (\<lambda>al. al) (\<lambda>al. al) ?l sample_quota sample_quota_ns")
  have g: "us_GVK sample_unstr sample_quota = resourceQuotaV1gvk" "us_GetName sample_unstr sample_quota = ''q''"
    by (simp_all add: sample_unstr_def sample_quota_def resourceQuotaV1gvk_def getString_def)
  have h: "jget resourceQuotaSpecHardPath sample_quota = Some (JObj [(''pods'', JStr ''1''), (''count/jobs'', JStr ''1'')])"
    by (simp add: resourceQuotaSpecHardPath_def sample_quota_def)
  have a: "asked sample_unstr ?l sample_quota_ns ''q'' ''count/jobs'' = {''2''}" using sample_asked by blast
  from Transform_overrides [OF is_order_id is_order_id sample_unstr_nested t, of "[(''pods'', JStr ''1''), (''count/jobs'', JStr ''1'')]"]
  obtain hard' where "jget resourceQuotaSpecHardPath u' = Some (JObj hard')"
    "\<forall>k. if asked sample_unstr ?l sample_quota_ns ''q'' k = {} then map_of hard' k = map_of [(''pods'', JStr ''1''), (''count/jobs'', JStr ''1'')] k
         else \<exists>v \<in> asked sample_unstr ?l sample_quota_ns ''q'' k. map_of hard' k = Some (JStr v)"
    using g h unfolding g(2) by auto
  from this(1) this(2) [THEN spec, of "''count/jobs''"] show ?thesis using t a by (simp split: if_splits)
qed

end
