(* ===== verification/UsageProfiles.thy ===== *)
theory UsageProfiles
  imports QuotaTransformer
begin

text \<open>
  controllers/zoneusageprofilesync_controller.go and zoneusageprofileapply_controller.go: profiles are
  copied from the control API, and the objects of a profile are applied to every namespace of an
  organization. An object carries the name of its profile in a label; two profiles cannot own one object.
\<close>

section \<open>Copying profiles from the control API\<close>

record UsageProfile =
  upr_Name :: string
  upr_Spec :: UsageProfileSpec

record 'w ZoneUsageProfileSyncReconciler =
  ups_ForeignGet :: "string \<Rightarrow> 'w \<Rightarrow> err + UsageProfile"
  ups_CreateOrUpdate :: "('w, ZoneUsageProfile, unit) CreateOrUpdate"
  ups_Get :: "string \<Rightarrow> 'w \<Rightarrow> err + ZoneUsageProfile"

definition profile_mutate :: "UsageProfileSpec \<Rightarrow> ZoneUsageProfile \<Rightarrow> ZoneUsageProfile \<times> err option" where
  "profile_mutate spec p = (p\<lparr>zup_Spec := (zup_Spec p)\<lparr>zups_UpstreamSpec := spec\<rparr>\<rparr>, None)"

text \<open>The object that is created has a zero spec before the callback fills it in.\<close>

definition zeroSpec :: UsageProfileSpec where
  "zeroSpec = \<lparr>ups_NamespaceCount = 0, ups_Resources = None\<rparr>"

definition sync_Reconcile ::
    "'w ZoneUsageProfileSyncReconciler \<Rightarrow> CtrlRequest \<Rightarrow> 'w \<Rightarrow> 'w \<times> Event list \<times> err option" where
  "sync_Reconcile r req w = (case ups_ForeignGet r (req_Name req) w of
      Inl err \<Rightarrow> (w, [], IgnoreNotFound err)
    | Inr upstream \<Rightarrow>
        (case ups_CreateOrUpdate r \<lparr>zup_Name = upr_Name upstream, zup_Spec = \<lparr>zups_UpstreamSpec = zeroSpec\<rparr>\<rparr>
            (capturing_none (profile_mutate (upr_Spec upstream))) () w of
           (w', p, s, op, Some err) \<Rightarrow> (w', [], Some err)
         | (w', p, s, op, None) \<Rightarrow>
             (case ups_Get r (zup_Name p) w' of
                Inl err \<Rightarrow> (w', [], Some err)
              | Inr p' \<Rightarrow>
                  (w', [\<lparr>ev_Kind = ''ZoneUsageProfile'', ev_Namespace = [], ev_Name = zup_Name p', ev_Type = ''Normal'',
                         ev_Reason = ''Reconciled'', ev_Message = ''Reconciled ZoneUsageProfile: '' @ op\<rparr>], None))))"

interpretation profile: mutation "profile_mutate spec" for spec
  by unfold_locales (auto simp: profile_mutate_def)

section \<open>Dynamic watches\<close>

text \<open>
  The kinds whose \<open>sync.Once\<close> in the tracker has been used, in order; \<open>Watch\<close> is called while it is
  marked as used, and its error is only seen by the call that used it.
\<close>

record 'w watcher =
  wt_available :: bool
  wt_Watch :: "GroupVersionKind \<Rightarrow> 'w \<Rightarrow> 'w \<times> err option"

definition ensureWatch ::
    "unstr \<Rightarrow> 'w watcher \<Rightarrow> GroupVersionKind \<Rightarrow> 'w \<times> GroupVersionKind list \<Rightarrow> ('w \<times> GroupVersionKind list) \<times> err option" where
  "ensureWatch U r gvk = (\<lambda>(w, tracker).
     if \<not> wt_available r then ((w, tracker), Some (NewErr ''no cache or controller available, unable to install dynamic watch''))
     else if us_GVKEmpty U gvk then ((w, tracker), Some (NewErr ''unable to watch empty GroupVersionKind''))
     else if gvk \<in> set tracker then ((w, tracker), None)
     else (case wt_Watch r gvk w of (w', err) \<Rightarrow> ((w', tracker @ [gvk]), err)))"

section \<open>Applying profiles\<close>

definition resourceOwnerLabel :: string where
  "resourceOwnerLabel = ''cloud-agent.appuio.io/usage-profile''"

type_synonym objKey = "GroupVersionKind \<times> string \<times> string"

record 'w ZoneUsageProfileApplyReconciler =
  upa_Get :: "string \<Rightarrow> 'w \<Rightarrow> err + ZoneUsageProfile"
  upa_ListHasLabel :: "string \<Rightarrow> 'w \<Rightarrow> err + Namespace list"
  upa_CreateOrUpdate :: "('w, json, unit) CreateOrUpdate"
  upa_ToUnstructured :: "json \<Rightarrow> err + json"
  upa_SetControllerReference :: "ZoneUsageProfile \<Rightarrow> json \<Rightarrow> json \<times> err option"
  upa_watcher :: "'w watcher"
  upa_OrganizationLabel :: string
  upa_Transformers :: "Transformer list"
  upa_SelectedProfile :: string

definition apply_mutate ::
    "ext \<Rightarrow> unstr \<Rightarrow> 'w ZoneUsageProfileApplyReconciler \<Rightarrow> ZoneUsageProfile \<Rightarrow> Namespace \<Rightarrow> string \<Rightarrow> json
      \<Rightarrow> json \<Rightarrow> json \<times> err option" where
  "apply_mutate E U r profile orgNs name raw u =
     (let lbls = entries (GetLabels E u);
          u = us_SetName U (us_SetNamespace U raw (ns_Name orgNs)) name
      in case upa_SetControllerReference r profile u of
           (u, Some err) \<Rightarrow> (u, Some (WrapErr ''unable to set controller reference: '' err []))
         | (u, None) \<Rightarrow>
             (let u = foldl (\<lambda>u t. fst (t u orgNs)) u (upa_Transformers r)
              in case map_of lbls resourceOwnerLabel of
                   Some p \<Rightarrow>
                     if p \<noteq> zup_Name profile then
                       (u, Some (NewErr (''conflict: resource '' @ Quote (isPrint E) (us_GVKString U (us_GVK U u)) @ ''/'' @
                          Quote (isPrint E) name @ '' in '' @ Quote (isPrint E) (ns_Name orgNs) @
                          '' already has a different UsageProfile applied: '' @ p)))
                     else (us_SetLabels U u (Some (AList.update resourceOwnerLabel (zup_Name profile) lbls)), None)
                 | None \<Rightarrow> (us_SetLabels U u (Some (AList.update resourceOwnerLabel (zup_Name profile) lbls)), None)))"

definition newObject :: "unstr \<Rightarrow> json \<Rightarrow> Namespace \<Rightarrow> string \<Rightarrow> json" where
  "newObject U raw orgNs name =
     us_SetName U (us_SetNamespace U (us_SetGroupVersionKind U (JObj []) (us_GVK U raw)) (ns_Name orgNs)) name"

text \<open>An error of the watch is returned in place of one of \<open>CreateOrUpdate\<close>.\<close>

definition applyResourceToNamespace ::
    "ext \<Rightarrow> unstr \<Rightarrow> 'w ZoneUsageProfileApplyReconciler \<Rightarrow> string \<Rightarrow> Namespace \<Rightarrow> json \<Rightarrow> ZoneUsageProfile
      \<Rightarrow> 'w \<times> GroupVersionKind list \<Rightarrow> ('w \<times> GroupVersionKind list) \<times> err option" where
  "applyResourceToNamespace E U r name orgNs resource profile = (\<lambda>(w, tracker).
     case upa_ToUnstructured r resource of
       Inl err \<Rightarrow> ((w, tracker), Some (WrapErr ''unable to convert RawExtension to Unstructured: '' err []))
     | Inr raw \<Rightarrow>
         (case upa_CreateOrUpdate r (newObject U raw orgNs name)
             (capturing_none (apply_mutate E U r profile orgNs name raw)) () w of
            (w', u, s, op, err) \<Rightarrow>
              (case ensureWatch U (upa_watcher r) (us_GVK U u) (w', tracker) of
                 (st, Some e) \<Rightarrow> (st, Some (WrapErr ''unable to watch, object might not be reconciled: '' e []))
               | (st, None) \<Rightarrow> (st, err))))"

fun applyAll ::
    "ext \<Rightarrow> unstr \<Rightarrow> 'w ZoneUsageProfileApplyReconciler \<Rightarrow> ZoneUsageProfile \<Rightarrow> (Namespace \<times> string \<times> json) list
      \<Rightarrow> 'w \<times> GroupVersionKind list \<Rightarrow> ('w \<times> GroupVersionKind list) \<times> Event list \<times> err option list" where
  "applyAll E U r profile [] st = (st, [], [])"
| "applyAll E U r profile ((orgNs, name, resource) # rest) st =
     (case applyResourceToNamespace E U r name orgNs resource profile st of
        (st', err) \<Rightarrow>
          (case applyAll E U r profile rest st' of (st'', events, errors) \<Rightarrow>
             (case err of
                None \<Rightarrow> (st'', events, errors)
              | Some e \<Rightarrow>
                  (st'', \<lparr>ev_Kind = ''ZoneUsageProfile'', ev_Namespace = [], ev_Name = zup_Name profile, ev_Type = ''Warning'',
                      ev_Reason = ''ApplyFailed'',
                      ev_Message = ''unable to create or update resource '' @ Quote (isPrint E) name @ '' in '' @
                        Quote (isPrint E) (ns_Name orgNs) @ '': '' @ Error e\<rparr> # events, Some e # errors))))"

text \<open>
  A namespace is left out once its deletion time has passed; \<open>now\<close> is the time at which it is looked at.
  The order in which the range over the map of resources visits it may differ between namespaces.
\<close>

definition toApply ::
    "(string \<Rightarrow> int) \<Rightarrow> (string \<Rightarrow> json order) \<Rightarrow> ZoneUsageProfile \<Rightarrow> Namespace list \<Rightarrow> (Namespace \<times> string \<times> json) list" where
  "toApply now ord profile nss = concat (map (\<lambda>orgNs.
     if (case ns_DeletionTimestamp orgNs of None \<Rightarrow> False | Some t \<Rightarrow> t < now (ns_Name orgNs)) then []
     else map (Pair orgNs) (ord (ns_Name orgNs) (entries (ups_Resources (zups_UpstreamSpec (zup_Spec profile)))))) nss)"

definition apply_Reconcile ::
    "ext \<Rightarrow> unstr \<Rightarrow> (string \<Rightarrow> int) \<Rightarrow> (string \<Rightarrow> json order) \<Rightarrow> 'w ZoneUsageProfileApplyReconciler \<Rightarrow> CtrlRequest
      \<Rightarrow> 'w \<times> GroupVersionKind list \<Rightarrow> ('w \<times> GroupVersionKind list) \<times> Event list \<times> err option" where
  "apply_Reconcile E U now ord r req st =
     (if upa_SelectedProfile r \<noteq> [] \<and> upa_SelectedProfile r \<noteq> req_Name req then (st, [], None)
      else case upa_Get r (req_Name req) (fst st) of
          Inl err \<Rightarrow> (st, [], IgnoreNotFound err)
        | Inr profile \<Rightarrow>
            (case upa_ListHasLabel r (upa_OrganizationLabel r) (fst st) of
               Inl err \<Rightarrow> (st, [], Some err)
             | Inr nss \<Rightarrow>
                 (case applyAll E U r profile (toApply now ord profile nss) st of
                    (st', events, errors) \<Rightarrow> (st', events, multierr_Combine E errors))))"

text \<open>A change of any namespace of an organization is a request for every profile.\<close>

definition mapToAllUsageProfiles :: "err + ZoneUsageProfile list \<Rightarrow> CtrlRequest list" where
  "mapToAllUsageProfiles profiles = (case profiles of
      Inl err \<Rightarrow> []
    | Inr items \<Rightarrow> map (\<lambda>p. \<lparr>req_Namespace = [], req_Name = zup_Name p\<rparr>) items)"

section \<open>The contract of unstructured objects\<close>

text \<open>Documents that can carry metadata, and documents that do.\<close>

definition can_meta :: "json \<Rightarrow> bool" where
  "can_meta j \<longleftrightarrow> (\<exists>m. j = JObj m \<and> (map_of m ''metadata'' = None \<or> (\<exists>mm. map_of m ''metadata'' = Some (JObj mm))))"

definition has_meta :: "json \<Rightarrow> bool" where
  "has_meta j \<longleftrightarrow> (\<exists>mm. jget [''metadata''] j = Some (JObj mm))"

text \<open>A setter of one field of the metadata: it leaves the kind and everything outside the metadata alone.\<close>

definition meta_setter :: "unstr \<Rightarrow> (json \<Rightarrow> json) \<Rightarrow> bool" where
  "meta_setter U f \<longleftrightarrow>
     (\<forall>j. can_meta j \<longrightarrow> has_meta (f j) \<and> us_GVK U (f j) = us_GVK U j \<and>
        (\<forall>q. diverge [''metadata''] q \<longrightarrow> jget q (f j) = jget q j))"

definition unstr_ok :: "ext \<Rightarrow> unstr \<Rightarrow> bool" where
  "unstr_ok E U \<longleftrightarrow>
     (\<forall>n. meta_setter U (\<lambda>j. us_SetName U j n)) \<and> (\<forall>n. meta_setter U (\<lambda>j. us_SetNamespace U j n)) \<and>
     (\<forall>l. meta_setter U (\<lambda>j. us_SetLabels U j l)) \<and>
     (\<forall>j n. can_meta j \<longrightarrow> us_GetName U (us_SetName U j n) = n \<and> us_GetNamespace U (us_SetNamespace U j n) = n \<and>
        us_GetNamespace U (us_SetName U j n) = us_GetNamespace U j \<and>
        GetLabels E (us_SetName U j n) = GetLabels E j \<and> GetLabels E (us_SetNamespace U j n) = GetLabels E j) \<and>
     (\<forall>j l k. can_meta j \<longrightarrow> mget (GetLabels E (us_SetLabels U j (Some l))) k = map_of l k) \<and>
     (\<forall>raw. us_GVK U (us_SetGroupVersionKind U (JObj []) (us_GVK U raw)) = us_GVK U raw \<and>
        can_meta (us_SetGroupVersionKind U (JObj []) (us_GVK U raw)) \<and>
        GetLabels E (us_SetGroupVersionKind U (JObj []) (us_GVK U raw)) = None)"

definition us_key :: "unstr \<Rightarrow> json \<Rightarrow> objKey" where
  "us_key U j = (us_GVK U j, us_GetNamespace U j, us_GetName U j)"

lemma has_can_meta: "has_meta j \<Longrightarrow> can_meta j"
  by (cases j) (auto simp: has_meta_def can_meta_def split: option.splits)

lemma unstr_settersD:
  assumes "unstr_ok E U"
  shows "meta_setter U (\<lambda>j. us_SetName U j n)" and "meta_setter U (\<lambda>j. us_SetNamespace U j n)"
    and "meta_setter U (\<lambda>j. us_SetLabels U j l)"
  using assms by (simp_all add: unstr_ok_def)

lemma unstr_getD:
  assumes "unstr_ok E U" and "can_meta j"
  shows "us_GetName U (us_SetName U j n) = n" and "us_GetNamespace U (us_SetNamespace U j n) = n"
    and "us_GetNamespace U (us_SetName U j n) = us_GetNamespace U j"
    and "GetLabels E (us_SetName U j n) = GetLabels E j" and "GetLabels E (us_SetNamespace U j n) = GetLabels E j"
    and "mget (GetLabels E (us_SetLabels U j (Some l))) k = map_of l k"
  using assms by (simp_all add: unstr_ok_def)

lemma meta_setterD:
  assumes "meta_setter U f" and "can_meta j"
  shows "has_meta (f j)" and "us_GVK U (f j) = us_GVK U j" and "diverge [''metadata''] q \<Longrightarrow> jget q (f j) = jget q j"
  using assms by (simp_all add: meta_setter_def)

lemma newObject_facts:
  assumes "unstr_ok E U"
  shows "us_key U (newObject U raw orgNs name) = (us_GVK U raw, ns_Name orgNs, name)"
    and "GetLabels E (newObject U raw orgNs name) = None"
proof -
  let ?j = "us_SetGroupVersionKind U (JObj []) (us_GVK U raw)" and ?jn = "us_SetNamespace U (us_SetGroupVersionKind U (JObj []) (us_GVK U raw)) (ns_Name orgNs)"
  have j: "us_GVK U ?j = us_GVK U raw" "can_meta ?j" "GetLabels E ?j = None"
    using assms by (simp_all add: unstr_ok_def)
  note n = meta_setterD [OF unstr_settersD(2) [OF assms] j(2)]
  have c: "can_meta ?jn" using n(1) by (rule has_can_meta)
  note m = meta_setterD [OF unstr_settersD(1) [OF assms] c]
  show "us_key U (newObject U raw orgNs name) = (us_GVK U raw, ns_Name orgNs, name)"
    by (simp add: us_key_def newObject_def m(2) n(2) j(1) unstr_getD [OF assms c] unstr_getD [OF assms j(2)])
  show "GetLabels E (newObject U raw orgNs name) = None"
    by (simp add: newObject_def unstr_getD [OF assms c] unstr_getD [OF assms j(2)] j(3))
qed

text \<open>The object of the profile under the name that it gets in a namespace.\<close>

lemma named_facts:
  assumes "unstr_ok E U" and "can_meta raw"
  shows "has_meta (us_SetName U (us_SetNamespace U raw n) name)"
    and "us_GetName U (us_SetName U (us_SetNamespace U raw n) name) = name"
    and "us_GVK U (us_SetName U (us_SetNamespace U raw n) name) = us_GVK U raw"
    and "diverge [''metadata''] q \<Longrightarrow> jget q (us_SetName U (us_SetNamespace U raw n) name) = jget q raw"
proof -
  note n = meta_setterD [OF unstr_settersD(2) [OF assms(1), of n] assms(2)]
  note c = has_can_meta [OF n(1)]
  note m = meta_setterD [OF unstr_settersD(1) [OF assms(1), of name] c]
  show "has_meta (us_SetName U (us_SetNamespace U raw n) name)" by (rule m(1))
  show "us_GetName U (us_SetName U (us_SetNamespace U raw n) name) = name" by (rule unstr_getD(1) [OF assms(1) c])
  show "us_GVK U (us_SetName U (us_SetNamespace U raw n) name) = us_GVK U raw" using m(2) n(2) by simp
  show "diverge [''metadata''] q \<Longrightarrow> jget q (us_SetName U (us_SetNamespace U raw n) name) = jget q raw" using m(3) n(3) by simp
qed

section \<open>The contract of the clients\<close>

definition owner_ref_ok :: "(ZoneUsageProfile \<Rightarrow> json \<Rightarrow> json \<times> err option) \<Rightarrow> bool" where
  "owner_ref_ok scr \<longleftrightarrow>
     (\<forall>p j j'. has_meta j \<longrightarrow> scr p j = (j', None) \<longrightarrow>
        has_meta j' \<and> (\<forall>q. diverge [''metadata''] q \<longrightarrow> jget q j' = jget q j))"

definition watch_frame :: "('w \<Rightarrow> 'v) \<Rightarrow> 'w watcher \<Rightarrow> bool" where
  "watch_frame view r \<longleftrightarrow> (\<forall>g w. view (fst (wt_Watch r g w)) = view w)"

definition upa_ok ::
    "ext \<Rightarrow> unstr \<Rightarrow> ('w \<Rightarrow> objKey \<Rightarrow> json option) \<Rightarrow> 'w ZoneUsageProfileApplyReconciler \<Rightarrow> bool" where
  "upa_ok E U at r \<longleftrightarrow> unstr_ok E U \<and> nested_ok U \<and> cou_ok at (us_key U) (upa_CreateOrUpdate r) \<and>
     watch_frame at (upa_watcher r) \<and> owner_ref_ok (upa_SetControllerReference r) \<and>
     (\<forall>t \<in> set (upa_Transformers r). transformer U t)"

lemma transformers_rest:
  assumes "nested_ok U" and "\<forall>t \<in> set ts. transformer U t" and "diverge [''spec''] q"
  shows "jget q (foldl (\<lambda>u t. fst (t u ns)) u ts) = jget q u"
  using assms(2)
proof (induction ts arbitrary: u)
  case (Cons t ts)
  then have "jget q (fst (t u ns)) = jget q u" using transformer.keeps_rest [OF _ assms(1,3)] by simp
  with Cons show ?case by simp
qed simp

text \<open>The object that the callback makes: of the profile outside metadata, with the labels it had and the owner.\<close>

definition owner_of :: "ext \<Rightarrow> json \<Rightarrow> string option" where
  "owner_of E u = mget (GetLabels E u) resourceOwnerLabel"

definition applied :: "ext \<Rightarrow> ZoneUsageProfile \<Rightarrow> json \<Rightarrow> json option \<Rightarrow> json \<Rightarrow> bool" where
  "applied E profile raw before u \<longleftrightarrow>
     owner_of E u = Some (zup_Name profile) \<and>
     (\<forall>k. k \<noteq> resourceOwnerLabel \<longrightarrow>
        mget (GetLabels E u) k = (case before of None \<Rightarrow> None | Some old \<Rightarrow> mget (GetLabels E old) k)) \<and>
     (\<forall>q. diverge [''metadata''] q \<longrightarrow> diverge [''spec''] q \<longrightarrow> jget q u = jget q raw)"

lemma apply_mutate_conflict:
  assumes "owner_of E u = Some p" and "p \<noteq> zup_Name profile"
  shows "snd (apply_mutate E U r profile orgNs name raw u) \<noteq> None"
  using assms by (auto simp: apply_mutate_def owner_of_def mget_def Let_def split: prod.splits option.splits)

text \<open>The stages of a callback without an error: the owner reference is set, then the transformers run, then the labels are set.\<close>

lemma apply_mutate_stages:
  assumes "upa_ok E U at r" and "can_meta raw" and "apply_mutate E U r profile orgNs name raw u = (u', None)"
  obtains u2 u3 where
    "upa_SetControllerReference r profile (us_SetName U (us_SetNamespace U raw (ns_Name orgNs)) name) = (u2, None)"
    and "has_meta u2" and "\<And>q. diverge [''metadata''] q \<Longrightarrow> jget q u2 = jget q raw"
    and "u3 = foldl (\<lambda>u t. fst (t u orgNs)) u2 (upa_Transformers r)"
    and "can_meta u3" and "\<And>q. diverge [''spec''] q \<Longrightarrow> jget q u3 = jget q u2"
    and "u' = us_SetLabels U u3 (Some (AList.update resourceOwnerLabel (zup_Name profile) (entries (GetLabels E u))))"
proof -
  let ?u1 = "us_SetName U (us_SetNamespace U raw (ns_Name orgNs)) name"
  have ok: "unstr_ok E U" "nested_ok U" "owner_ref_ok (upa_SetControllerReference r)"
    "\<forall>t \<in> set (upa_Transformers r). transformer U t" using assms(1) by (simp_all add: upa_ok_def)
  note n = named_facts [OF ok(1) assms(2), where n = "ns_Name orgNs" and name = name]
  obtain u2 where s: "upa_SetControllerReference r profile ?u1 = (u2, None)"
    and u': "u' = us_SetLabels U (foldl (\<lambda>u t. fst (t u orgNs)) u2 (upa_Transformers r))
      (Some (AList.update resourceOwnerLabel (zup_Name profile) (entries (GetLabels E u))))"
    using assms(3) unfolding apply_mutate_def Let_def by (auto split: prod.splits option.splits if_splits)
  let ?u3 = "foldl (\<lambda>u t. fst (t u orgNs)) u2 (upa_Transformers r)"
  from ok(3) n(1) s have h2: "has_meta u2" and r2: "diverge [''metadata''] q \<Longrightarrow> jget q u2 = jget q ?u1" for q
    unfolding owner_ref_ok_def by blast+
  have r3: "diverge [''spec''] q \<Longrightarrow> jget q ?u3 = jget q u2" for q by (rule transformers_rest [OF ok(2,4)])
  have "has_meta ?u3" using h2 r3 [of "[''metadata'']"] by (simp add: has_meta_def)
  with that [OF s h2 _ refl has_can_meta r3 u'] show ?thesis using r2 n(4) by simp
qed

lemma apply_mutate_ok:
  assumes "upa_ok E U at r" and "can_meta raw" and "apply_mutate E U r profile orgNs name raw u = (u', None)"
  shows "owner_of E u' = Some (zup_Name profile)"
    and "k \<noteq> resourceOwnerLabel \<Longrightarrow> mget (GetLabels E u') k = mget (GetLabels E u) k"
    and "diverge [''metadata''] q \<Longrightarrow> diverge [''spec''] q \<Longrightarrow> jget q u' = jget q raw"
proof -
  have ok: "unstr_ok E U" using assms(1) by (simp add: upa_ok_def)
  from apply_mutate_stages [OF assms] obtain u2 u3 where r2: "\<And>q. diverge [''metadata''] q \<Longrightarrow> jget q u2 = jget q raw"
    and c3: "can_meta u3" and r3: "\<And>q. diverge [''spec''] q \<Longrightarrow> jget q u3 = jget q u2"
    and u': "u' = us_SetLabels U u3 (Some (AList.update resourceOwnerLabel (zup_Name profile) (entries (GetLabels E u))))" by metis
  note l = unstr_getD(6) [OF ok c3]
  show "owner_of E u' = Some (zup_Name profile)" by (simp add: owner_of_def u' l)
  show "k \<noteq> resourceOwnerLabel \<Longrightarrow> mget (GetLabels E u') k = mget (GetLabels E u) k" unfolding u' l by (simp add: mget_def)
  assume d: "diverge [''metadata''] q" "diverge [''spec''] q"
  have "jget q u' = jget q u3" unfolding u' by (rule meta_setterD(3) [OF unstr_settersD(3) [OF ok] c3 d(1)])
  with r3 [OF d(2)] r2 [OF d(1)] show "jget q u' = jget q raw" by simp
qed

text \<open>What the callback makes of the object that it is given: the stored one, or a new one.\<close>

definition made ::
    "ext \<Rightarrow> unstr \<Rightarrow> 'w ZoneUsageProfileApplyReconciler \<Rightarrow> ZoneUsageProfile \<Rightarrow> Namespace \<Rightarrow> string \<Rightarrow> json
      \<Rightarrow> json option \<Rightarrow> json \<Rightarrow> bool" where
  "made E U r profile orgNs name raw before u \<longleftrightarrow>
     apply_mutate E U r profile orgNs name raw (case before of None \<Rightarrow> newObject U raw orgNs name | Some old \<Rightarrow> old) = (u, None)"

lemma made_applied:
  assumes "upa_ok E U at r" and "can_meta raw" and "made E U r profile orgNs name raw before u"
  shows "applied E profile raw before u"
proof -
  have "unstr_ok E U" using assms(1) by (simp add: upa_ok_def)
  then have "mget (GetLabels E (case before of None \<Rightarrow> newObject U raw orgNs name | Some old \<Rightarrow> old)) l =
      (case before of None \<Rightarrow> None | Some old \<Rightarrow> mget (GetLabels E old) l)" for l
    by (simp add: newObject_facts(2) split: option.splits)
  with apply_mutate_ok [OF assms(1,2) assms(3) [unfolded made_def]] show ?thesis by (simp add: applied_def)
qed

lemma ensureWatch_frame: "watch_frame view r \<Longrightarrow> view (fst (fst (ensureWatch U r g (w, tr)))) = view w"
  by (auto simp: ensureWatch_def watch_frame_def split: prod.splits) (metis fst_conv)

lemma ensureWatch_cases:
  assumes "ensureWatch U r g (w, tr) = ((w', tr'), e)"
  shows "tr' = tr \<and> w' = w \<or> g \<notin> set tr \<and> tr' = tr @ [g] \<and> wt_Watch r g w = (w', e)"
    and "e = None \<Longrightarrow> g \<in> set tr'"
  using assms by (auto simp: ensureWatch_def split: if_splits prod.splits)

section \<open>Properties\<close>

lemma applyResource_facts:
  assumes "upa_ok E U at r" and "upa_ToUnstructured r resource = Inr raw" and "can_meta raw"
    and "applyResourceToNamespace E U r name orgNs resource profile (w, tr) = ((w', tr'), e)"
    and "k = (us_GVK U raw, ns_Name orgNs, name)"
  shows "(\<forall>k'. k' \<noteq> k \<longrightarrow> at w' k' = at w k') \<and>
    (\<forall>old p. at w k = Some old \<and> owner_of E old = Some p \<and> p \<noteq> zup_Name profile \<longrightarrow> at w' k = at w k \<and> e \<noteq> None) \<and>
    (e = None \<longrightarrow> (\<exists>u. at w' k = Some u \<and> made E U r profile orgNs name raw (at w k) u \<and> us_GVK U u \<in> set tr'))"
proof -
  let ?new = "newObject U raw orgNs name" and ?f = "apply_mutate E U r profile orgNs name raw"
  have ok: "unstr_ok E U" "cou_ok at (us_key U) (upa_CreateOrUpdate r)" "watch_frame at (upa_watcher r)"
    using assms(1) by (simp_all add: upa_ok_def)
  have key: "us_key U ?new = k" using newObject_facts(1) [OF ok(1)] assms(5) by simp
  obtain w1 u s' op e1 where c: "upa_CreateOrUpdate r ?new (capturing_none ?f) () w = (w1, u, s', op, e1)"
    by (cases "upa_CreateOrUpdate r ?new (capturing_none ?f) () w") auto
  obtain e2 where ew: "ensureWatch U (upa_watcher r) (us_GVK U u) (w1, tr) = ((w', tr'), e2)"
    and e: "e = (case e2 of None \<Rightarrow> e1 | Some x \<Rightarrow> Some (WrapErr ''unable to watch, object might not be reconciled: '' x []))"
    using assms(2,4) c by (auto simp: applyResourceToNamespace_def split: prod.splits option.splits)
  have at: "at w' = at w1" using ensureWatch_frame [OF ok(3), of U "us_GVK U u" w1 tr] ew by simp
  let ?base = "case at w k of None \<Rightarrow> ?new | Some old \<Rightarrow> old"
  obtain u1 fe where f: "?f ?base = (u1, fe)" by (cases "?f ?base")
  then have cf: "capturing_none ?f (case at w (us_key U ?new) of None \<Rightarrow> ?new | Some old \<Rightarrow> old) () = (u1, (), fe)"
    by (simp add: capturing_none_def key)
  have "\<forall>k'. k' \<noteq> k \<longrightarrow> at w' k' = at w k'" using cou_other [OF ok(2) c] key at by simp
  moreover have "at w' k = at w k \<and> e \<noteq> None"
    if o: "at w k = Some old" "owner_of E old = Some p" "p \<noteq> zup_Name profile" for old p
  proof -
    have fe: "fe \<noteq> None" using apply_mutate_conflict [OF o(2,3), of U r orgNs name raw] f o(1) by simp
    have "e1 \<noteq> None"
      using cou_stored [OF ok(2), of ?new "capturing_none ?f" "()" w w1 u s' op] c cf fe by (cases e1) auto
    then obtain x where x: "e1 = Some x" by blast
    with cou_failed(2) [OF ok(2) c [unfolded x] cf] fe key at e show ?thesis by (auto split: option.splits)
  qed
  moreover have "\<exists>u. at w' k = Some u \<and> made E U r profile orgNs name raw (at w k) u \<and> us_GVK U u \<in> set tr'" if "e = None"
  proof -
    from that e have e1: "e1 = None" "e2 = None" by (auto split: option.splits)
    from cou_stored [OF ok(2) c [unfolded e1]] cf key have st: "at w1 k = Some u" and fu: "?f ?base = (u, None)"
      using f by auto
    from fu have "made E U r profile orgNs name raw (at w k) u" by (simp add: made_def)
    with st at ensureWatch_cases(2) [OF ew e1(2)] show ?thesis by auto
  qed
  ultimately show ?thesis by blast
qed

lemma applyResource_frame:
  assumes "upa_ok E U at r" and "upa_ToUnstructured r resource = Inr raw" and "can_meta raw"
    and "applyResourceToNamespace E U r name orgNs resource profile (w, tr) = ((w', tr'), e)"
    and "k \<noteq> (us_GVK U raw, ns_Name orgNs, name)"
  shows "at w' k = at w k"
  by (rule applyResource_facts [OF assms(1-4) refl, THEN conjunct1, rule_format, OF assms(5)])

lemma applyResource_stored:
  assumes "upa_ok E U at r" and "upa_ToUnstructured r resource = Inr raw" and "can_meta raw"
    and "applyResourceToNamespace E U r name orgNs resource profile (w, tr) = ((w', tr'), e)" and "e = None"
  shows "\<exists>u. at w' (us_GVK U raw, ns_Name orgNs, name) = Some u \<and>
    made E U r profile orgNs name raw (at w (us_GVK U raw, ns_Name orgNs, name)) u"
  using applyResource_facts [OF assms(1-4) refl, THEN conjunct2, THEN conjunct2, rule_format, OF assms(5)] by auto

text \<open>
  C8: Applying an object of a profile to a namespace never touches another object. If the object exists and
  another profile owns it, it stays as it is and the result is an error. If there is no error, the object
  is stored, owned by the profile, with the labels it had before, and outside its metadata and its spec it
  is the object of the profile; and its kind is watched.
\<close>

theorem applyResource_owned:
  assumes "upa_ok E U at r" and "upa_ToUnstructured r resource = Inr raw" and "can_meta raw"
    and "applyResourceToNamespace E U r name orgNs resource profile (w, tr) = ((w', tr'), e)"
    and "k = (us_GVK U raw, ns_Name orgNs, name)"
  shows "(\<forall>k'. k' \<noteq> k \<longrightarrow> at w' k' = at w k') \<and>
    (\<forall>old p. at w k = Some old \<and> owner_of E old = Some p \<and> p \<noteq> zup_Name profile \<longrightarrow> at w' k = at w k \<and> e \<noteq> None) \<and>
    (e = None \<longrightarrow> (\<exists>u. at w' k = Some u \<and> applied E profile raw (at w k) u \<and> us_GVK U u \<in> set tr'))"
proof (intro conjI impI)
  note f = applyResource_facts [OF assms]
  show "\<forall>k'. k' \<noteq> k \<longrightarrow> at w' k' = at w k'" by (rule f [THEN conjunct1])
  show "\<forall>old p. at w k = Some old \<and> owner_of E old = Some p \<and> p \<noteq> zup_Name profile \<longrightarrow> at w' k = at w k \<and> e \<noteq> None"
    by (rule f [THEN conjunct2, THEN conjunct1])
  assume "e = None"
  from f [THEN conjunct2, THEN conjunct2, rule_format, OF this] obtain u where
    u: "at w' k = Some u" "made E U r profile orgNs name raw (at w k) u" "us_GVK U u \<in> set tr'" by (elim exE conjE)
  with made_applied [OF assms(1,3) u(2)] show "\<exists>u. at w' k = Some u \<and> applied E profile raw (at w k) u \<and> us_GVK U u \<in> set tr'"
    by (intro exI [of _ u] conjI)
qed

text \<open>
  Over any sequence of calls, each kind is watched at most once: the calls of \<open>Watch\<close> that are made
  are one for each kind in the tracker, in the order in which they were first asked for.
\<close>

theorem watched_once:
  assumes "foldl (\<lambda>st g. fst (ensureWatch U r g st)) (w, []) gs = (w', tracker)"
  shows "distinct tracker \<and> set tracker \<subseteq> set gs \<and> w' = foldl (\<lambda>w g. fst (wt_Watch r g w)) w tracker"
  using assms
proof (induction gs arbitrary: w' tracker rule: rev_induct)
  case (snoc g gs)
  obtain w1 tr where m: "foldl (\<lambda>st g. fst (ensureWatch U r g st)) (w, []) gs = (w1, tr)"
    by (cases "foldl (\<lambda>st g. fst (ensureWatch U r g st)) (w, []) gs")
  note ih = snoc.IH [OF m]
  obtain e where "ensureWatch U r g (w1, tr) = ((w', tracker), e)"
    using snoc.prems m by (cases "ensureWatch U r g (w1, tr)") auto
  from ensureWatch_cases(1) [OF this] ih show ?case by (elim disjE) auto
qed simp

text \<open>What the application of one object keeps, a reconciliation keeps.\<close>

lemma applyAll_keeps:
  assumes "\<And>name ns res profile st st' e. applyResourceToNamespace E U r name ns res profile st = (st', e) \<Longrightarrow> P st \<Longrightarrow> P st'"
  shows "applyAll E U r profile xs st = (st', events, errs) \<Longrightarrow> P st \<Longrightarrow> P st'"
proof (induction xs arbitrary: st events errs)
  case (Cons x xs)
  obtain ns name res where x: "x = (ns, name, res)" by (cases x) auto
  obtain st1 e where p: "applyResourceToNamespace E U r name ns res profile st = (st1, e)"
    by (cases "applyResourceToNamespace E U r name ns res profile st")
  obtain st2 evs es where q: "applyAll E U r profile xs st1 = (st2, evs, es)" by (cases "applyAll E U r profile xs st1") auto
  with Cons.prems(1) x p have "st2 = st'" by (cases e) auto
  with Cons.IH q assms [OF p Cons.prems(2)] show ?case by blast
qed simp

lemma apply_Reconcile_keeps:
  assumes "\<And>name ns res profile st st' e. applyResourceToNamespace E U r name ns res profile st = (st', e) \<Longrightarrow> P st \<Longrightarrow> P st'"
    and "apply_Reconcile E U now ord r req st = (st', events, e)" and "P st"
  shows "P st'"
proof (cases "st' = st")
  case False
  with assms(2) obtain profile nss errs where
    "applyAll E U r profile (toApply now ord profile nss) st = (st', events, errs)"
    by (auto simp: apply_Reconcile_def split: if_splits sum.splits prod.splits)
  from applyAll_keeps [where P = P, OF assms(1) this assms(3)] show ?thesis .
qed (use assms(3) in simp)

section \<open>A watch that fails\<close>

text \<open>
  The kinds that the agent watches in a state: only \<open>Watch\<close> adds one, the kind that it is called with. A step is a reconciliation of any
  profile, however it ends, or a move of everybody else, who cannot install a watch for the agent.
\<close>

definition watches_only :: "('w \<Rightarrow> GroupVersionKind set) \<Rightarrow> 'w ZoneUsageProfileApplyReconciler \<Rightarrow> bool" where
  "watches_only watched r \<longleftrightarrow> cou_frame watched (upa_CreateOrUpdate r) \<and>
     (\<forall>g w w' e. wt_Watch (upa_watcher r) g w = (w', e) \<longrightarrow> watched w' \<subseteq> insert g (watched w))"

inductive apply_step ::
    "ext \<Rightarrow> unstr \<Rightarrow> ('w \<Rightarrow> GroupVersionKind set) \<Rightarrow> 'w ZoneUsageProfileApplyReconciler
      \<Rightarrow> 'w \<times> GroupVersionKind list \<Rightarrow> 'w \<times> GroupVersionKind list \<Rightarrow> bool"
  for E U watched r where
  reconcile: "apply_Reconcile E U now ord r req st = (st', events, e) \<Longrightarrow> apply_step E U watched r st st'"
| others: "watched w' \<subseteq> watched w \<Longrightarrow> apply_step E U watched r (w, tr) (w', tr)"

lemma applyResource_unwatched:
  assumes "watches_only watched r" and "applyResourceToNamespace E U r name ns res profile st = (st', e)"
    and "g \<in> set (snd st) \<and> g \<notin> watched (fst st)"
  shows "g \<in> set (snd st') \<and> g \<notin> watched (fst st')"
proof (cases "upa_ToUnstructured r res")
  case (Inl err)
  with assms(2,3) show ?thesis by (cases st) (auto simp: applyResourceToNamespace_def)
next
  case (Inr raw)
  obtain w tr w' tr' where st: "st = (w, tr)" "st' = (w', tr')" by (cases st; cases st') auto
  let ?cou = "upa_CreateOrUpdate r (newObject U raw ns name) (capturing_none (apply_mutate E U r profile ns name raw)) () w"
  obtain w1 u s op e1 where c: "?cou = (w1, u, s, op, e1)" by (cases ?cou) auto
  obtain e2 where ew: "ensureWatch U (upa_watcher r) (us_GVK U u) (w1, tr) = ((w', tr'), e2)"
    using assms(2) Inr c st by (auto simp: applyResourceToNamespace_def split: prod.splits option.splits)
  have "watched (fst ?cou) = watched w" using assms(1) unfolding watches_only_def cou_frame_def by blast
  then have w1: "watched w1 = watched w" using c by simp
  from ensureWatch_cases(1) [OF ew] show ?thesis
  proof (elim disjE conjE)
    assume "us_GVK U u \<notin> set tr" "tr' = tr @ [us_GVK U u]" and "wt_Watch (upa_watcher r) (us_GVK U u) w1 = (w', e2)"
    moreover from this(3) assms(1) have "watched w' \<subseteq> insert (us_GVK U u) (watched w1)" unfolding watches_only_def by blast
    ultimately show ?thesis using assms(3) st w1 by auto
  qed (use assms(3) st w1 in simp)
qed

lemma apply_steps_unwatched:
  assumes "watches_only watched r" and "(apply_step E U watched r)\<^sup>*\<^sup>* st st'" and "g \<in> set (snd st) \<and> g \<notin> watched (fst st)"
  shows "g \<in> set (snd st') \<and> g \<notin> watched (fst st')"
  using assms(2)
proof (induction rule: rtranclp_induct)
  case (step st1 st2)
  from step.hyps(2) show ?case
  proof cases
    case (reconcile now ord req events e)
    from apply_Reconcile_keeps [where P = "\<lambda>st. g \<in> set (snd st) \<and> g \<notin> watched (fst st)",
        OF applyResource_unwatched [OF assms(1)] reconcile step.IH] show ?thesis .
  next
    case (others w' w tr)
    with step.IH show ?thesis by auto
  qed
qed (use assms(3) in simp)

text \<open>
  C40: A watch that cannot be installed is never tried again while the agent runs: the call that first asked for the kind sees the
  error, and after any further reconciliations and moves of the others the kind is still not watched, but every call that
  asks for it reports success and does nothing.
\<close>

theorem failed_watch_not_retried:
  assumes "watches_only watched r" and "wt_available (upa_watcher r)" and "\<not> us_GVKEmpty U g" and "g \<notin> set tr"
    and "wt_Watch (upa_watcher r) g w = (w1, Some err)" and "g \<notin> watched w1"
    and "(apply_step E U watched r)\<^sup>*\<^sup>* (w1, tr @ [g]) (w2, tr2)"
  shows "ensureWatch U (upa_watcher r) g (w, tr) = ((w1, tr @ [g]), Some err) \<and>
    g \<notin> watched w2 \<and> ensureWatch U (upa_watcher r) g (w2, tr2) = ((w2, tr2), None)"
proof -
  have "g \<in> set (snd (w1, tr @ [g])) \<and> g \<notin> watched (fst (w1, tr @ [g]))" using assms(6) by simp
  from apply_steps_unwatched [OF assms(1,7) this] have "g \<in> set tr2 \<and> g \<notin> watched w2" by simp
  with assms(2-5) show ?thesis by (simp add: ensureWatch_def)
qed

section \<open>Applying a profile to all namespaces\<close>

lemma applyAll_errs:
  "applyAll E U r profile xs st = (st', events, errs) \<Longrightarrow> length events = length errs \<and> None \<notin> set errs"
proof (induction xs arbitrary: st st' events errs)
  case (Cons x xs)
  obtain ns name res where x: "x = (ns, name, res)" by (cases x) auto
  obtain st1 e where p: "applyResourceToNamespace E U r name ns res profile st = (st1, e)"
    by (cases "applyResourceToNamespace E U r name ns res profile st")
  obtain st2 evs es where q: "applyAll E U r profile xs st1 = (st2, evs, es)" by (cases "applyAll E U r profile xs st1") auto
  from Cons.IH [OF q] Cons.prems x p q show ?case by (cases e) auto
qed simp

definition target_key :: "unstr \<Rightarrow> 'w ZoneUsageProfileApplyReconciler \<Rightarrow> Namespace \<times> string \<times> json \<Rightarrow> objKey" where
  "target_key U r = (\<lambda>(ns, name, res). (us_GVK U (projr (upa_ToUnstructured r res)), ns_Name ns, name))"

definition convertible :: "'w ZoneUsageProfileApplyReconciler \<Rightarrow> json \<Rightarrow> bool" where
  "convertible r res \<longleftrightarrow> (\<exists>raw. upa_ToUnstructured r res = Inr raw \<and> can_meta raw)"

lemma applyAll_other:
  assumes "upa_ok E U at r"
  shows "applyAll E U r profile xs (w, tr) = ((w', tr'), events, errs) \<Longrightarrow> \<forall>x \<in> set xs. convertible r (snd (snd x)) \<Longrightarrow>
    k \<notin> target_key U r ` set xs \<Longrightarrow> at w' k = at w k"
proof (induction xs arbitrary: w tr w' tr' events errs)
  case (Cons x xs)
  obtain ns name res where x: "x = (ns, name, res)" by (cases x) auto
  with Cons.prems(2) obtain raw where raw: "upa_ToUnstructured r res = Inr raw" "can_meta raw" by (auto simp: convertible_def)
  obtain w1 tr1 e where p: "applyResourceToNamespace E U r name ns res profile (w, tr) = ((w1, tr1), e)"
    by (cases "applyResourceToNamespace E U r name ns res profile (w, tr)") auto
  obtain w2 tr2 evs es where q: "applyAll E U r profile xs (w1, tr1) = ((w2, tr2), evs, es)"
    by (cases "applyAll E U r profile xs (w1, tr1)") auto
  have "w' = w2" using Cons.prems(1) x p q by (cases e) auto
  moreover have "at w2 k = at w1 k" using Cons.IH [OF q] Cons.prems(2,3) by simp
  moreover have "at w1 k = at w k"
    using applyResource_frame [OF assms raw p] Cons.prems(3) x raw by (auto simp: target_key_def)
  ultimately show ?case by simp
qed simp

lemma applyAll_ok:
  assumes "upa_ok E U at r"
  shows "applyAll E U r profile xs (w, tr) = ((w', tr'), events, []) \<Longrightarrow> \<forall>x \<in> set xs. convertible r (snd (snd x)) \<Longrightarrow>
    distinct (map (target_key U r) xs) \<Longrightarrow> (ns, name, res) \<in> set xs \<Longrightarrow> upa_ToUnstructured r res = Inr raw \<Longrightarrow>
    \<exists>u. at w' (us_GVK U raw, ns_Name ns, name) = Some u \<and>
      made E U r profile ns name raw (at w (us_GVK U raw, ns_Name ns, name)) u"
proof (induction xs arbitrary: w tr w' tr' events)
  case (Cons x xs)
  let ?k = "(us_GVK U raw, ns_Name ns, name)"
  obtain ns1 name1 res1 where x: "x = (ns1, name1, res1)" by (cases x) auto
  with Cons.prems(2) obtain raw1 where raw: "upa_ToUnstructured r res1 = Inr raw1" "can_meta raw1" by (auto simp: convertible_def)
  obtain w1 tr1 e where p: "applyResourceToNamespace E U r name1 ns1 res1 profile (w, tr) = ((w1, tr1), e)"
    by (cases "applyResourceToNamespace E U r name1 ns1 res1 profile (w, tr)") auto
  obtain w2 tr2 evs es where q: "applyAll E U r profile xs (w1, tr1) = ((w2, tr2), evs, es)"
    by (cases "applyAll E U r profile xs (w1, tr1)") auto
  with Cons.prems(1) x p have e: "e = None" and q: "applyAll E U r profile xs (w1, tr1) = ((w', tr'), evs, [])"
    by (cases e; auto)+
  show ?case
  proof (cases "(ns, name, res) = x")
    case True
    then have k: "?k \<notin> target_key U r ` set xs" using Cons.prems(3,5) x by (auto simp: target_key_def)
    from applyAll_other [OF assms q _ k] Cons.prems(2) have "at w' ?k = at w1 ?k" by simp
    with applyResource_stored [OF assms raw p e] True x raw Cons.prems(5) show ?thesis by auto
  next
    case False
    with Cons.prems(4) have m: "(ns, name, res) \<in> set xs" by simp
    then have "?k \<in> target_key U r ` set xs" using Cons.prems(5) by (force simp: target_key_def)
    with Cons.prems(3) have "?k \<noteq> target_key U r x" by auto
    then have "at w1 ?k = at w ?k" using applyResource_frame [OF assms raw p] x raw by (simp add: target_key_def)
    with Cons.IH [OF q _ _ m Cons.prems(5)] Cons.prems(2,3) show ?thesis by simp
  qed
qed simp

definition deletion_passed :: "(string \<Rightarrow> int) \<Rightarrow> Namespace \<Rightarrow> bool" where
  "deletion_passed now ns \<longleftrightarrow> (case ns_DeletionTimestamp ns of None \<Rightarrow> False | Some t \<Rightarrow> t < now (ns_Name ns))"

definition profile_resources :: "ZoneUsageProfile \<Rightarrow> json gomap" where
  "profile_resources profile = ups_Resources (zups_UpstreamSpec (zup_Spec profile))"

lemma set_toApply:
  assumes "\<And>n. is_order (ord n)"
  shows "set (toApply now ord profile nss) =
    {(ns, x) | ns x. ns \<in> set nss \<and> \<not> deletion_passed now ns \<and> x \<in> set (entries (profile_resources profile))}"
  by (auto simp: toApply_def deletion_passed_def profile_resources_def is_order_set [OF assms] split: if_splits)

lemma disjoint_by_fst: "fst ` A \<subseteq> {x} \<Longrightarrow> fst ` B \<subseteq> S \<Longrightarrow> x \<notin> S \<Longrightarrow> A \<inter> B = {}"
  by force

lemma toApply_distinct:
  assumes "\<And>n. is_order (ord n)" and "mwf (profile_resources profile)" and "distinct (map ns_Name nss)"
  shows "distinct (map (\<lambda>(ns, name, res). (ns_Name ns, name)) (toApply now ord profile nss))"
  using assms(3)
proof (induction nss)
  case (Cons ns nss)
  let ?f = "\<lambda>(ns, name, res :: json). (ns_Name ns, name)"
  let ?now = "if deletion_passed now ns then [] else map (Pair ns) (ord (ns_Name ns) (entries (profile_resources profile)))"
  have split: "toApply now ord profile (ns # nss) = ?now @ toApply now ord profile nss"
    by (simp add: toApply_def deletion_passed_def profile_resources_def)
  have "distinct (map fst (ord (ns_Name ns) (entries (profile_resources profile))))"
    using is_order_keys [OF assms(1)] assms(2) by (simp add: mwf_def)
  then have "distinct (map (Pair (ns_Name ns)) (map fst (ord (ns_Name ns) (entries (profile_resources profile)))))"
    by (simp add: distinct_map inj_on_def)
  moreover have "map ?f (map (Pair ns) l) = map (Pair (ns_Name ns)) (map fst l)" for l :: "(string \<times> json) list"
    by (induction l) auto
  ultimately have d: "distinct (map ?f ?now)" by (simp del: map_map)
  have "set (map ?f ?now) \<inter> set (map ?f (toApply now ord profile nss)) = {}"
  proof (rule disjoint_by_fst)
    show "fst ` set (map ?f ?now) \<subseteq> {ns_Name ns}" by auto
    show "fst ` set (map ?f (toApply now ord profile nss)) \<subseteq> ns_Name ` set nss"
      by (auto simp: set_toApply [OF assms(1)])
    show "ns_Name ns \<notin> ns_Name ` set nss" using Cons.prems by simp
  qed
  moreover have "distinct (map ?f (toApply now ord profile nss))" using Cons by simp
  ultimately show ?case using d unfolding split map_append distinct_append by (intro conjI)
qed (simp add: toApply_def)

lemma target_distinct:
  assumes "distinct (map (\<lambda>(ns, name, res). (ns_Name ns, name)) xs)"
  shows "distinct (map (target_key U r) xs)"
proof -
  have "map (\<lambda>(ns, name, res). (ns_Name ns, name)) xs = map snd (map (target_key U r) xs)"
    by (auto simp: target_key_def)
  with assms show ?thesis by (metis distinct_map)
qed

lemma apply_Reconcile_all:
  assumes "combine_ok E" and "upa_SelectedProfile r = [] \<or> upa_SelectedProfile r = req_Name req"
    and "upa_Get r (req_Name req) (fst st) = Inr profile" and "upa_ListHasLabel r (upa_OrganizationLabel r) (fst st) = Inr nss"
    and "apply_Reconcile E U now ord r req st = (st', events, None)"
  shows "applyAll E U r profile (toApply now ord profile nss) st = (st', events, [])"
proof -
  obtain st1 evs errs where a: "applyAll E U r profile (toApply now ord profile nss) st = (st1, evs, errs)"
    by (cases "applyAll E U r profile (toApply now ord profile nss) st") auto
  with assms(2-5) have st: "st1 = st'" "evs = events" "multierr_Combine E errs = None" by (auto simp: apply_Reconcile_def)
  have "errs = []" using st(3) assms(1) applyAll_errs [OF a] by (cases errs) (auto simp: combine_ok_def)
  with a st show ?thesis by simp
qed

lemma apply_Reconcile_made:
  assumes "upa_ok E U at r" and "combine_ok E" and "\<And>n. is_order (ord n)"
    and "upa_SelectedProfile r = [] \<or> upa_SelectedProfile r = req_Name req"
    and "upa_Get r (req_Name req) w = Inr profile" and "upa_ListHasLabel r (upa_OrganizationLabel r) w = Inr nss"
    and "distinct (map ns_Name nss)" and "mwf (profile_resources profile)"
    and "\<forall>x \<in> set (entries (profile_resources profile)). convertible r (snd x)"
    and "apply_Reconcile E U now ord r req (w, tr) = ((w', tr'), events, None)"
  shows "events = [] \<and>
    (\<forall>ns \<in> set nss. \<not> deletion_passed now ns \<longrightarrow>
       (\<forall>name res raw. mget (profile_resources profile) name = Some res \<longrightarrow> upa_ToUnstructured r res = Inr raw \<longrightarrow>
          (\<exists>u. at w' (us_GVK U raw, ns_Name ns, name) = Some u \<and>
               made E U r profile ns name raw (at w (us_GVK U raw, ns_Name ns, name)) u)))"
proof -
  let ?xs = "toApply now ord profile nss"
  have a: "applyAll E U r profile ?xs (w, tr) = ((w', tr'), events, [])"
    by (rule apply_Reconcile_all [OF assms(2,4) _ _ assms(10)]) (use assms(5,6) in simp_all)
  have c: "\<forall>x \<in> set ?xs. convertible r (snd (snd x))" using assms(9) by (auto simp: set_toApply [OF assms(3)])
  have d: "distinct (map (target_key U r) ?xs)" using toApply_distinct [OF assms(3,8,7)] by (rule target_distinct)
  have "\<exists>u. at w' (us_GVK U raw, ns_Name ns, name) = Some u \<and>
      made E U r profile ns name raw (at w (us_GVK U raw, ns_Name ns, name)) u"
    if n: "ns \<in> set nss" "\<not> deletion_passed now ns" and m: "mget (profile_resources profile) name = Some res"
      and raw: "upa_ToUnstructured r res = Inr raw" for ns name res raw
  proof -
    from n map_of_SomeD [OF m [unfolded mget_def]] have "(ns, name, res) \<in> set ?xs" by (simp add: set_toApply [OF assms(3)])
    from applyAll_ok [OF assms(1) a c d this raw] show ?thesis .
  qed
  moreover have "events = []" using applyAll_errs [OF a] by simp
  ultimately show ?thesis by blast
qed

text \<open>
  A reconciliation of a profile that succeeds has applied every object of the profile to every
  namespace of an organization whose deletion time has not passed, in whatever order the objects are
  visited, and has recorded no event.
\<close>

theorem apply_Reconcile_complete:
  assumes "upa_ok E U at r" and "combine_ok E" and "\<And>n. is_order (ord n)"
    and "upa_SelectedProfile r = [] \<or> upa_SelectedProfile r = req_Name req"
    and "upa_Get r (req_Name req) w = Inr profile" and "upa_ListHasLabel r (upa_OrganizationLabel r) w = Inr nss"
    and "distinct (map ns_Name nss)" and "mwf (profile_resources profile)"
    and "\<forall>x \<in> set (entries (profile_resources profile)). convertible r (snd x)"
    and "apply_Reconcile E U now ord r req (w, tr) = ((w', tr'), events, None)"
  shows "events = [] \<and>
    (\<forall>ns \<in> set nss. \<not> deletion_passed now ns \<longrightarrow>
       (\<forall>name res raw. mget (profile_resources profile) name = Some res \<longrightarrow> upa_ToUnstructured r res = Inr raw \<longrightarrow>
          (\<exists>u. at w' (us_GVK U raw, ns_Name ns, name) = Some u \<and>
               applied E profile raw (at w (us_GVK U raw, ns_Name ns, name)) u)))"
proof -
  have "can_meta raw" if "mget (profile_resources profile) name = Some res" "upa_ToUnstructured r res = Inr raw" for name res raw
    using assms(9) map_of_SomeD [OF that(1) [unfolded mget_def]] that(2) by (auto simp: convertible_def)
  with apply_Reconcile_made [OF assms] show ?thesis by (meson made_applied [OF assms(1)])
qed

text \<open>
  When reconciling a profile that exists on the control API succeeds, the profile of the same name
  in the cluster has its spec, one event says so, and no other profile has changed.
\<close>

theorem sync_Reconcile_copies:
  assumes "cou_ok profiles zup_Name (ups_CreateOrUpdate r)" and "ups_ForeignGet r (req_Name req) w = Inr upstream"
    and "sync_Reconcile r req w = (w', events, None)"
  shows "(\<exists>p. profiles w' (upr_Name upstream) = Some p \<and> zups_UpstreamSpec (zup_Spec p) = upr_Spec upstream) \<and>
    length events = 1 \<and> (\<forall>n. n \<noteq> upr_Name upstream \<longrightarrow> profiles w' n = profiles w n)"
proof -
  let ?new = "\<lparr>zup_Name = upr_Name upstream, zup_Spec = \<lparr>zups_UpstreamSpec = zeroSpec\<rparr>\<rparr>"
  let ?f = "capturing_none (profile_mutate (upr_Spec upstream))"
  obtain w1 p s op e where c: "ups_CreateOrUpdate r ?new ?f () w = (w1, p, s, op, e)"
    by (cases "ups_CreateOrUpdate r ?new ?f () w") auto
  with assms(2,3) have e: "e = None" "w' = w1" and ev: "length events = 1"
    by (auto simp: sync_Reconcile_def split: option.splits sum.splits)
  from cou_stored [OF assms(1) c [unfolded e(1)]] have "profiles w1 (upr_Name upstream) = Some p"
    "zups_UpstreamSpec (zup_Spec p) = upr_Spec upstream"
    by (auto simp: capturing_none_def profile_mutate_def)
  with cou_other [OF assms(1) c] ev e(2) show ?thesis by auto
qed

section \<open>Concrete controllers\<close>

lemma setMeta_has: "can_meta j \<Longrightarrow> has_meta (setMeta k v j)"
  by (auto simp: can_meta_def has_meta_def setMeta_def)

lemma setMeta_get: "can_meta j \<Longrightarrow> jget [''metadata'', k'] (setMeta k v j) = (if k' = k then Some v else jget [''metadata'', k'] j)"
  by (auto simp: can_meta_def setMeta_def)

lemma setMeta_rest: "diverge [''metadata''] q \<Longrightarrow> jget q (setMeta k v j) = jget q j"
  by (cases q) (auto simp: setMeta_def split: json.splits option.splits)

lemma sample_meta_setter: "meta_setter sample_unstr (setMeta k v)"
proof -
  have "getString [''kind''] (setMeta k v j) = getString [''kind''] j" for j
    using setMeta_rest [of "[''kind'']" k v j] by (simp add: getString_def)
  then show ?thesis by (simp add: meta_setter_def setMeta_has setMeta_rest sample_unstr_def)
qed

lemma sample_unstr_simps:
  "us_SetName sample_unstr j n = setMeta ''name'' (JStr n) j" "us_SetNamespace sample_unstr j n = setMeta ''namespace'' (JStr n) j"
  "us_SetLabels sample_unstr j l = setMeta ''labels'' (json_of_map (entries l)) j"
  "us_GetName sample_unstr = getString [''metadata'', ''name'']" "us_GetNamespace sample_unstr = getString [''metadata'', ''namespace'']"
  by (simp_all add: sample_unstr_def)

lemma sample_labels: "can_meta j \<Longrightarrow> mget (GetLabels sample_ext (setMeta ''labels'' (json_of_map l) j)) k = map_of l k"
  by (simp add: sample_ext_simps string_map_at_def setMeta_get)

lemma sample_labels_other: "can_meta j \<Longrightarrow> k \<noteq> ''labels'' \<Longrightarrow> GetLabels sample_ext (setMeta k v j) = GetLabels sample_ext j"
  by (simp add: sample_ext_simps string_map_at_def setMeta_get)

lemma sample_unstr_ok: "unstr_ok sample_ext sample_unstr"
  unfolding unstr_ok_def
proof (intro conjI allI impI)
  show "meta_setter sample_unstr (\<lambda>j. us_SetName sample_unstr j n)" "meta_setter sample_unstr (\<lambda>j. us_SetNamespace sample_unstr j n)"
    "meta_setter sample_unstr (\<lambda>j. us_SetLabels sample_unstr j l)" for n l
    using sample_meta_setter by (simp_all add: sample_unstr_simps)
qed (simp_all add: sample_unstr_simps getString_def setMeta_get sample_labels sample_labels_other,
     simp_all add: sample_unstr_def getString_def can_meta_def sample_ext_simps string_map_at_def)

type_synonym upa_world = "objKey \<Rightarrow> json option"

definition sample_upa :: "upa_world ZoneUsageProfileApplyReconciler" where
  "sample_upa =
     \<lparr>upa_Get = (\<lambda>n w. Inr \<lparr>zup_Name = n, zup_Spec = \<lparr>zups_UpstreamSpec =
        \<lparr>ups_NamespaceCount = 1, ups_Resources = Some [(''q'', JObj [(''kind'', JStr ''ResourceQuota'')])]\<rparr>\<rparr>\<rparr>),
      upa_ListHasLabel = (\<lambda>l w. Inr [\<lparr>ns_Name = ''n'', ns_Labels = None, ns_Annotations = None, ns_DeletionTimestamp = None\<rparr>]),
      upa_CreateOrUpdate = store_cou (us_key sample_unstr), upa_ToUnstructured = Inr,
      upa_SetControllerReference = (\<lambda>p j. (j, None)), upa_watcher = \<lparr>wt_available = True, wt_Watch = (\<lambda>g w. (w, None))\<rparr>,
      upa_OrganizationLabel = ''org'', upa_Transformers = [], upa_SelectedProfile = ''p''\<rparr>"

lemma sample_upa_ok: "upa_ok sample_ext sample_unstr (\<lambda>w. w) sample_upa"
proof -
  have "cou_ok (\<lambda>w. w) (us_key sample_unstr) (upa_CreateOrUpdate sample_upa)"
    by (simp add: sample_upa_def store_cou_ok)
  then show ?thesis
    by (simp add: upa_ok_def sample_unstr_ok sample_unstr_nested sample_upa_def watch_frame_def owner_ref_ok_def)
qed

definition sample_profile :: ZoneUsageProfile where
  "sample_profile = \<lparr>zup_Name = ''p'', zup_Spec = \<lparr>zups_UpstreamSpec =
     \<lparr>ups_NamespaceCount = 1, ups_Resources = Some [(''q'', JObj [(''kind'', JStr ''ResourceQuota'')])]\<rparr>\<rparr>\<rparr>"

definition sample_upa_ns :: Namespace where
  "sample_upa_ns = \<lparr>ns_Name = ''n'', ns_Labels = None, ns_Annotations = None, ns_DeletionTimestamp = None\<rparr>"

definition sample_raw_quota :: json where
  "sample_raw_quota = JObj [(''kind'', JStr ''ResourceQuota'')]"

lemma sample_upa_apply:
  "\<exists>w' tr'. applyResourceToNamespace sample_ext sample_unstr sample_upa ''q'' sample_upa_ns sample_raw_quota sample_profile (Map.empty, []) =
     ((w', tr'), None)"
  by (simp add: applyResourceToNamespace_def, simp add: sample_upa_def store_cou_def capturing_none_def apply_mutate_def Let_def
      newObject_def sample_unstr_simps sample_ext_simps string_map_at_def)
     (simp add: sample_unstr_def ensureWatch_def sample_raw_quota_def setMeta_def getString_def)

lemma sample_can_meta: "can_meta sample_raw_quota"
  by (simp add: can_meta_def sample_raw_quota_def)

theorem applyResource_owned_witness:
  "\<exists>w' u. w' (us_GVK sample_unstr sample_raw_quota, ''n'', ''q'') = Some u \<and> owner_of sample_ext u = Some ''p'' \<and>
     jget [''kind''] u = Some (JStr ''ResourceQuota'')"
proof -
  obtain w' tr' where a: "applyResourceToNamespace sample_ext sample_unstr sample_upa ''q'' sample_upa_ns sample_raw_quota sample_profile
      (Map.empty, []) = ((w', tr'), None)"
    using sample_upa_apply by blast
  have t: "upa_ToUnstructured sample_upa sample_raw_quota = Inr sample_raw_quota" by (simp add: sample_upa_def)
  from applyResource_owned [OF sample_upa_ok t sample_can_meta a refl] obtain u where
    "w' (us_GVK sample_unstr sample_raw_quota, ''n'', ''q'') = Some u" and ap: "applied sample_ext sample_profile sample_raw_quota None u"
    by (auto simp: sample_upa_ns_def)
  moreover from ap have "jget [''kind''] u = jget [''kind''] sample_raw_quota" unfolding applied_def by (elim conjE) simp
  moreover from ap have "owner_of sample_ext u = Some ''p''" by (simp add: applied_def sample_profile_def)
  ultimately show ?thesis by (auto simp: sample_raw_quota_def)
qed

theorem watched_once_witness:
  "\<exists>w' tracker. foldl (\<lambda>st g. fst (ensureWatch sample_unstr (upa_watcher sample_upa) g st)) (Map.empty, [])
      [us_GVK sample_unstr sample_raw_quota, us_GVK sample_unstr sample_raw_quota] = (w', tracker) \<and> distinct tracker"
proof -
  let ?st = "foldl (\<lambda>st g. fst (ensureWatch sample_unstr (upa_watcher sample_upa) g st)) (Map.empty, [])
      [us_GVK sample_unstr sample_raw_quota, us_GVK sample_unstr sample_raw_quota]"
  obtain w' tracker where f: "?st = (w', tracker)" by (cases ?st)
  with watched_once [OF f] show ?thesis by blast
qed

lemma sample_apply_Reconcile:
  "\<exists>w' tr' events. apply_Reconcile sample_ext sample_unstr (\<lambda>_. 0) (\<lambda>_ al. al) sample_upa \<lparr>req_Namespace = [], req_Name = ''p''\<rparr>
     (Map.empty, []) = ((w', tr'), events, None)"
proof -
  obtain w' tr' where a: "applyResourceToNamespace sample_ext sample_unstr sample_upa ''q'' sample_upa_ns sample_raw_quota sample_profile
      (Map.empty, []) = ((w', tr'), None)"
    using sample_upa_apply by blast
  have t: "toApply (\<lambda>_. 0) (\<lambda>_ al. al) sample_profile [sample_upa_ns] = [(sample_upa_ns, ''q'', sample_raw_quota)]"
    by (simp add: toApply_def sample_profile_def sample_upa_ns_def sample_raw_quota_def)
  have g: "upa_Get sample_upa ''p'' w = Inr sample_profile" "upa_ListHasLabel sample_upa l w = Inr [sample_upa_ns]"
    "upa_SelectedProfile sample_upa = ''p''" for l w
    by (simp_all add: sample_upa_def sample_profile_def sample_upa_ns_def)
  from a g t sample_ext_laws(1) show ?thesis by (simp add: apply_Reconcile_def combine_ok_def)
qed

text \<open>A cluster without the kind of the object: every call of \<open>Watch\<close> fails.\<close>

definition broken_upa :: "upa_world ZoneUsageProfileApplyReconciler" where
  "broken_upa = sample_upa\<lparr>upa_watcher := \<lparr>wt_available = True, wt_Watch = (\<lambda>g w. (w, Some (NewErr ''no match'')))\<rparr>\<rparr>"

theorem failed_watch_not_retried_witness:
  "\<exists>w2 tr2 events e. apply_Reconcile sample_ext sample_unstr (\<lambda>_. 0) (\<lambda>_ al. al) broken_upa \<lparr>req_Namespace = [], req_Name = ''p''\<rparr>
     (Map.empty, [us_GVK sample_unstr sample_raw_quota]) = ((w2, tr2), events, e) \<and>
   ensureWatch sample_unstr (upa_watcher broken_upa) (us_GVK sample_unstr sample_raw_quota) (Map.empty, []) =
     ((Map.empty, [us_GVK sample_unstr sample_raw_quota]), Some (NewErr ''no match'')) \<and>
   ensureWatch sample_unstr (upa_watcher broken_upa) (us_GVK sample_unstr sample_raw_quota) (w2, tr2) = ((w2, tr2), None)"
proof -
  let ?g = "us_GVK sample_unstr sample_raw_quota"
  obtain w2 tr2 events e where a: "apply_Reconcile sample_ext sample_unstr (\<lambda>_. 0) (\<lambda>_ al. al) broken_upa
      \<lparr>req_Namespace = [], req_Name = ''p''\<rparr> (Map.empty, [?g]) = ((w2, tr2), events, e)"
    by (metis surj_pair)
  have w: "watches_only (\<lambda>w. {}) broken_upa" by (simp add: watches_only_def cou_frame_def)
  have b: "wt_available (upa_watcher broken_upa)" "wt_Watch (upa_watcher broken_upa) ?g Map.empty = (Map.empty, Some (NewErr ''no match''))"
    by (simp_all add: broken_upa_def)
  have n: "\<not> us_GVKEmpty sample_unstr ?g" by (simp add: sample_unstr_def sample_raw_quota_def getString_def)
  have s: "(apply_step sample_ext sample_unstr (\<lambda>w. {}) broken_upa)\<^sup>*\<^sup>* (Map.empty, [] @ [?g]) (w2, tr2)"
    unfolding append_Nil by (rule r_into_rtranclp, rule apply_step.reconcile, rule a)
  have m: "?g \<notin> set []" "?g \<notin> {}" by simp_all
  from failed_watch_not_retried [OF w b(1) n m(1) b(2) m(2) s] a show ?thesis by auto
qed

theorem apply_Reconcile_complete_witness:
  "\<exists>w' u. w' (us_GVK sample_unstr sample_raw_quota, ''n'', ''q'') = Some u \<and> owner_of sample_ext u = Some ''p''"
proof -
  obtain w' tr' events where a: "apply_Reconcile sample_ext sample_unstr (\<lambda>_. 0) (\<lambda>_ al. al) sample_upa
      \<lparr>req_Namespace = [], req_Name = ''p''\<rparr> (Map.empty, []) = ((w', tr'), events, None)"
    using sample_apply_Reconcile by blast
  have g: "upa_SelectedProfile sample_upa = [] \<or> upa_SelectedProfile sample_upa = req_Name \<lparr>req_Namespace = [], req_Name = ''p''\<rparr>"
    "upa_Get sample_upa (req_Name \<lparr>req_Namespace = [], req_Name = ''p''\<rparr>) Map.empty = Inr sample_profile"
    "upa_ListHasLabel sample_upa (upa_OrganizationLabel sample_upa) Map.empty = Inr [sample_upa_ns]"
    "distinct (map ns_Name [sample_upa_ns])" "mwf (profile_resources sample_profile)"
    by (simp_all add: sample_upa_def sample_profile_def sample_upa_ns_def profile_resources_def)
  have c: "\<forall>x \<in> set (entries (profile_resources sample_profile)). convertible sample_upa (snd x)"
    using sample_can_meta by (simp add: sample_profile_def profile_resources_def convertible_def sample_upa_def sample_raw_quota_def)
  have m: "mget (profile_resources sample_profile) ''q'' = Some sample_raw_quota"
    by (simp add: sample_profile_def profile_resources_def sample_raw_quota_def)
  from apply_Reconcile_complete [OF sample_upa_ok sample_ext_laws(1) is_order_id g c a] obtain u where
    "w' (us_GVK sample_unstr sample_raw_quota, ns_Name sample_upa_ns, ''q'') = Some u"
    "applied sample_ext sample_profile sample_raw_quota None u"
    using m by (auto simp: deletion_passed_def sample_upa_ns_def) (auto simp: sample_upa_def)
  then show ?thesis by (auto simp: applied_def sample_upa_ns_def sample_profile_def)
qed

definition sample_ups :: "(string \<Rightarrow> ZoneUsageProfile option) ZoneUsageProfileSyncReconciler" where
  "sample_ups = \<lparr>ups_ForeignGet = (\<lambda>n w. Inr \<lparr>upr_Name = n, upr_Spec = \<lparr>ups_NamespaceCount = 7, ups_Resources = None\<rparr>\<rparr>),
     ups_CreateOrUpdate = store_cou zup_Name, ups_Get = (\<lambda>n w. case w n of None \<Rightarrow> Inl (NotFound n) | Some p \<Rightarrow> Inr p)\<rparr>"

theorem sync_Reconcile_copies_witness:
  "\<exists>w' events p. sync_Reconcile sample_ups \<lparr>req_Namespace = [], req_Name = ''p''\<rparr> Map.empty = (w', events, None) \<and>
     w' ''p'' = Some p \<and> ups_NamespaceCount (zups_UpstreamSpec (zup_Spec p)) = 7"
proof -
  have c: "cou_ok (\<lambda>w. w) zup_Name (ups_CreateOrUpdate sample_ups)" by (simp add: sample_ups_def store_cou_ok)
  have g: "ups_ForeignGet sample_ups (req_Name \<lparr>req_Namespace = [], req_Name = ''p''\<rparr>) Map.empty =
      Inr \<lparr>upr_Name = ''p'', upr_Spec = \<lparr>ups_NamespaceCount = 7, ups_Resources = None\<rparr>\<rparr>" by (simp add: sample_ups_def)
  have "\<exists>w' events. sync_Reconcile sample_ups \<lparr>req_Namespace = [], req_Name = ''p''\<rparr> Map.empty = (w', events, None)"
    by (simp add: sync_Reconcile_def sample_ups_def store_cou_def capturing_none_def profile_mutate_def)
  then obtain w' events where r: "sync_Reconcile sample_ups \<lparr>req_Namespace = [], req_Name = ''p''\<rparr> Map.empty = (w', events, None)" by blast
  from sync_Reconcile_copies [OF c g r] r show ?thesis by auto
qed

end
