(* ===== verification/LegacyQuota.thy ===== *)
theory LegacyQuota
  imports Cluster
begin

text \<open>
  controllers/legacy_resource_quota_controller.go: the default resource quotas and the default limit
  range of the namespaces of organizations, with the limits that annotations of the namespace override.
\<close>

section \<open>The controller\<close>

record 'q ResourceQuotaSpec =
  rqs_Hard :: "'q gomap"
  rqs_Scopes :: "string list"
  rqs_ScopeSelector :: "json option"

record 'q ResourceQuota =
  rqo_Namespace :: string
  rqo_Name :: string
  rqo_Controller :: "string option"
  rqo_Spec :: "'q ResourceQuotaSpec"

record 'l LimitRange =
  lro_Namespace :: string
  lro_Name :: string
  lro_Controller :: "string option"
  lro_Spec :: 'l

text \<open>
  The callback for a quota captures the copy of the default spec, which it changes, and the list of
  errors. \<open>ParseQuantity\<close> and \<open>json.Unmarshal\<close> into a list of quantities are parameters, as is the zero
  value of the spec of a limit range.
\<close>

record ('w, 'q, 'l) LegacyResourceQuotaReconciler =
  lq_getNamespace :: "string \<Rightarrow> 'w \<Rightarrow> err + Namespace"
  lq_CreateOrUpdateQuota :: "('w, 'q ResourceQuota, 'q ResourceQuotaSpec \<times> err list) CreateOrUpdate"
  lq_CreateOrUpdateLimitRange :: "('w, 'l LimitRange, unit) CreateOrUpdate"
  lq_ControlQuota :: "Namespace \<Rightarrow> 'q ResourceQuota \<Rightarrow> 'q ResourceQuota \<times> err option"
  lq_ControlLimitRange :: "Namespace \<Rightarrow> 'l LimitRange \<Rightarrow> 'l LimitRange \<times> err option"
  lq_ParseQuantity :: "string \<Rightarrow> err + 'q"
  lq_unmarshalResourceList :: "string \<Rightarrow> err + 'q gomap"
  lq_zeroLimits :: 'l
  lq_OrganizationLabel :: string
  ResourceQuotaAnnotationBase :: string
  DefaultResourceQuotas :: "'q ResourceQuotaSpec gomap"
  LimitRangeName :: string
  DefaultLimitRange :: 'l

definition storageAnnotation :: "('w, 'q, 'l) LegacyResourceQuotaReconciler \<Rightarrow> Namespace \<Rightarrow> string \<Rightarrow> string" where
  "storageAnnotation r ns name = mstr (ns_Annotations ns) (ResourceQuotaAnnotationBase r @ ''/'' @ name @ ''.storageclasses'')"

definition storageQuotasOf ::
    "('w, 'q, 'l) LegacyResourceQuotaReconciler \<Rightarrow> Namespace \<Rightarrow> string \<Rightarrow> 'q gomap \<times> err list" where
  "storageQuotasOf r ns name =
     (let sqa = storageAnnotation r ns name
      in if sqa \<noteq> [] then
           (case lq_unmarshalResourceList r sqa of
              Inl err \<Rightarrow> (Some [], [WrapErr ''failed to unmarshal storage classes: '' err []])
            | Inr storageQuotas \<Rightarrow> (storageQuotas, []))
         else (Some [], []))"

definition hardAnnotation :: "('w, 'q, 'l) LegacyResourceQuotaReconciler \<Rightarrow> string \<Rightarrow> string \<Rightarrow> string" where
  "hardAnnotation r name k = ResourceQuotaAnnotationBase r @ ''/'' @ name @ ''.'' @ ReplaceAll k (CHR ''/'') ''_''"

text \<open>The body of the range over \<open>spec.Hard\<close>, which assigns to the keys it visits.\<close>

definition hardStep ::
    "('w, 'q, 'l) LegacyResourceQuotaReconciler \<Rightarrow> Namespace \<Rightarrow> string \<Rightarrow> 'q gomap
      \<Rightarrow> (string \<times> 'q) list \<times> err list \<Rightarrow> string \<Rightarrow> (string \<times> 'q) list \<times> err list" where
  "hardStep r ns name storageQuotas = (\<lambda>(hard, errs) k.
     (let an = hardAnnotation r name k; a = mstr (ns_Annotations ns) an
      in if Contains k ''storageclass.storage.k8s.io'' then
           (case mget storageQuotas k of None \<Rightarrow> (hard, errs) | Some q \<Rightarrow> (AList.update k q hard, errs))
         else if a \<noteq> [] then
           (case lq_ParseQuantity r a of
              Inl err \<Rightarrow> (hard, errs @ [WrapErr (''failed to parse quantity '' @ an @ ''='' @ a @ '': '') err []])
            | Inr po \<Rightarrow> (AList.update k po hard, errs))
         else (hard, errs)))"

definition quota_mutate ::
    "'q order \<Rightarrow> ('w, 'q, 'l) LegacyResourceQuotaReconciler \<Rightarrow> Namespace \<Rightarrow> string \<Rightarrow> 'q gomap
      \<Rightarrow> ('q ResourceQuota, 'q ResourceQuotaSpec \<times> err list) MutateFn" where
  "quota_mutate ord r ns name storageQuotas = (\<lambda>rq (spec, errs).
     (case foldl (hardStep r ns name storageQuotas) (entries (rqs_Hard spec), errs)
          (map fst (ord (entries (rqs_Hard spec)))) of
        (hard, errs) \<Rightarrow>
          (let spec = spec\<lparr>rqs_Hard := map_option (\<lambda>_. hard) (rqs_Hard spec)\<rparr>;
               rq = rq\<lparr>rqo_Spec := spec\<rparr>
           in case lq_ControlQuota r ns rq of (rq, err) \<Rightarrow> (rq, (spec, errs), err))))"

definition newQuota :: "Namespace \<Rightarrow> string \<Rightarrow> 'q ResourceQuota" where
  "newQuota ns name = \<lparr>rqo_Namespace = ns_Name ns, rqo_Name = name, rqo_Controller = None,
     rqo_Spec = \<lparr>rqs_Hard = None, rqs_Scopes = [], rqs_ScopeSelector = None\<rparr>\<rparr>"

fun quotaLoop ::
    "(string \<Rightarrow> 'q order) \<Rightarrow> ('w, 'q, 'l) LegacyResourceQuotaReconciler \<Rightarrow> Namespace
      \<Rightarrow> (string \<times> 'q ResourceQuotaSpec) list \<Rightarrow> 'w \<times> err list \<Rightarrow> 'w \<times> err list" where
  "quotaLoop ord r ns [] st = st"
| "quotaLoop ord r ns ((name, s) # rest) (w, errs) =
     (case storageQuotasOf r ns name of
        (storageQuotas, errs1) \<Rightarrow>
          (case lq_CreateOrUpdateQuota r (newQuota ns name) (quota_mutate (ord name) r ns name storageQuotas)
              (s, errs @ errs1) w of
             (w', rq, (spec, errs'), op, None) \<Rightarrow> quotaLoop ord r ns rest (w', errs')
           | (w', rq, (spec, errs'), op, Some err) \<Rightarrow>
               quotaLoop ord r ns rest (w', errs' @ [WrapErr (''failed to reconcile ResourceQuota '' @ name @ '': '') err []])))"

definition limit_mutate ::
    "('w, 'q, 'l) LegacyResourceQuotaReconciler \<Rightarrow> Namespace \<Rightarrow> 'l LimitRange \<Rightarrow> 'l LimitRange \<times> err option" where
  "limit_mutate r ns lr = lq_ControlLimitRange r ns (lr\<lparr>lro_Spec := DefaultLimitRange r\<rparr>)"

definition newLimitRange :: "('w, 'q, 'l) LegacyResourceQuotaReconciler \<Rightarrow> Namespace \<Rightarrow> 'l LimitRange" where
  "newLimitRange r ns = \<lparr>lro_Namespace = ns_Name ns, lro_Name = LimitRangeName r, lro_Controller = None, lro_Spec = lq_zeroLimits r\<rparr>"

definition putLimitRange ::
    "('w, 'q, 'l) LegacyResourceQuotaReconciler \<Rightarrow> Namespace \<Rightarrow> 'w \<times> err list \<Rightarrow> 'w \<times> err list" where
  "putLimitRange r ns = (\<lambda>(w, errs).
     (case lq_CreateOrUpdateLimitRange r (newLimitRange r ns) (capturing_none (limit_mutate r ns)) () w of
        (w', lr, s, op, None) \<Rightarrow> (w', errs)
      | (w', lr, s, op, Some err) \<Rightarrow>
          (w', errs @ [WrapErr (''failed to reconcile LimitRange '' @ LimitRangeName r @ '': '') err []])))"

definition lq_Reconcile ::
    "ext \<Rightarrow> 'q ResourceQuotaSpec order \<Rightarrow> (string \<Rightarrow> 'q order) \<Rightarrow> ('w, 'q, 'l) LegacyResourceQuotaReconciler \<Rightarrow> CtrlRequest
      \<Rightarrow> 'w \<Rightarrow> 'w \<times> Event list \<times> err option" where
  "lq_Reconcile E ord ord' r req w = (case lq_getNamespace r (req_Name req) w of
      Inl err \<Rightarrow> (w, [], IgnoreNotFound err)
    | Inr ns \<Rightarrow>
        if ns_DeletionTimestamp ns \<noteq> None then (w, [], None)
        else if mget (ns_Labels ns) (lq_OrganizationLabel r) = None then (w, [], None)
        else (case putLimitRange r ns (quotaLoop ord' r ns (ord (entries (DefaultResourceQuotas r))) (w, [])) of
            (w', errs) \<Rightarrow>
              (case multierr_Combine E (map Some errs) of
                 None \<Rightarrow> (w', [], None)
               | Some err \<Rightarrow>
                   (w', [\<lparr>ev_Kind = ''Namespace'', ev_Namespace = [], ev_Name = ns_Name ns, ev_Type = ''Warning'',
                          ev_Reason = ''ReconcileError'',
                          ev_Message = ''Failed to reconcile ResourceQuotas and LimitRanges: '' @ Error err\<rparr>],
                    Some (WrapErr ''failed to reconcile ResourceQuotas and LimitRanges: '' err [])))))"

section \<open>The limits of a quota\<close>

text \<open>The limit of a resource: what an annotation says, if it can be read, and else the default.\<close>

definition effective ::
    "('w, 'q, 'l) LegacyResourceQuotaReconciler \<Rightarrow> Namespace \<Rightarrow> string \<Rightarrow> 'q gomap \<Rightarrow> string \<Rightarrow> 'q \<Rightarrow> 'q" where
  "effective r ns name storageQuotas k dflt =
     (if Contains k ''storageclass.storage.k8s.io''
      then (case mget storageQuotas k of None \<Rightarrow> dflt | Some q \<Rightarrow> q)
      else if mstr (ns_Annotations ns) (hardAnnotation r name k) \<noteq> []
      then (case lq_ParseQuantity r (mstr (ns_Annotations ns) (hardAnnotation r name k)) of Inl err \<Rightarrow> dflt | Inr q \<Rightarrow> q)
      else dflt)"

lemma hardStep_map:
  assumes "map_of al k = Some q"
  shows "map_of (fst (hardStep r ns name sq (al, errs) k)) k' =
    (if k' = k then Some (effective r ns name sq k q) else map_of al k')"
  using assms by (auto simp: hardStep_def effective_def Let_def split: option.splits sum.splits)

lemma hardStep_map':
  assumes "k \<in> fst ` set al"
  shows "map_of (fst (hardStep r ns name sq (al, errs) k)) k' =
    (if k' = k then map_option (effective r ns name sq k) (map_of al k) else map_of al k')"
proof -
  from assms obtain q where "map_of al k = Some q" by (metis map_of_eq_None_iff not_None_eq)
  then show ?thesis by (simp add: hardStep_map)
qed

lemma foldl_hardStep:
  "distinct ks \<Longrightarrow> set ks \<subseteq> fst ` set al \<Longrightarrow>
    map_of (fst (foldl (hardStep r ns name sq) (al, errs) ks)) k =
      (if k \<in> set ks then map_option (effective r ns name sq k) (map_of al k) else map_of al k)"
proof (induction ks arbitrary: al errs)
  case (Cons k0 ks)
  obtain al' errs' where st: "hardStep r ns name sq (al, errs) k0 = (al', errs')" by (cases "hardStep r ns name sq (al, errs) k0")
  have k0: "k0 \<in> fst ` set al" using Cons.prems by simp
  have m: "map_of al' k' = (if k' = k0 then map_option (effective r ns name sq k0) (map_of al k0) else map_of al k')" for k'
    using hardStep_map' [OF k0, of r ns name sq errs k'] st by simp
  have "map_of al' k' = None \<longleftrightarrow> map_of al k' = None" for k' by (simp add: m)
  then have "k' \<in> fst ` set al' \<longleftrightarrow> k' \<in> fst ` set al" for k' by (simp only: map_of_eq_None_iff) blast
  then have "set ks \<subseteq> fst ` set al'" using Cons.prems(2) by auto
  with Cons.IH [of al' errs'] Cons.prems(1) st show ?case by (auto simp: m)
qed simp

definition lq_quota_ref_ok :: "(Namespace \<Rightarrow> 'q ResourceQuota \<Rightarrow> 'q ResourceQuota \<times> err option) \<Rightarrow> bool" where
  "lq_quota_ref_ok scr \<longleftrightarrow> scr_ok rqo_Controller (\<lambda>c rq. rq\<lparr>rqo_Controller := Some c\<rparr>) ns_Name scr"

definition lq_limit_ref_ok :: "(Namespace \<Rightarrow> 'l LimitRange \<Rightarrow> 'l LimitRange \<times> err option) \<Rightarrow> bool" where
  "lq_limit_ref_ok scr \<longleftrightarrow> scr_ok lro_Controller (\<lambda>c lr. lr\<lparr>lro_Controller := Some c\<rparr>) ns_Name scr"

definition rqo_key :: "'q ResourceQuota \<Rightarrow> string \<times> string" where
  "rqo_key rq = (rqo_Namespace rq, rqo_Name rq)"

definition lro_key :: "'l LimitRange \<Rightarrow> string \<times> string" where
  "lro_key lr = (lro_Namespace lr, lro_Name lr)"

text \<open>\<open>quotas\<close> and \<open>ranges\<close> are the objects of the cluster; a call on one kind leaves the other alone.\<close>

definition lq_ok ::
    "('w \<Rightarrow> string \<times> string \<Rightarrow> 'q ResourceQuota option) \<Rightarrow> ('w \<Rightarrow> string \<times> string \<Rightarrow> 'l LimitRange option)
      \<Rightarrow> ('w, 'q, 'l) LegacyResourceQuotaReconciler \<Rightarrow> bool" where
  "lq_ok quotas ranges r \<longleftrightarrow>
     cou_ok quotas rqo_key (lq_CreateOrUpdateQuota r) \<and> cou_ok ranges lro_key (lq_CreateOrUpdateLimitRange r) \<and>
     cou_frame quotas (lq_CreateOrUpdateLimitRange r) \<and>
     lq_quota_ref_ok (lq_ControlQuota r) \<and> lq_limit_ref_ok (lq_ControlLimitRange r)"

text \<open>What a quota of the namespace should be: the default with the limits overridden, and nothing more, owned by the
  namespace.\<close>

definition quota_as_wanted ::
    "('w, 'q, 'l) LegacyResourceQuotaReconciler \<Rightarrow> Namespace \<Rightarrow> string \<Rightarrow> 'q ResourceQuotaSpec \<Rightarrow> 'q ResourceQuota \<Rightarrow> bool" where
  "quota_as_wanted r ns name dflt rq \<longleftrightarrow>
     (\<forall>k. mget (rqs_Hard (rqo_Spec rq)) k =
        map_option (effective r ns name (fst (storageQuotasOf r ns name)) k) (mget (rqs_Hard dflt) k)) \<and>
     rqs_Scopes (rqo_Spec rq) = rqs_Scopes dflt \<and> rqs_ScopeSelector (rqo_Spec rq) = rqs_ScopeSelector dflt \<and>
     rqo_Controller rq = Some (ns_Name ns)"

lemma quota_mutate_spec:
  assumes "lq_quota_ref_ok (lq_ControlQuota r)" and "is_order ord" and "mwf (rqs_Hard dflt)"
    and "quota_mutate ord r ns name (fst (storageQuotasOf r ns name)) rq (dflt, errs) = (rq', (spec, errs'), None)"
  shows "quota_as_wanted r ns name dflt rq'"
proof -
  let ?sq = "fst (storageQuotasOf r ns name)" and ?ks = "map fst (ord (entries (rqs_Hard dflt)))"
  obtain hard es where f: "foldl (hardStep r ns name ?sq) (entries (rqs_Hard dflt), errs) ?ks = (hard, es)"
    by (cases "foldl (hardStep r ns name ?sq) (entries (rqs_Hard dflt), errs) ?ks")
  let ?spec = "dflt\<lparr>rqs_Hard := map_option (\<lambda>_. hard) (rqs_Hard dflt)\<rparr>"
  from assms(4) f have "lq_ControlQuota r ns (rq\<lparr>rqo_Spec := ?spec\<rparr>) = (rq', None)"
    by (auto simp: quota_mutate_def Let_def split: prod.splits)
  with assms(1) have "rq' = (rq\<lparr>rqo_Spec := ?spec\<rparr>)\<lparr>rqo_Controller := Some (ns_Name ns)\<rparr>"
    unfolding lq_quota_ref_ok_def scr_ok_def by blast
  then have s: "rqo_Spec rq' = ?spec" "rqo_Controller rq' = Some (ns_Name ns)" by simp_all
  have d: "distinct ?ks" using is_order_keys [OF assms(2)] assms(3) by (simp add: mwf_def)
  have k: "set ?ks = fst ` set (entries (rqs_Hard dflt))" by (simp add: is_order_set [OF assms(2)])
  have "map_of hard k = map_option (effective r ns name ?sq k) (map_of (entries (rqs_Hard dflt)) k)" for k
  proof (cases "map_of (entries (rqs_Hard dflt)) k")
    case None
    then have "k \<notin> set ?ks" unfolding k by (simp only: map_of_eq_None_iff) simp
    with None foldl_hardStep [OF d, of "entries (rqs_Hard dflt)" r ns name ?sq errs k] k f show ?thesis by simp
  next
    case (Some q)
    then have "k \<in> set ?ks" unfolding k by (force dest: map_of_SomeD)
    with Some foldl_hardStep [OF d, of "entries (rqs_Hard dflt)" r ns name ?sq errs k] k f show ?thesis by simp
  qed
  then have "mget (rqs_Hard ?spec) k = map_option (effective r ns name ?sq k) (mget (rqs_Hard dflt) k)" for k
    by (cases "rqs_Hard dflt") (auto simp: mget_def)
  then show ?thesis by (simp add: quota_as_wanted_def s)
qed

lemma putQuota_ok:
  assumes "lq_ok quotas ranges r" and "is_order ord" and "mwf (rqs_Hard dflt)"
    and "lq_CreateOrUpdateQuota r (newQuota ns name) (quota_mutate ord r ns name (fst (storageQuotasOf r ns name)))
      (dflt, errs) w = (w', rq, s, op, None)"
  shows "\<exists>rq. quotas w' (ns_Name ns, name) = Some rq \<and> quota_as_wanted r ns name dflt rq"
proof -
  have c: "cou_ok quotas rqo_key (lq_CreateOrUpdateQuota r)" "lq_quota_ref_ok (lq_ControlQuota r)"
    using assms(1) by (simp_all add: lq_ok_def)
  obtain spec es where s: "s = (spec, es)" by (cases s)
  note st = cou_stored [OF c(1) assms(4) [unfolded s]]
  have "quota_as_wanted r ns name dflt rq"
    by (rule quota_mutate_spec [OF c(2) assms(2,3) st [THEN conjunct1]])
  then show ?thesis using st [THEN conjunct2] by (simp add: rqo_key_def newQuota_def)
qed

lemma putQuota_other:
  assumes "lq_ok quotas ranges r"
    and "lq_CreateOrUpdateQuota r (newQuota ns name) f s w = (w', rq, s', op, e)" and "k \<noteq> (ns_Name ns, name)"
  shows "quotas w' k = quotas w k"
  using cou_other [of quotas rqo_key "lq_CreateOrUpdateQuota r" "newQuota ns name" f s w w' rq s' op e k] assms
  by (simp add: lq_ok_def rqo_key_def newQuota_def)

text \<open>Errors are only added.\<close>

lemma foldl_hardStep_errs: "errs \<noteq> [] \<Longrightarrow> snd (foldl (hardStep r ns name sq) (al, errs) ks) \<noteq> []"
proof (induction ks arbitrary: al errs)
  case (Cons k ks)
  obtain al' errs' where st: "hardStep r ns name sq (al, errs) k = (al', errs')" by (cases "hardStep r ns name sq (al, errs) k")
  with Cons.prems have "errs' \<noteq> []" by (auto simp: hardStep_def Let_def split: if_splits option.splits sum.splits)
  with Cons.IH st show ?case by simp
qed simp

lemma quota_mutate_errs:
  assumes "quota_mutate ord r ns name sq rq (dflt, errs) = (rq', (spec, errs'), fe)" and "errs \<noteq> []"
  shows "errs' \<noteq> []"
proof -
  let ?f = "foldl (hardStep r ns name sq) (entries (rqs_Hard dflt), errs) (map fst (ord (entries (rqs_Hard dflt))))"
  have "errs' = snd ?f" using assms(1) by (auto simp: quota_mutate_def Let_def split: prod.splits)
  with foldl_hardStep_errs [OF assms(2)] show ?thesis by simp
qed

lemma cou_quota_errs:
  assumes "cou_ok quotas rqo_key cou" and "errs \<noteq> []"
    and "cou obj (quota_mutate ord r ns name sq) (dflt, errs) w = (w', rq, (spec, errs'), op, e)"
  shows "errs' \<noteq> []"
proof -
  let ?base = "case quotas w (rqo_key obj) of None \<Rightarrow> obj | Some old \<Rightarrow> old"
  obtain obj1 spec1 errs1 fe where f: "quota_mutate ord r ns name sq ?base (dflt, errs) = (obj1, (spec1, errs1), fe)"
    by (cases "quota_mutate ord r ns name sq ?base (dflt, errs)") auto
  have e1: "errs1 \<noteq> []" using quota_mutate_errs [OF f assms(2)] .
  show ?thesis
  proof (cases e)
    case None
    from cou_stored [OF assms(1) assms(3) [unfolded None]] f e1 show ?thesis by simp
  next
    case (Some x)
    from cou_failed(1) [OF assms(1) assms(3) [unfolded Some] f] e1 assms(2) show ?thesis by auto
  qed
qed

text \<open>A step of the loop.\<close>

lemma quotaLoop_step:
  assumes "lq_ok quotas ranges r"
  obtains w1 rq s op e errs1 where
    "lq_CreateOrUpdateQuota r (newQuota ns name) (quota_mutate (ord name) r ns name (fst (storageQuotasOf r ns name)))
       (dflt, errs @ snd (storageQuotasOf r ns name)) w = (w1, rq, s, op, e)"
    and "quotaLoop ord r ns ((name, dflt) # rest) (w, errs) = quotaLoop ord r ns rest (w1, errs1)"
    and "e \<noteq> None \<or> errs \<noteq> [] \<longrightarrow> errs1 \<noteq> []"
proof -
  have ok: "cou_ok quotas rqo_key (lq_CreateOrUpdateQuota r)" using assms by (simp add: lq_ok_def)
  obtain sq es where sq: "storageQuotasOf r ns name = (sq, es)" by (cases "storageQuotasOf r ns name")
  obtain w1 rq spec errs' op e where c: "lq_CreateOrUpdateQuota r (newQuota ns name)
      (quota_mutate (ord name) r ns name sq) (dflt, errs @ es) w = (w1, rq, (spec, errs'), op, e)"
    by (cases "lq_CreateOrUpdateQuota r (newQuota ns name) (quota_mutate (ord name) r ns name sq) (dflt, errs @ es) w") auto
  let ?errs1 = "case e of None \<Rightarrow> errs' | Some x \<Rightarrow> errs' @ [WrapErr (''failed to reconcile ResourceQuota '' @ name @ '': '') x []]"
  show thesis
  proof (rule that [of w1 rq "(spec, errs')" op e ?errs1])
    show "e \<noteq> None \<or> errs \<noteq> [] \<longrightarrow> ?errs1 \<noteq> []"
      using cou_quota_errs [OF ok _ c] by (auto split: option.splits)
  qed (use sq c in \<open>simp_all split: option.splits\<close>)
qed

lemma quotaLoop_errs:
  assumes "lq_ok quotas ranges r"
  shows "quotaLoop ord r ns al (w, errs) = (w', []) \<Longrightarrow> errs = []"
proof (induction al arbitrary: w errs)
  case (Cons x al)
  obtain name dflt where x: "x = (name, dflt)" by (cases x)
  obtain w1 e errs1 where "quotaLoop ord r ns ((name, dflt) # al) (w, errs) = quotaLoop ord r ns al (w1, errs1)"
    and "(e :: err option) \<noteq> None \<or> errs \<noteq> [] \<longrightarrow> errs1 \<noteq> []"
    by (rule quotaLoop_step [OF assms, of ns name ord dflt errs w al])
  with Cons x show ?case by auto
qed simp

lemma quotaLoop_other:
  assumes "lq_ok quotas ranges r"
  shows "quotaLoop ord r ns al (w, errs) = (w', errs') \<Longrightarrow> k \<notin> Pair (ns_Name ns) ` fst ` set al \<Longrightarrow> quotas w' k = quotas w k"
proof (induction al arbitrary: w errs)
  case (Cons x al)
  obtain name dflt where x: "x = (name, dflt)" by (cases x)
  obtain w1 rq s op e errs1 where
    c: "lq_CreateOrUpdateQuota r (newQuota ns name) (quota_mutate (ord name) r ns name (fst (storageQuotasOf r ns name)))
       (dflt, errs @ snd (storageQuotasOf r ns name)) w = (w1, rq, s, op, e)"
    and l: "quotaLoop ord r ns ((name, dflt) # al) (w, errs) = quotaLoop ord r ns al (w1, errs1)"
    by (rule quotaLoop_step [OF assms])
  have "quotas w' k = quotas w1 k" using Cons.IH Cons.prems x l by simp
  also have "\<dots> = quotas w k" using putQuota_other [OF assms c] Cons.prems(2) x by simp
  finally show ?case .
qed simp

lemma quotaLoop_ok:
  assumes "lq_ok quotas ranges r" and "\<And>n. is_order (ord n)"
  shows "quotaLoop ord r ns al (w, errs) = (w', []) \<Longrightarrow> distinct (map fst al) \<Longrightarrow> (name, dflt) \<in> set al \<Longrightarrow>
    mwf (rqs_Hard dflt) \<Longrightarrow>
    \<exists>rq. quotas w' (ns_Name ns, name) = Some rq \<and> quota_as_wanted r ns name dflt rq"
proof (induction al arbitrary: w errs)
  case (Cons x al)
  obtain name1 dflt1 where x: "x = (name1, dflt1)" by (cases x)
  obtain w1 rq s op e errs1 where
    c: "lq_CreateOrUpdateQuota r (newQuota ns name1) (quota_mutate (ord name1) r ns name1 (fst (storageQuotasOf r ns name1)))
       (dflt1, errs @ snd (storageQuotasOf r ns name1)) w = (w1, rq, s, op, e)"
    and l: "quotaLoop ord r ns ((name1, dflt1) # al) (w, errs) = quotaLoop ord r ns al (w1, errs1)"
    and e: "e \<noteq> None \<or> errs \<noteq> [] \<longrightarrow> errs1 \<noteq> []"
    by (rule quotaLoop_step [OF assms(1)])
  have r: "quotaLoop ord r ns al (w1, errs1) = (w', [])" using Cons.prems(1) x l by simp
  with quotaLoop_errs [OF assms(1)] e have n: "e = None" by blast
  show ?case
  proof (cases "(name, dflt) = x")
    case True
    with x Cons.prems(2) have "name1 = name" "dflt1 = dflt" "name \<notin> fst ` set al" by auto
    have "(ns_Name ns, name) \<notin> Pair (ns_Name ns) ` fst ` set al" using \<open>name \<notin> fst ` set al\<close> by blast
    with quotaLoop_other [OF assms(1) r] have "quotas w' (ns_Name ns, name) = quotas w1 (ns_Name ns, name)" .
    with putQuota_ok [OF assms(1) assms(2) Cons.prems(4) c [unfolded n \<open>name1 = name\<close> \<open>dflt1 = dflt\<close>]]
    show ?thesis by simp
  next
    case False
    with Cons.prems(3) have "(name, dflt) \<in> set al" by simp
    with Cons.IH [OF r] Cons.prems(2,4) show ?thesis by simp
  qed
qed simp

section \<open>Properties\<close>

text \<open>A reconciliation without an error has put every quota without an error, and then the limit range.\<close>

lemma lq_Reconcile_stages:
  assumes "lq_ok quotas ranges r" and "combine_ok E" and "lq_getNamespace r (req_Name req) w = Inr ns"
    and "ns_DeletionTimestamp ns = None" and "mget (ns_Labels ns) (lq_OrganizationLabel r) \<noteq> None"
    and "lq_Reconcile E ord ord' r req w = (w', events, None)"
  obtains w1 lr s op where "quotaLoop ord' r ns (ord (entries (DefaultResourceQuotas r))) (w, []) = (w1, [])"
    and "lq_CreateOrUpdateLimitRange r (newLimitRange r ns) (capturing_none (limit_mutate r ns)) () w1 = (w', lr, s, op, None)"
    and "quotas w' = quotas w1" and "events = []"
proof -
  let ?lr = "newLimitRange r ns"
  obtain w1 errs where q: "quotaLoop ord' r ns (ord (entries (DefaultResourceQuotas r))) (w, []) = (w1, errs)"
    by (cases "quotaLoop ord' r ns (ord (entries (DefaultResourceQuotas r))) (w, [])")
  obtain w2 lr s op e where c: "lq_CreateOrUpdateLimitRange r ?lr (capturing_none (limit_mutate r ns)) () w1 = (w2, lr, s, op, e)"
    by (cases "lq_CreateOrUpdateLimitRange r ?lr (capturing_none (limit_mutate r ns)) () w1") auto
  obtain errs' where p: "putLimitRange r ns (w1, errs) = (w2, errs')" and en: "errs' = [] \<longrightarrow> e = None \<and> errs = []"
    using c by (cases e) (auto simp: putLimitRange_def)
  have res: "w' = w2" "events = []" "multierr_Combine E (map Some errs') = None"
    using assms(3-6) q p by (auto simp: lq_Reconcile_def split: option.splits)
  then have e: "e = None" "errs = []" using en assms(2) by (cases errs'; auto simp: combine_ok_def)+
  have "cou_frame quotas (lq_CreateOrUpdateLimitRange r)" using assms(1) by (simp add: lq_ok_def)
  then have "quotas w2 = quotas w1"
    using c unfolding cou_frame_def by (metis fst_conv)
  with q c e res(1,2) show ?thesis by (intro that) simp_all
qed

lemma limit_stored:
  assumes "lq_ok quotas ranges r"
    and "lq_CreateOrUpdateLimitRange r (newLimitRange r ns) (capturing_none (limit_mutate r ns)) () w = (w', lr, s, op, None)"
  shows "ranges w' (ns_Name ns, LimitRangeName r) = Some lr \<and> lro_Spec lr = DefaultLimitRange r \<and> lro_Controller lr = Some (ns_Name ns)"
proof -
  have l: "cou_ok ranges lro_key (lq_CreateOrUpdateLimitRange r)" "lq_limit_ref_ok (lq_ControlLimitRange r)"
    using assms(1) by (simp_all add: lq_ok_def)
  note st = cou_stored [OF l(1) assms(2)]
  then obtain lr0 where "lq_ControlLimitRange r ns (lr0\<lparr>lro_Spec := DefaultLimitRange r\<rparr>) = (lr, None)"
    by (auto simp: capturing_none_def limit_mutate_def split: prod.splits)
  with l(2) have "lr = (lr0\<lparr>lro_Spec := DefaultLimitRange r\<rparr>)\<lparr>lro_Controller := Some (ns_Name ns)\<rparr>"
    unfolding lq_limit_ref_ok_def scr_ok_def by blast
  then have "lro_Spec lr = DefaultLimitRange r" "lro_Controller lr = Some (ns_Name ns)" by simp_all
  with st [THEN conjunct2] show ?thesis by (simp add: lro_key_def newLimitRange_def)
qed

lemma lq_Reconcile_wanted:
  assumes "lq_ok quotas ranges r" and "combine_ok E" and "is_order ord" and "\<And>n. is_order (ord' n)"
    and "lq_getNamespace r (req_Name req) w = Inr ns" and "ns_DeletionTimestamp ns = None"
    and "mget (ns_Labels ns) (lq_OrganizationLabel r) \<noteq> None"
    and "mwf (DefaultResourceQuotas r)" and "\<forall>(name, dflt) \<in> set (entries (DefaultResourceQuotas r)). mwf (rqs_Hard dflt)"
    and "lq_Reconcile E ord ord' r req w = (w', events, None)"
  shows "mget (DefaultResourceQuotas r) name = Some dflt \<Longrightarrow>
      \<exists>rq. quotas w' (ns_Name ns, name) = Some rq \<and> quota_as_wanted r ns name dflt rq"
    and "\<exists>lr. ranges w' (ns_Name ns, LimitRangeName r) = Some lr \<and> lro_Spec lr = DefaultLimitRange r \<and> lro_Controller lr = Some (ns_Name ns)"
    and "events = []"
    and "fst k \<noteq> ns_Name ns \<or> mget (DefaultResourceQuotas r) (snd k) = None \<Longrightarrow> quotas w' k = quotas w k"
proof -
  let ?al = "ord (entries (DefaultResourceQuotas r))"
  from lq_Reconcile_stages [OF assms(1,2,5,6,7,10)] obtain w1 lr s op where q: "quotaLoop ord' r ns ?al (w, []) = (w1, [])"
    and c: "lq_CreateOrUpdateLimitRange r (newLimitRange r ns) (capturing_none (limit_mutate r ns)) () w1 = (w', lr, s, op, None)"
    and frame: "quotas w' = quotas w1" and ev: "events = []" .
  have d: "distinct (map fst ?al)" using is_order_keys [OF assms(3)] assms(8) by (simp add: mwf_def)
  have st: "set ?al = set (entries (DefaultResourceQuotas r))" by (rule is_order_set [OF assms(3)])
  show "\<exists>rq. quotas w' (ns_Name ns, name) = Some rq \<and> quota_as_wanted r ns name dflt rq"
    if m: "mget (DefaultResourceQuotas r) name = Some dflt"
  proof -
    have al: "(name, dflt) \<in> set ?al" using map_of_SomeD [OF m [unfolded mget_def]] st by simp
    then have "mwf (rqs_Hard dflt)" using assms(9) st by auto
    from quotaLoop_ok [OF assms(1,4) q d al this] show ?thesis by (simp add: frame)
  qed
  show "\<exists>lr. ranges w' (ns_Name ns, LimitRangeName r) = Some lr \<and> lro_Spec lr = DefaultLimitRange r \<and> lro_Controller lr = Some (ns_Name ns)"
    using limit_stored [OF assms(1) c] by blast
  show "quotas w' k = quotas w k" if "fst k \<noteq> ns_Name ns \<or> mget (DefaultResourceQuotas r) (snd k) = None"
  proof -
    have "k \<notin> Pair (ns_Name ns) ` fst ` set ?al" using that unfolding st by (cases k) (auto simp: mget_def map_of_eq_None_iff)
    from quotaLoop_other [OF assms(1) q this] show ?thesis by (simp add: frame)
  qed
  show "events = []" by (rule ev)
qed

text \<open>
  When reconciling a namespace of an organization succeeds, it has every default quota, with exactly
  the resources that the default limits: each limit is the default unless an annotation of the namespace
  that can be read overrides it. It has the default limit range, both are owned by the namespace, no event is recorded, and no other quota
  has changed.
\<close>

theorem lq_Reconcile_sets:
  assumes "lq_ok quotas ranges r" and "combine_ok E" and "is_order ord" and "\<And>n. is_order (ord' n)"
    and "lq_getNamespace r (req_Name req) w = Inr ns" and "ns_DeletionTimestamp ns = None"
    and "mget (ns_Labels ns) (lq_OrganizationLabel r) \<noteq> None"
    and "mwf (DefaultResourceQuotas r)" and "\<forall>(name, dflt) \<in> set (entries (DefaultResourceQuotas r)). mwf (rqs_Hard dflt)"
    and "lq_Reconcile E ord ord' r req w = (w', events, None)"
  shows "(\<forall>name dflt. mget (DefaultResourceQuotas r) name = Some dflt \<longrightarrow>
            (\<exists>rq. quotas w' (ns_Name ns, name) = Some rq \<and> quota_as_wanted r ns name dflt rq)) \<and>
         (\<exists>lr. ranges w' (ns_Name ns, LimitRangeName r) = Some lr \<and> lro_Spec lr = DefaultLimitRange r \<and> lro_Controller lr = Some (ns_Name ns)) \<and>
         events = [] \<and>
         (\<forall>k. fst k \<noteq> ns_Name ns \<or> mget (DefaultResourceQuotas r) (snd k) = None \<longrightarrow> quotas w' k = quotas w k)"
  using lq_Reconcile_wanted [OF assms] by blast

section \<open>A concrete controller\<close>

type_synonym lq_world = "(string \<times> string \<Rightarrow> nat ResourceQuota option) \<times> (string \<times> string \<Rightarrow> nat LimitRange option)"

definition sample_lq_ns :: Namespace where
  "sample_lq_ns = \<lparr>ns_Name = ''ns'', ns_Labels = Some [(''org'', ''acme'')], ns_Annotations = Some [(''b/q.pods'', ''22'')],
     ns_DeletionTimestamp = None\<rparr>"

definition sample_lq_spec :: "nat ResourceQuotaSpec" where
  "sample_lq_spec = \<lparr>rqs_Hard = Some [(''pods'', 1), (''secrets'', 5)], rqs_Scopes = [], rqs_ScopeSelector = None\<rparr>"

definition sample_lq :: "(lq_world, nat, nat) LegacyResourceQuotaReconciler" where
  "sample_lq =
     \<lparr>lq_getNamespace = (\<lambda>n w. Inr sample_lq_ns),
      lq_CreateOrUpdateQuota = (\<lambda>obj f s w. case store_cou rqo_key obj f s (fst w) of (q, r) \<Rightarrow> ((q, snd w), r)),
      lq_CreateOrUpdateLimitRange = (\<lambda>obj f s w. case store_cou lro_key obj f s (snd w) of (l, r) \<Rightarrow> ((fst w, l), r)),
      lq_ControlQuota = (\<lambda>ns rq. (rq\<lparr>rqo_Controller := Some (ns_Name ns)\<rparr>,
        if rqo_Controller rq = None \<or> rqo_Controller rq = Some (ns_Name ns) then None else Some (NewErr ''owned''))),
      lq_ControlLimitRange = (\<lambda>ns lr. (lr\<lparr>lro_Controller := Some (ns_Name ns)\<rparr>,
        if lro_Controller lr = None \<or> lro_Controller lr = Some (ns_Name ns) then None else Some (NewErr ''owned''))),
      lq_ParseQuantity = (\<lambda>s. Inr (length s)), lq_unmarshalResourceList = (\<lambda>s. Inl (NewErr ''invalid'')), lq_zeroLimits = 0,
      lq_OrganizationLabel = ''org'', ResourceQuotaAnnotationBase = ''b'', DefaultResourceQuotas = Some [(''q'', sample_lq_spec)],
      LimitRangeName = ''lr'', DefaultLimitRange = 9\<rparr>"

lemma sample_lq_ok: "lq_ok fst snd sample_lq"
proof -
  have "cou_ok fst rqo_key (lq_CreateOrUpdateQuota sample_lq)"
    unfolding cou_ok_def sample_lq_def store_cou_def by (auto split: option.splits prod.splits)
  moreover have "cou_ok snd lro_key (lq_CreateOrUpdateLimitRange sample_lq)"
    unfolding cou_ok_def sample_lq_def store_cou_def by (auto split: option.splits prod.splits)
  moreover have "cou_frame fst (lq_CreateOrUpdateLimitRange sample_lq)"
    unfolding cou_frame_def sample_lq_def by (auto split: prod.splits)
  moreover have "lq_quota_ref_ok (lq_ControlQuota sample_lq)" "lq_limit_ref_ok (lq_ControlLimitRange sample_lq)"
    by (auto simp: lq_quota_ref_ok_def lq_limit_ref_ok_def scr_ok_def sample_lq_def split: if_splits)
  ultimately show ?thesis by (simp add: lq_ok_def)
qed

lemma sample_lq_quota:
  "\<exists>w'. quotaLoop (\<lambda>_ al. al) sample_lq sample_lq_ns [(''q'', sample_lq_spec)] ((Map.empty, Map.empty), []) = ((w', Map.empty), [])"
  by (simp add: storageQuotasOf_def storageAnnotation_def sample_lq_ns_def mstr_def sample_lq_def Let_def)
     (simp add: store_cou_def quota_mutate_def hardStep_def hardAnnotation_def newQuota_def sample_lq_spec_def Contains_def HasPrefix_def
       mstr_def Let_def)

lemma sample_lq_Reconcile:
  "\<exists>w'. lq_Reconcile sample_ext (\<lambda>al. al) (\<lambda>_ al. al) sample_lq \<lparr>req_Namespace = [], req_Name = ''ns''\<rparr> (Map.empty, Map.empty) =
     (w', [], None)"
proof -
  obtain w' where q: "quotaLoop (\<lambda>_ al. al) sample_lq sample_lq_ns [(''q'', sample_lq_spec)] ((Map.empty, Map.empty), []) = ((w', Map.empty), [])"
    using sample_lq_quota by blast
  have "\<exists>w2. putLimitRange sample_lq sample_lq_ns ((w', Map.empty), []) = (w2, [])"
    by (simp add: putLimitRange_def sample_lq_def store_cou_def capturing_none_def limit_mutate_def newLimitRange_def)
  then obtain w2 where p: "putLimitRange sample_lq sample_lq_ns ((w', Map.empty), []) = (w2, [])" by blast
  have d: "lq_getNamespace sample_lq n w = Inr sample_lq_ns" "entries (DefaultResourceQuotas sample_lq) = [(''q'', sample_lq_spec)]"
    "ns_DeletionTimestamp sample_lq_ns = None" "mget (ns_Labels sample_lq_ns) (lq_OrganizationLabel sample_lq) = Some ''acme''" for n w
    by (simp_all add: sample_lq_def sample_lq_ns_def)
  have m: "multierr_Combine sample_ext [] = None" using sample_ext_laws(1) by (simp add: combine_ok_def)
  show ?thesis by (cases w2) (simp add: lq_Reconcile_def d q p m del: quotaLoop.simps)
qed

theorem lq_Reconcile_sets_witness:
  "\<exists>w' rq. lq_Reconcile sample_ext (\<lambda>al. al) (\<lambda>_ al. al) sample_lq \<lparr>req_Namespace = [], req_Name = ''ns''\<rparr> (Map.empty, Map.empty) =
     (w', [], None) \<and> fst w' (''ns'', ''q'') = Some rq \<and>
     mget (rqs_Hard (rqo_Spec rq)) ''pods'' = Some 2 \<and> mget (rqs_Hard (rqo_Spec rq)) ''secrets'' = Some 5"
proof -
  let ?req = "\<lparr>req_Namespace = [], req_Name = ''ns''\<rparr>"
  obtain w' where r: "lq_Reconcile sample_ext (\<lambda>al. al) (\<lambda>_ al. al) sample_lq ?req (Map.empty, Map.empty) = (w', [], None)"
    using sample_lq_Reconcile by blast
  have d: "lq_getNamespace sample_lq (req_Name ?req) (Map.empty, Map.empty) = Inr sample_lq_ns" "ns_DeletionTimestamp sample_lq_ns = None"
    "mget (ns_Labels sample_lq_ns) (lq_OrganizationLabel sample_lq) \<noteq> None" "mwf (DefaultResourceQuotas sample_lq)"
    "\<forall>(name, dflt) \<in> set (entries (DefaultResourceQuotas sample_lq)). mwf (rqs_Hard dflt)"
    "mget (DefaultResourceQuotas sample_lq) ''q'' = Some sample_lq_spec"
    by (simp_all add: sample_lq_def sample_lq_ns_def sample_lq_spec_def)
  from lq_Reconcile_sets [OF sample_lq_ok sample_ext_laws(1) is_order_id is_order_id d(1-5) r] d(6) obtain rq where
    q: "fst w' (ns_Name sample_lq_ns, ''q'') = Some rq" and s: "quota_as_wanted sample_lq sample_lq_ns ''q'' sample_lq_spec rq"
    by blast
  have "effective sample_lq sample_lq_ns ''q'' sq ''pods'' 1 = 2" "effective sample_lq sample_lq_ns ''q'' sq ''secrets'' 5 = 5" for sq
    by (simp_all add: effective_def sample_lq_def sample_lq_ns_def hardAnnotation_def Contains_def HasPrefix_def mstr_def)
  with s have "mget (rqs_Hard (rqo_Spec rq)) ''pods'' = Some 2 \<and> mget (rqs_Hard (rqo_Spec rq)) ''secrets'' = Some 5"
    by (simp add: quota_as_wanted_def sample_lq_spec_def)
  with q r show ?thesis by (auto simp: sample_lq_ns_def)
qed

end
