(* ===== verification/UserSync.thy ===== *)
theory UserSync
  imports Cluster
begin

text \<open>
  controllers/userattributesync_controller.go: the default organization of a user follows the control
  API, in an annotation of the user of the cluster.
\<close>

section \<open>The controller\<close>

text \<open>A user of the control API, with the one preference that is read.\<close>

record ControlUser =
  cu_Name :: string
  cu_DefaultOrganizationRef :: string

text \<open>\<open>Patch\<close> sends a strategic merge patch; the document is what \<open>json.Marshal\<close> encodes.\<close>

record 'w UserAttributeSyncReconciler =
  ua_ForeignGet :: "string \<Rightarrow> 'w \<Rightarrow> err + ControlUser"
  ua_Get :: "string \<Rightarrow> 'w \<Rightarrow> err + User"
  ua_Marshal :: "json \<Rightarrow> err + string"
  ua_Patch :: "User \<Rightarrow> string \<Rightarrow> 'w \<Rightarrow> 'w \<times> err option"

definition DefaultOrganizationAnnotation :: string where
  "DefaultOrganizationAnnotation = ''appuio.io/default-organization''"

definition userPatch :: "ControlUser \<Rightarrow> json" where
  "userPatch upstream = JObj [(''metadata'', JObj [(''annotations'',
     json_of_map [(DefaultOrganizationAnnotation, cu_DefaultOrganizationRef upstream)])])]"

definition ua_Reconcile ::
    "'w UserAttributeSyncReconciler \<Rightarrow> CtrlRequest \<Rightarrow> 'w \<Rightarrow> 'w \<times> Event list \<times> err option" where
  "ua_Reconcile r req w = (case ua_ForeignGet r (req_Name req) w of
      Inl err \<Rightarrow> if IsNotFound err then (w, [], None) else (w, [], Some err)
    | Inr upstream \<Rightarrow>
        (case ua_Get r (req_Name req) w of
           Inl err \<Rightarrow> if IsNotFound err then (w, [], None) else (w, [], Some err)
         | Inr user \<Rightarrow>
             if usr_Annotations user \<noteq> None \<and>
                mstr (usr_Annotations user) DefaultOrganizationAnnotation = cu_DefaultOrganizationRef upstream
             then (w, [], None)
             else (case ua_Marshal r (userPatch upstream) of
                 Inl err \<Rightarrow> (w, [], Some err)
               | Inr encPatch \<Rightarrow>
                   (case ua_Patch r user encPatch w of
                      (w', Some err) \<Rightarrow> (w', [], Some err)
                    | (w', None) \<Rightarrow>
                        (w', [\<lparr>ev_Kind = ''User'', ev_Namespace = [], ev_Name = usr_Name user, ev_Type = ''Normal'',
                               ev_Reason = ''Reconciled'', ev_Message = ''Reconciled User''\<rparr>], None)))))"

section \<open>The contract of the client\<close>

text \<open>
  A merge patch that only has annotations of the metadata sets these and keeps the others; no other
  object changes. The annotations of the patched object are compared as maps.
\<close>

definition ua_ok :: "('w \<Rightarrow> string \<Rightarrow> User option) \<Rightarrow> 'w UserAttributeSyncReconciler \<Rightarrow> bool" where
  "ua_ok users r \<longleftrightarrow>
     (\<forall>n w u. ua_Get r n w = Inr u \<longrightarrow> usr_Name u = n \<and> users w n = Some u) \<and>
     (\<forall>u al enc w w'. ua_Marshal r (JObj [(''metadata'', JObj [(''annotations'', json_of_map al)])]) = Inr enc \<longrightarrow>
        users w (usr_Name u) = Some u \<longrightarrow> ua_Patch r u enc w = (w', None) \<longrightarrow>
        (\<forall>n. n \<noteq> usr_Name u \<longrightarrow> users w' n = users w n) \<and>
        (\<exists>u'. users w' (usr_Name u) = Some u' \<and>
              (\<forall>k. mget (usr_Annotations u') k = (case map_of al k of None \<Rightarrow> mget (usr_Annotations u) k | Some v \<Rightarrow> Some v))))"

section \<open>Properties\<close>

lemma ua_okD:
  assumes "ua_ok users r"
  shows "ua_Get r n w = Inr u \<Longrightarrow> usr_Name u = n \<and> users w n = Some u"
    and "ua_Marshal r (JObj [(''metadata'', JObj [(''annotations'', json_of_map al)])]) = Inr enc \<Longrightarrow>
        users w (usr_Name u) = Some u \<Longrightarrow> ua_Patch r u enc w = (w', None) \<Longrightarrow>
        (\<forall>n. n \<noteq> usr_Name u \<longrightarrow> users w' n = users w n) \<and>
        (\<exists>u'. users w' (usr_Name u) = Some u' \<and>
              (\<forall>k. mget (usr_Annotations u') k = (case map_of al k of None \<Rightarrow> mget (usr_Annotations u) k | Some v \<Rightarrow> Some v)))"
proof -
  note d = assms [unfolded ua_ok_def]
  show "ua_Get r n w = Inr u \<Longrightarrow> usr_Name u = n \<and> users w n = Some u" by (rule d [THEN conjunct1, rule_format])
  show "ua_Marshal r (JObj [(''metadata'', JObj [(''annotations'', json_of_map al)])]) = Inr enc \<Longrightarrow>
        users w (usr_Name u) = Some u \<Longrightarrow> ua_Patch r u enc w = (w', None) \<Longrightarrow>
        (\<forall>n. n \<noteq> usr_Name u \<longrightarrow> users w' n = users w n) \<and>
        (\<exists>u'. users w' (usr_Name u) = Some u' \<and>
              (\<forall>k. mget (usr_Annotations u') k = (case map_of al k of None \<Rightarrow> mget (usr_Annotations u) k | Some v \<Rightarrow> Some v)))"
    by (rule d [THEN conjunct2, rule_format])
qed

text \<open>
  When reconciling a user who exists in both clusters succeeds, the default organization in the
  annotations of the user is that of the control API, the other annotations are as before, no other user
  has changed, and an event is recorded exactly if a patch was sent; a user who is already up to date is
  not patched.
\<close>

theorem ua_Reconcile_syncs:
  assumes "ua_ok users r" and "ua_ForeignGet r (req_Name req) w = Inr upstream" and "ua_Get r (req_Name req) w = Inr user"
    and "ua_Reconcile r req w = (w', events, None)"
  shows "(\<exists>u. users w' (req_Name req) = Some u \<and>
            mstr (usr_Annotations u) DefaultOrganizationAnnotation = cu_DefaultOrganizationRef upstream \<and>
            (\<forall>k. k \<noteq> DefaultOrganizationAnnotation \<longrightarrow> mget (usr_Annotations u) k = mget (usr_Annotations user) k)) \<and>
         (\<forall>n. n \<noteq> req_Name req \<longrightarrow> users w' n = users w n) \<and>
         (usr_Annotations user \<noteq> None \<and> mstr (usr_Annotations user) DefaultOrganizationAnnotation = cu_DefaultOrganizationRef upstream
            \<longrightarrow> w' = w \<and> events = [])"
proof -
  note g = ua_okD(1) [OF assms(1,3)]
  show ?thesis
  proof (cases "usr_Annotations user \<noteq> None \<and> mstr (usr_Annotations user) DefaultOrganizationAnnotation = cu_DefaultOrganizationRef upstream")
    case True
    with assms(2,3,4) have "w' = w" "events = []" by (auto simp: ua_Reconcile_def)
    with True g show ?thesis by auto
  next
    case False
    let ?al = "[(DefaultOrganizationAnnotation, cu_DefaultOrganizationRef upstream)]"
    from False assms(2,3,4) obtain enc where m: "ua_Marshal r (userPatch upstream) = Inr enc" and p: "ua_Patch r user enc w = (w', None)"
      by (auto simp: ua_Reconcile_def split: sum.splits prod.splits option.splits if_splits)
    from ua_okD(2) [OF assms(1) m [unfolded userPatch_def] _ p] g obtain u where
      o: "\<forall>n. n \<noteq> req_Name req \<longrightarrow> users w' n = users w n" and u: "users w' (req_Name req) = Some u"
      and a: "\<forall>k. mget (usr_Annotations u) k = (case map_of ?al k of None \<Rightarrow> mget (usr_Annotations user) k | Some v \<Rightarrow> Some v)"
      by auto
    have "mstr (usr_Annotations u) DefaultOrganizationAnnotation = cu_DefaultOrganizationRef upstream" using a by (simp add: mstr_def)
    with False o u a show ?thesis by auto
  qed
qed

section \<open>A concrete controller\<close>

definition sample_ua :: "(string \<Rightarrow> User option) UserAttributeSyncReconciler" where
  "sample_ua =
     \<lparr>ua_ForeignGet = (\<lambda>n w. Inr \<lparr>cu_Name = n, cu_DefaultOrganizationRef = ''acme''\<rparr>),
      ua_Get = (\<lambda>n w. case w n of Some u \<Rightarrow> if usr_Name u = n then Inr u else Inl (NotFound n) | None \<Rightarrow> Inl (NotFound n)),
      ua_Marshal = (\<lambda>j. if j = JObj [(''metadata'', JObj [(''annotations'', json_of_map [(DefaultOrganizationAnnotation, ''acme'')])])]
        then Inr ''patch'' else Inl (NewErr ''unsupported'')),
      ua_Patch = (\<lambda>u enc w. (w(usr_Name u \<mapsto> u\<lparr>usr_Annotations :=
        Some (AList.update DefaultOrganizationAnnotation ''acme'' (entries (usr_Annotations u)))\<rparr>), None))\<rparr>"

lemma sample_ua_ok: "ua_ok (\<lambda>w. w) sample_ua"
proof -
  have j: "json_of_map al = json_of_map bl \<longleftrightarrow> al = bl" for al bl
  proof
    assume "json_of_map al = json_of_map bl"
    then have "string_map (json_of_map al) = string_map (json_of_map bl)" by (rule arg_cong)
    then show "al = bl" by (simp only: string_map_json_of_map option.inject)
  qed simp
  show ?thesis unfolding ua_ok_def
    by (auto simp: sample_ua_def j mget_def split: option.splits if_splits)
qed

definition sample_user :: User where
  "sample_user = \<lparr>usr_Name = ''alice'', usr_Annotations = Some [(''note'', ''x'')]\<rparr>"

theorem ua_Reconcile_syncs_witness:
  "\<exists>w' events u. ua_Reconcile sample_ua \<lparr>req_Namespace = [], req_Name = ''alice''\<rparr> [''alice'' \<mapsto> sample_user] = (w', events, None) \<and>
     w' ''alice'' = Some u \<and> mstr (usr_Annotations u) DefaultOrganizationAnnotation = ''acme'' \<and> mget (usr_Annotations u) ''note'' = Some ''x''"
proof -
  let ?req = "\<lparr>req_Namespace = [], req_Name = ''alice''\<rparr>" and ?w = "[''alice'' \<mapsto> sample_user]"
  have g: "ua_ForeignGet sample_ua (req_Name ?req) ?w = Inr \<lparr>cu_Name = ''alice'', cu_DefaultOrganizationRef = ''acme''\<rparr>"
    "ua_Get sample_ua (req_Name ?req) ?w = Inr sample_user" by (simp_all add: sample_ua_def sample_user_def)
  have m: "ua_Marshal sample_ua (userPatch \<lparr>cu_Name = ''alice'', cu_DefaultOrganizationRef = ''acme''\<rparr>) = Inr ''patch''"
    by (simp add: sample_ua_def userPatch_def)
  obtain w1 where p: "ua_Patch sample_ua sample_user ''patch'' ?w = (w1, None)" by (simp add: sample_ua_def)
  have "\<exists>w' events. ua_Reconcile sample_ua ?req ?w = (w', events, None)"
    unfolding ua_Reconcile_def g sum.case m p by simp
  then obtain w' events where r: "ua_Reconcile sample_ua ?req ?w = (w', events, None)" by blast
  from ua_Reconcile_syncs [OF sample_ua_ok g r] r show ?thesis by (auto simp: sample_user_def DefaultOrganizationAnnotation_def)
qed

end
