(* ===== verification/ZoneVersion.thy ===== *)
theory ZoneVersion
  imports Cluster
begin

text \<open>
  controllers/zonek8sversion_controller.go: the versions of Kubernetes and OpenShift are written to the
  zones of the cluster on the control API. Indexing the parts of a version, following the pointer to a
  completion time and assigning to the map of features can panic.
\<close>

section \<open>The version of OpenShift\<close>

text \<open>Times count from the zero value of \<open>time.Time\<close>.\<close>

record UpdateHistory =
  hi_State :: string
  hi_Verified :: bool
  hi_CompletionTime :: "int option"
  hi_Version :: string

record ClusterVersion =
  cv_History :: "UpdateHistory list"
  cv_Desired :: string

record Info =
  vi_Major :: string
  vi_Minor :: string

definition formatVersion :: "Info \<Rightarrow> string" where
  "formatVersion v = vi_Major v @ ''.'' @ vi_Minor v"

fun historyLoop :: "UpdateHistory list \<Rightarrow> string \<Rightarrow> int \<Rightarrow> string outcome" where
  "historyLoop [] currentVersion lastUpdate = Returns currentVersion"
| "historyLoop (h # hs) currentVersion lastUpdate =
     (if hi_State h = ''Completed'' \<and> hi_Verified h then
        (case hi_CompletionTime h of
           None \<Rightarrow> Panics
         | Some t \<Rightarrow> if lastUpdate < t then historyLoop hs (hi_Version h) t else historyLoop hs currentVersion lastUpdate)
      else historyLoop hs currentVersion lastUpdate)"

definition extractOpenShiftVersion :: "ClusterVersion \<Rightarrow> (err + Info) outcome" where
  "extractOpenShiftVersion cv = (case historyLoop (cv_History cv) [] 0 of
      Panics \<Rightarrow> Panics
    | Returns currentVersion \<Rightarrow>
        (let currentVersion = (if currentVersion = [] then cv_Desired cv else currentVersion)
         in if currentVersion = [] then Returns (Inl (NewErr ''Unable to extract current OpenShift version''))
            else (case Split (CHR ''.'') currentVersion of
                major # minor # rest \<Rightarrow> Returns (Inr \<lparr>vi_Major = major, vi_Minor = minor\<rparr>)
              | _ \<Rightarrow> Panics)))"

section \<open>The controller\<close>

record Zone =
  zone_Name :: string
  zone_Features :: "string gomap"

record 'w ZoneK8sVersionReconciler =
  zv_Get :: "string \<Rightarrow> 'w \<Rightarrow> err + ClusterVersion"
  zv_getVersion :: "'w \<Rightarrow> err + string"
  zv_Unmarshal :: "string \<Rightarrow> err + Info"
  zv_ListZones :: "string \<Rightarrow> string \<Rightarrow> 'w \<Rightarrow> err + Zone list"
  zv_Update :: "Zone \<Rightarrow> 'w \<Rightarrow> 'w \<times> err option"
  ZoneID :: string

definition upstreamZoneIdentifierLabelKey :: string where
  "upstreamZoneIdentifierLabelKey = ''control.appuio.io/zone-cluster-id''"

definition kubernetesVersionFeatureKey :: string where
  "kubernetesVersionFeatureKey = ''kubernetesVersion''"

definition openshiftVersionFeatureKey :: string where
  "openshiftVersionFeatureKey = ''openshiftVersion''"

text \<open>A panic leaves the zones before it updated.\<close>

fun updateZones ::
    "'w ZoneK8sVersionReconciler \<Rightarrow> Info \<Rightarrow> Info \<Rightarrow> Zone list \<Rightarrow> 'w \<Rightarrow> 'w \<times> err option list outcome" where
  "updateZones r k8sVersion ocpVersion [] w = (w, Returns [])"
| "updateZones r k8sVersion ocpVersion (z # zs) w =
     (case mput kubernetesVersionFeatureKey (formatVersion k8sVersion) (zone_Features z) of
        Panics \<Rightarrow> (w, Panics)
      | Returns f1 \<Rightarrow>
          (case mput openshiftVersionFeatureKey (formatVersion ocpVersion) f1 of
             Panics \<Rightarrow> (w, Panics)
           | Returns f2 \<Rightarrow>
               (case zv_Update r (z\<lparr>zone_Features := f2\<rparr>) w of
                  (w', err) \<Rightarrow>
                    (case updateZones r k8sVersion ocpVersion zs w' of
                       (w'', Panics) \<Rightarrow> (w'', Panics)
                     | (w'', Returns errs) \<Rightarrow> (w'', Returns (if err = None then errs else err # errs))))))"

definition zv_Reconcile ::
    "ext \<Rightarrow> 'w ZoneK8sVersionReconciler \<Rightarrow> CtrlRequest \<Rightarrow> 'w \<Rightarrow> 'w \<times> err option outcome" where
  "zv_Reconcile E r req w = (case zv_Get r (req_Name req) w of
      Inl err \<Rightarrow> (w, Returns (Some err))
    | Inr cv \<Rightarrow>
        (case extractOpenShiftVersion cv of
           Panics \<Rightarrow> (w, Panics)
         | Returns (Inl err) \<Rightarrow> (w, Returns (Some err))
         | Returns (Inr ocpVersion) \<Rightarrow>
             (case zv_getVersion r w of
                Inl err \<Rightarrow> (w, Returns (Some err))
              | Inr body \<Rightarrow>
                  (case zv_Unmarshal r body of
                     Inl err \<Rightarrow> (w, Returns (Some err))
                   | Inr k8sVersion \<Rightarrow>
                       (case zv_ListZones r upstreamZoneIdentifierLabelKey (ZoneID r) w of
                          Inl err \<Rightarrow> (w, Returns (Some err))
                        | Inr zones \<Rightarrow>
                            if zones = [] then (w, Returns None)
                            else (case updateZones r k8sVersion ocpVersion zones w of
                                (w', Panics) \<Rightarrow> (w', Panics)
                              | (w', Returns errs) \<Rightarrow> (w', Returns (multierr_Combine E errs))))))))"

section \<open>Properties\<close>

definition completed :: "UpdateHistory \<Rightarrow> bool" where
  "completed h \<longleftrightarrow> hi_State h = ''Completed'' \<and> hi_Verified h"

definition finished_by :: "int \<Rightarrow> UpdateHistory \<Rightarrow> bool" where
  "finished_by t h \<longleftrightarrow> (completed h \<longrightarrow> (\<exists>t'. hi_CompletionTime h = Some t' \<and> t' \<le> t))"

text \<open>
  An entry overtakes a time if it is the first of the completed entries with the greatest time and that
  time is later; the latest entry of a history overtakes the zero time.
\<close>

definition overtakes :: "int \<Rightarrow> UpdateHistory list \<Rightarrow> UpdateHistory \<Rightarrow> bool" where
  "overtakes t0 hs h \<longleftrightarrow> (\<exists>before after t. hs = before @ h # after \<and> completed h \<and> hi_CompletionTime h = Some t \<and> t0 < t \<and>
     (\<forall>h' \<in> set before. finished_by (t - 1) h') \<and> (\<forall>h' \<in> set after. finished_by t h'))"

definition is_latest :: "UpdateHistory list \<Rightarrow> UpdateHistory \<Rightarrow> bool" where
  "is_latest hs h = overtakes 0 hs h"

lemma overtakes_here:
  "completed h \<Longrightarrow> hi_CompletionTime h = Some t \<Longrightarrow> t0 < t \<Longrightarrow> \<forall>h' \<in> set hs. finished_by t h' \<Longrightarrow> overtakes t0 (h # hs) h"
  unfolding overtakes_def by (intro exI [of _ "[]"] exI [of _ hs] exI [of _ t]) simp

lemma overtakes_later:
  assumes "overtakes t hs h" and "t0 \<le> t" and "finished_by t x"
  shows "overtakes t0 (x # hs) h"
proof -
  from assms(1) obtain before after t1 where h: "hs = before @ h # after" "completed h" "hi_CompletionTime h = Some t1" "t < t1"
    "\<forall>h' \<in> set before. finished_by (t1 - 1) h'" "\<forall>h' \<in> set after. finished_by t1 h'"
    unfolding overtakes_def by blast
  have "finished_by (t1 - 1) x" using assms(3) h(4) by (fastforce simp: finished_by_def)
  with h assms(2) show ?thesis
    unfolding overtakes_def by (intro exI [of _ "x # before"] exI [of _ after] exI [of _ t1]) simp
qed

lemma historyLoop_panics:
  "historyLoop hs v t = Panics \<longleftrightarrow> (\<exists>h \<in> set hs. completed h \<and> hi_CompletionTime h = None)"
  by (induction hs v t rule: historyLoop.induct) (auto simp: completed_def split: option.splits)

lemma historyLoop_result:
  "historyLoop hs v t = Returns v' \<Longrightarrow>
     v' = v \<and> (\<forall>h \<in> set hs. finished_by t h) \<or> (\<exists>h. overtakes t hs h \<and> v' = hi_Version h)"
proof (induction hs arbitrary: v t)
  case (Cons h hs)
  show ?case
  proof (cases "completed h \<and> (\<exists>t0. hi_CompletionTime h = Some t0 \<and> t < t0)")
    case True
    then obtain t0 where t0: "completed h" "hi_CompletionTime h = Some t0" "t < t0" by blast
    then have f: "finished_by t0 h" by (simp add: finished_by_def)
    from t0 Cons.prems have "historyLoop hs (hi_Version h) t0 = Returns v'" by (auto simp: completed_def)
    from Cons.IH [OF this] show ?thesis
      using overtakes_here [OF t0] overtakes_later [OF _ less_imp_le [OF t0(3)] f] by blast
  next
    case False
    with Cons.prems have "historyLoop hs v t = Returns v'" and f: "finished_by t h"
      by (auto simp: completed_def finished_by_def split: option.splits if_splits)
    from Cons.IH [OF this(1)] f show ?thesis using overtakes_later [OF _ order_refl f] by auto
  qed
qed simp

text \<open>
  The version that is reported consists of the first two components of the version of the latest
  completed and verified update, or of the desired version if there is no such update (or its version is
  empty).
\<close>

theorem extract_latest:
  assumes "extractOpenShiftVersion cv = Returns (Inr info)"
  shows "\<exists>v rest. Split (CHR ''.'') v = vi_Major info # vi_Minor info # rest \<and> v \<noteq> [] \<and>
    ((\<exists>h. is_latest (cv_History cv) h \<and> hi_Version h = v) \<or>
     v = cv_Desired cv \<and>
       ((\<forall>h \<in> set (cv_History cv). finished_by 0 h) \<or>
        (\<exists>h. is_latest (cv_History cv) h \<and> hi_Version h = [])))"
proof -
  from assms obtain cur where l: "historyLoop (cv_History cv) [] 0 = Returns cur"
    by (auto simp: extractOpenShiftVersion_def split: outcome.splits)
  define v where "v = (if cur = [] then cv_Desired cv else cur)"
  from assms l have v: "v \<noteq> []" and s: "\<exists>rest. Split (CHR ''.'') v = vi_Major info # vi_Minor info # rest"
    unfolding extractOpenShiftVersion_def v_def by (auto simp: Let_def split: if_splits list.splits)
  have "(cur = [] \<and> (\<forall>h \<in> set (cv_History cv). finished_by 0 h)) \<or>
      (\<exists>h. is_latest (cv_History cv) h \<and> hi_Version h = cur)"
    using historyLoop_result [OF l] unfolding is_latest_def by blast
  then have "(\<exists>h. is_latest (cv_History cv) h \<and> hi_Version h = v) \<or>
     v = cv_Desired cv \<and>
       ((\<forall>h \<in> set (cv_History cv). finished_by 0 h) \<or>
        (\<exists>h. is_latest (cv_History cv) h \<and> hi_Version h = []))"
    unfolding v_def by (cases "cur = []") auto
  with s v show ?thesis by blast
qed

definition zv_update_ok :: "('w \<Rightarrow> string \<Rightarrow> Zone option) \<Rightarrow> 'w ZoneK8sVersionReconciler \<Rightarrow> bool" where
  "zv_update_ok zones r \<longleftrightarrow>
     (\<forall>z w w' e. zv_Update r z w = (w', e) \<longrightarrow>
        (\<forall>n. n \<noteq> zone_Name z \<longrightarrow> zones w' n = zones w n) \<and> (e = None \<longrightarrow> zones w' (zone_Name z) = Some z))"

definition versions_set :: "Info \<Rightarrow> Info \<Rightarrow> Zone \<Rightarrow> Zone \<Rightarrow> bool" where
  "versions_set k8sVersion ocpVersion z z' \<longleftrightarrow>
     (\<forall>k. mget (zone_Features z') k =
        (if k = openshiftVersionFeatureKey then Some (formatVersion ocpVersion)
         else if k = kubernetesVersionFeatureKey then Some (formatVersion k8sVersion)
         else mget (zone_Features z) k))"

lemma updateZones_total: "\<forall>z \<in> set zs. zone_Features z \<noteq> None \<Longrightarrow> snd (updateZones r k8s ocp zs w) \<noteq> Panics"
proof (induction zs arbitrary: w)
  case (Cons z zs)
  then obtain fs where f: "zone_Features z = Some fs" by auto
  have "snd (updateZones r k8s ocp zs v) \<noteq> Panics" for v using Cons by simp
  then have "updateZones r k8s ocp zs v \<noteq> (v', Panics)" for v v' by (metis snd_conv)
  with f show ?case by (auto simp: mput_def split: prod.split outcome.split)
qed simp

lemma updateZones_panics:
  "updateZones r k8s ocp (before @ z\<lparr>zone_Features := None\<rparr> # zs) w = (fst (updateZones r k8s ocp before w), Panics)"
proof (induction before arbitrary: w)
  case (Cons x xs)
  show ?case
  proof (cases "zone_Features x")
    case (Some fs)
    with Cons show ?thesis by (simp add: mput_def split: prod.split outcome.split)
  qed (simp add: mput_def)
qed (simp add: mput_def)

lemma updateZones_step:
  assumes "zv_update_ok zones r" and "updateZones r k8s ocp (z # zs) w = (w', Returns errs)"
  obtains w1 errs1 e where "updateZones r k8s ocp zs w1 = (w', Returns errs1)" and "errs = (if e = None then errs1 else e # errs1)"
    and "\<forall>n. n \<noteq> zone_Name z \<longrightarrow> zones w1 n = zones w n"
    and "e = None \<longrightarrow> (\<exists>z'. zones w1 (zone_Name z) = Some z' \<and> versions_set k8s ocp z z')"
proof -
  from assms(2) obtain fs where f: "zone_Features z = Some fs"
    by (cases "zone_Features z") (auto simp: mput_def)
  let ?z = "z\<lparr>zone_Features := Some (AList.update openshiftVersionFeatureKey (formatVersion ocp)
      (AList.update kubernetesVersionFeatureKey (formatVersion k8s) fs))\<rparr>"
  obtain w1 e where u: "zv_Update r ?z w = (w1, e)" by fastforce
  with assms(2) f obtain errs1 where l: "updateZones r k8s ocp zs w1 = (w', Returns errs1)"
    and e: "errs = (if e = None then errs1 else e # errs1)"
    by (auto simp: mput_def split: outcome.splits prod.splits)
  have v: "versions_set k8s ocp z ?z" by (simp add: versions_set_def f)
  from assms(1) [unfolded zv_update_ok_def, rule_format, OF u] have
    "\<forall>n. n \<noteq> zone_Name z \<longrightarrow> zones w1 n = zones w n" "e = None \<longrightarrow> zones w1 (zone_Name z) = Some ?z" by simp_all
  with that l e v show thesis by blast
qed

lemma updateZones_other:
  assumes "zv_update_ok zones r"
  shows "updateZones r k8s ocp zs w = (w', Returns errs) \<Longrightarrow> n \<notin> zone_Name ` set zs \<Longrightarrow> zones w' n = zones w n"
proof (induction zs arbitrary: w errs)
  case (Cons z zs)
  from Cons.prems(1) obtain w1 e errs1 where l: "updateZones r k8s ocp zs w1 = (w', Returns errs1)"
    and "errs = (if e = None then errs1 else e # errs1)"
    and o: "\<forall>n. n \<noteq> zone_Name z \<longrightarrow> zones w1 n = zones w n"
    and "e = None \<longrightarrow> (\<exists>z'. zones w1 (zone_Name z) = Some z' \<and> versions_set k8s ocp z z')"
    by (rule updateZones_step [OF assms])
  with Cons.IH [OF l] Cons.prems(2) show ?case by simp
qed simp

lemma updateZones_all:
  assumes "zv_update_ok zones r"
  shows "updateZones r k8s ocp zs w = (w', Returns errs) \<Longrightarrow> \<forall>e \<in> set errs. e = None \<Longrightarrow> distinct (map zone_Name zs) \<Longrightarrow>
    z \<in> set zs \<Longrightarrow> \<exists>z'. zones w' (zone_Name z) = Some z' \<and> versions_set k8s ocp z z'"
proof (induction zs arbitrary: w errs)
  case (Cons z0 zs)
  from Cons.prems(1) obtain w1 e errs1 where l: "updateZones r k8s ocp zs w1 = (w', Returns errs1)"
    and es: "errs = (if e = None then errs1 else e # errs1)"
    and "\<forall>n. n \<noteq> zone_Name z0 \<longrightarrow> zones w1 n = zones w n"
    and st: "e = None \<longrightarrow> (\<exists>z'. zones w1 (zone_Name z0) = Some z' \<and> versions_set k8s ocp z0 z')"
    by (rule updateZones_step [OF assms])
  have e: "e = None" using es Cons.prems(2) by (cases e) simp_all
  with es Cons.prems(2) have n: "\<forall>e \<in> set errs1. e = None" by simp
  show ?case
  proof (cases "z = z0")
    case True
    with updateZones_other [OF assms l, of "zone_Name z0"] Cons.prems(3) st e show ?thesis by simp
  next
    case False
    with Cons.IH [OF l n] Cons.prems(3,4) show ?thesis by simp
  qed
qed simp

text \<open>
  C37: If both versions can be read and every zone with the identifier of the cluster has features,
  reconciling does not panic, and it changes no other zone; if it succeeds, every one of the zones carries
  the two versions, with its other features as they were.
\<close>

theorem zv_Reconcile_reports:
  assumes "combine_ok E" and "zv_update_ok zones r" and "zv_Get r (req_Name req) w = Inr cv"
    and "extractOpenShiftVersion cv = Returns (Inr ocp)"
    and "zv_getVersion r w = Inr body" and "zv_Unmarshal r body = Inr k8s"
    and "zv_ListZones r upstreamZoneIdentifierLabelKey (ZoneID r) w = Inr zs"
    and "distinct (map zone_Name zs)" and "\<forall>z \<in> set zs. zone_Features z \<noteq> None"
  shows "\<exists>w' e. zv_Reconcile E r req w = (w', Returns e) \<and>
    (e = None \<longrightarrow> (\<forall>z \<in> set zs. \<exists>z'. zones w' (zone_Name z) = Some z' \<and> versions_set k8s ocp z z')) \<and>
    (\<forall>n. n \<notin> zone_Name ` set zs \<longrightarrow> zones w' n = zones w n)"
proof (cases "zs = []")
  case True
  with assms(3-7) show ?thesis by (simp add: zv_Reconcile_def)
next
  case False
  from updateZones_total [OF assms(9), of r k8s ocp w] obtain w' errs where u: "updateZones r k8s ocp zs w = (w', Returns errs)"
    by (cases "updateZones r k8s ocp zs w"; cases "snd (updateZones r k8s ocp zs w)") auto
  with False assms(3-7) have r: "zv_Reconcile E r req w = (w', Returns (multierr_Combine E errs))"
    by (simp add: zv_Reconcile_def)
  have "\<forall>e \<in> set errs. e = None" if "multierr_Combine E errs = None" using that assms(1) by (simp add: combine_ok_def)
  with updateZones_all [OF assms(2) u _ assms(8)] updateZones_other [OF assms(2) u] r show ?thesis by auto
qed

text \<open>
  C39: Reading the version panics exactly if a completed update has no completion time, or if the version
  that is chosen is not empty and has no dot; and writing to a zone whose features are not set panics, wherever it is among
  the zones, with the zones before it updated and those after it not.
\<close>

theorem zv_panics:
  "(extractOpenShiftVersion cv = Panics \<longleftrightarrow>
     (\<exists>h \<in> set (cv_History cv). completed h \<and> hi_CompletionTime h = None) \<or>
     (\<exists>v. historyLoop (cv_History cv) [] 0 = Returns v \<and>
        (let v = (if v = [] then cv_Desired cv else v) in v \<noteq> [] \<and> CHR ''.'' \<notin> set v))) \<and>
   updateZones r k8s ocp (before @ z\<lparr>zone_Features := None\<rparr> # zs) w = (fst (updateZones r k8s ocp before w), Panics)"
proof (rule conjI [OF _ updateZones_panics])
  have split: "(case Split (CHR ''.'') v of major # minor # rest \<Rightarrow> Returns (f major minor) | _ \<Rightarrow> Panics) = Panics \<longleftrightarrow>
      CHR ''.'' \<notin> set v" for v and f :: "string \<Rightarrow> string \<Rightarrow> err + Info"
  proof (cases "CHR ''.'' \<in> set v")
    case True
    then obtain a b where "v = a @ CHR ''.'' # b" "CHR ''.'' \<notin> set a" by (metis split_list_first)
    then show ?thesis by (cases "Split (CHR ''.'') b") (auto simp: Split_append)
  qed (simp add: Split_absent)
  show "extractOpenShiftVersion cv = Panics \<longleftrightarrow>
     (\<exists>h \<in> set (cv_History cv). completed h \<and> hi_CompletionTime h = None) \<or>
     (\<exists>v. historyLoop (cv_History cv) [] 0 = Returns v \<and>
        (let v = (if v = [] then cv_Desired cv else v) in v \<noteq> [] \<and> CHR ''.'' \<notin> set v))"
  proof (cases "historyLoop (cv_History cv) [] 0")
    case Panics
    then have "\<exists>h \<in> set (cv_History cv). completed h \<and> hi_CompletionTime h = None" by (simp only: historyLoop_panics)
    with Panics show ?thesis by (simp add: extractOpenShiftVersion_def mput_def)
  next
    case (Returns v)
    then have "\<not> (\<exists>h \<in> set (cv_History cv). completed h \<and> hi_CompletionTime h = None)"
      using historyLoop_panics [of "cv_History cv" "[]" 0] by simp
    with Returns show ?thesis by (auto simp: extractOpenShiftVersion_def mput_def Let_def split)
  qed
qed

section \<open>A concrete controller\<close>

definition sample_cv :: ClusterVersion where
  "sample_cv = \<lparr>cv_History =
     [\<lparr>hi_State = ''Partial'', hi_Verified = True, hi_CompletionTime = None, hi_Version = ''4.15.0''\<rparr>,
      \<lparr>hi_State = ''Completed'', hi_Verified = True, hi_CompletionTime = Some 20, hi_Version = ''4.14.3''\<rparr>,
      \<lparr>hi_State = ''Completed'', hi_Verified = True, hi_CompletionTime = Some 10, hi_Version = ''4.13.9''\<rparr>],
     cv_Desired = ''4.15.0''\<rparr>"

definition sample_zones :: "Zone list" where
  "sample_zones = [\<lparr>zone_Name = ''z1'', zone_Features = Some [(''x'', ''y'')]\<rparr>]"

definition sample_zv :: "(string \<Rightarrow> Zone option) ZoneK8sVersionReconciler" where
  "sample_zv =
     \<lparr>zv_Get = (\<lambda>n w. Inr sample_cv), zv_getVersion = (\<lambda>w. Inr ''body''), zv_Unmarshal = (\<lambda>s. Inr \<lparr>vi_Major = ''1'', vi_Minor = ''27''\<rparr>),
      zv_ListZones = (\<lambda>k v w. Inr sample_zones), zv_Update = (\<lambda>z w. (w(zone_Name z \<mapsto> z), None)), ZoneID = ''id''\<rparr>"

lemma sample_extract: "extractOpenShiftVersion sample_cv = Returns (Inr \<lparr>vi_Major = ''4'', vi_Minor = ''14''\<rparr>)"
  by (simp add: extractOpenShiftVersion_def sample_cv_def)

theorem extract_latest_witness:
  "\<exists>v rest. Split (CHR ''.'') v = ''4'' # ''14'' # rest \<and> v \<noteq> []"
  using extract_latest [OF sample_extract] by (elim exE conjE) (intro exI conjI, simp, assumption)

lemma sample_zv_Reconcile:
  "\<exists>w'. zv_Reconcile sample_ext sample_zv \<lparr>req_Namespace = [], req_Name = ''version''\<rparr> Map.empty = (w', Returns None)"
proof -
  have m: "multierr_Combine sample_ext [] = None" using sample_ext_laws(1) by (simp add: combine_ok_def)
  show ?thesis
    by (simp add: zv_Reconcile_def sample_zv_def sample_extract) (simp add: sample_zones_def mput_def m)
qed

theorem zv_Reconcile_reports_witness:
  "\<exists>w' z'. zv_Reconcile sample_ext sample_zv \<lparr>req_Namespace = [], req_Name = ''version''\<rparr> Map.empty = (w', Returns None) \<and>
     w' ''z1'' = Some z' \<and> mget (zone_Features z') ''openshiftVersion'' = Some ''4.14''"
proof -
  have u: "zv_update_ok (\<lambda>w. w) sample_zv" by (simp add: zv_update_ok_def sample_zv_def)
  have g: "zv_Get sample_zv (req_Name \<lparr>req_Namespace = [], req_Name = ''version''\<rparr>) Map.empty = Inr sample_cv"
    "zv_getVersion sample_zv Map.empty = Inr ''body''" "zv_Unmarshal sample_zv ''body'' = Inr \<lparr>vi_Major = ''1'', vi_Minor = ''27''\<rparr>"
    "zv_ListZones sample_zv upstreamZoneIdentifierLabelKey (ZoneID sample_zv) Map.empty = Inr sample_zones"
    "distinct (map zone_Name sample_zones)" "\<forall>z \<in> set sample_zones. zone_Features z \<noteq> None"
    by (simp_all add: sample_zv_def sample_zones_def)
  obtain w' where r: "zv_Reconcile sample_ext sample_zv \<lparr>req_Namespace = [], req_Name = ''version''\<rparr> Map.empty = (w', Returns None)"
    using sample_zv_Reconcile by blast
  with zv_Reconcile_reports [OF sample_ext_laws(1) u g(1) sample_extract g(2-6)] obtain z' where
    "w' ''z1'' = Some z'" "versions_set \<lparr>vi_Major = ''1'', vi_Minor = ''27''\<rparr> \<lparr>vi_Major = ''4'', vi_Minor = ''14''\<rparr> (hd sample_zones) z'"
    by (auto simp: sample_zones_def)
  with r show ?thesis by (auto simp: versions_set_def formatVersion_def openshiftVersionFeatureKey_def)
qed

end
