(* ===== verification/ValidateLabels.thy ===== *)
theory ValidateLabels
  imports Cluster
begin

text \<open>
  validate/labels.go: labels checked against pairs of anchored regular expressions. Package regexp is the
  record \<open>regexps\<close> with its documented behaviour \<open>regexps_ok\<close>. \<open>allowed_pairs\<close> is the specification that the
  list of compiled expressions refines.
\<close>

section \<open>The code\<close>

record 're regexps =
  re_Compile :: "string \<Rightarrow> err + 're"
  re_MatchString :: "'re \<Rightarrow> string \<Rightarrow> bool"
  re_String :: "'re \<Rightarrow> string"

record 're regexKV =
  kv_K :: 're
  kv_V :: 're

definition regexKV_String :: "'re regexps \<Rightarrow> 're regexKV \<Rightarrow> string" where
  "regexKV_String R r = re_String R (kv_K r) @ ''='' @ re_String R (kv_V r)"

text \<open>The zero value has a nil slice, which has no elements.\<close>

record 're AllowedLabels =
  allowed :: "'re regexKV list"

definition zeroAllowedLabels :: "'re AllowedLabels" where
  "zeroAllowedLabels = \<lparr>allowed = []\<rparr>"

definition anchor :: "string \<Rightarrow> string" where
  "anchor s = ''^(?:'' @ s @ '')$''"

definition Add :: "'re regexps \<Rightarrow> string \<Rightarrow> string \<Rightarrow> 're AllowedLabels \<Rightarrow> 're AllowedLabels \<times> err option" where
  "Add R key value l = (case re_Compile R (anchor key) of
      Inl err \<Rightarrow> (l, Some (WrapErr ''invalid key: '' err []))
    | Inr keyR \<Rightarrow>
        (case re_Compile R (anchor value) of
           Inl err \<Rightarrow> (l, Some (WrapErr ''invalid value: '' err []))
         | Inr valueR \<Rightarrow> (l\<lparr>allowed := allowed l @ [\<lparr>kv_K = keyR, kv_V = valueR\<rparr>]\<rparr>, None)))"

fun validateLoop :: "'re regexps \<Rightarrow> 're regexKV list \<Rightarrow> string \<Rightarrow> string \<Rightarrow> err option" where
  "validateLoop R [] key value = Some (NewErr (''label '' @ key @ ''='' @ value @ '' is not allowed''))"
| "validateLoop R (a # as) key value =
     (if re_MatchString R (kv_K a) key \<and> re_MatchString R (kv_V a) value then None else validateLoop R as key value)"

definition ValidateLabel :: "'re regexps \<Rightarrow> 're AllowedLabels \<Rightarrow> string \<Rightarrow> string \<Rightarrow> err option" where
  "ValidateLabel R l key value = validateLoop R (allowed l) key value"

definition formatLabels :: "'re regexps \<Rightarrow> 're AllowedLabels \<Rightarrow> string" where
  "formatLabels R l = ''{ '' @ Join (map (regexKV_String R) (allowed l)) '', '' @ '' }''"

definition AllowedLabels_String :: "'re regexps \<Rightarrow> 're AllowedLabels \<Rightarrow> string" where
  "AllowedLabels_String R l = ''allowed '' @ formatLabels R l"

definition Validate :: "ext \<Rightarrow> 're regexps \<Rightarrow> string order \<Rightarrow> 're AllowedLabels \<Rightarrow> string gomap \<Rightarrow> err option" where
  "Validate E R ord l lbls =
     (case multierr_Combine E (map (\<lambda>(k, v). ValidateLabel R l k v) (ord (entries lbls))) of
        None \<Rightarrow> None
      | Some err \<Rightarrow> Some (WrapErr ''label validation failed: '' err ('', allowed labels: '' @ formatLabels R l)))"

section \<open>Specification\<close>

text \<open>
  \<open>lang s\<close> is the set of the strings the whole of which the expression \<open>s\<close> matches. In the syntax of package regexp that is what
  \<open>^(?:s)$\<close> matches: \<open>^\<close> and \<open>$\<close> are the beginning and the end of the text, and the group keeps an alternative in \<open>s\<close> together.
  It is \<open>None\<close> if that expression does not compile. Nothing is assumed of expressions of any other form.
\<close>

definition regexps_ok :: "(string \<Rightarrow> string set option) \<Rightarrow> 're regexps \<Rightarrow> bool" where
  "regexps_ok lang R \<longleftrightarrow>
     (\<forall>s. case lang s of
        None \<Rightarrow> \<exists>err. re_Compile R (''^(?:'' @ s @ '')$'') = Inl err
      | Some L \<Rightarrow> \<exists>re. re_Compile R (''^(?:'' @ s @ '')$'') = Inr re \<and> (\<forall>t. re_MatchString R re t \<longleftrightarrow> t \<in> L))"

definition pair_ok :: "(string \<Rightarrow> string set option) \<Rightarrow> string \<times> string \<Rightarrow> bool" where
  "pair_ok lang p \<longleftrightarrow> lang (fst p) \<noteq> None \<and> lang (snd p) \<noteq> None"

definition permits :: "(string \<Rightarrow> string set option) \<Rightarrow> (string \<times> string) list \<Rightarrow> string \<Rightarrow> string \<Rightarrow> bool" where
  "permits lang ps k v \<longleftrightarrow> (\<exists>p \<in> set ps. pair_ok lang p \<and> k \<in> the (lang (fst p)) \<and> v \<in> the (lang (snd p)))"

text \<open>The value after a sequence of calls of \<open>Add\<close>, whatever errors they return.\<close>

definition addAll :: "'re regexps \<Rightarrow> (string \<times> string) list \<Rightarrow> 're AllowedLabels" where
  "addAll R ps = foldl (\<lambda>l (k, v). fst (Add R k v l)) zeroAllowedLabels ps"

definition denotes :: "(string \<Rightarrow> string set option) \<Rightarrow> 're regexps \<Rightarrow> 're regexKV \<Rightarrow> string \<times> string \<Rightarrow> bool" where
  "denotes lang R a p \<longleftrightarrow> pair_ok lang p \<and>
     (\<forall>t. re_MatchString R (kv_K a) t \<longleftrightarrow> t \<in> the (lang (fst p))) \<and>
     (\<forall>t. re_MatchString R (kv_V a) t \<longleftrightarrow> t \<in> the (lang (snd p)))"

lemma regexpsD:
  assumes "regexps_ok lang R"
  shows "lang s = None \<Longrightarrow> \<exists>err. re_Compile R (anchor s) = Inl err"
    and "lang s = Some L \<Longrightarrow> \<exists>re. re_Compile R (anchor s) = Inr re \<and> (\<forall>t. re_MatchString R re t \<longleftrightarrow> t \<in> L)"
  using assms [unfolded regexps_ok_def, rule_format, of s] by (simp_all add: anchor_def)

lemma Add_cases:
  assumes "regexps_ok lang R"
  shows "if pair_ok lang (k, v)
    then \<exists>a. Add R k v l = (l\<lparr>allowed := allowed l @ [a]\<rparr>, None) \<and> denotes lang R a (k, v)
    else fst (Add R k v l) = l \<and> snd (Add R k v l) \<noteq> None"
proof (cases "lang k")
  case None
  with regexpsD(1) [OF assms] obtain err where "re_Compile R (anchor k) = Inl err" by blast
  with None show ?thesis by (simp add: Add_def pair_ok_def)
next
  case (Some K)
  then obtain kr where kr: "re_Compile R (anchor k) = Inr kr" "\<forall>t. re_MatchString R kr t \<longleftrightarrow> t \<in> K"
    using regexpsD(2) [OF assms] by blast
  show ?thesis
  proof (cases "lang v")
    case None
    with regexpsD(1) [OF assms] obtain err where "re_Compile R (anchor v) = Inl err" by blast
    with None kr show ?thesis by (simp add: Add_def pair_ok_def)
  next
    case (Some V)
    then obtain vr where "re_Compile R (anchor v) = Inr vr" "\<forall>t. re_MatchString R vr t \<longleftrightarrow> t \<in> V"
      using regexpsD(2) [OF assms] by blast
    with kr \<open>lang k = Some K\<close> Some have
      "Add R k v l = (l\<lparr>allowed := allowed l @ [\<lparr>kv_K = kr, kv_V = vr\<rparr>]\<rparr>, None) \<and>
       denotes lang R \<lparr>kv_K = kr, kv_V = vr\<rparr> (k, v) \<and> pair_ok lang (k, v)"
      by (simp add: Add_def pair_ok_def denotes_def)
    then show ?thesis by auto
  qed
qed

lemma addAll_denotes:
  assumes "regexps_ok lang R"
  shows "list_all2 (denotes lang R) (allowed (addAll R ps)) (filter (pair_ok lang) ps)"
proof (induction ps rule: rev_induct)
  case Nil
  then show ?case by (simp add: addAll_def zeroAllowedLabels_def)
next
  case (snoc p ps)
  obtain k v where p: "p = (k, v)" by (cases p)
  have s: "addAll R (ps @ [p]) = fst (Add R k v (addAll R ps))" by (simp add: addAll_def p)
  show ?case
  proof (cases "pair_ok lang p")
    case True
    with Add_cases [OF assms, of k v "addAll R ps"] p obtain a where
      "Add R k v (addAll R ps) = ((addAll R ps)\<lparr>allowed := allowed (addAll R ps) @ [a]\<rparr>, None)" "denotes lang R a p" by auto
    with s snoc.IH True show ?thesis by (simp add: list_all2_appendI)
  next
    case False
    with Add_cases [OF assms, of k v "addAll R ps"] p s snoc.IH show ?thesis by simp
  qed
qed

lemma validateLoop_None:
  "validateLoop R as k v = None \<longleftrightarrow> (\<exists>a \<in> set as. re_MatchString R (kv_K a) k \<and> re_MatchString R (kv_V a) v)"
  by (induction as) auto

lemma ValidateLabel_permits:
  assumes "regexps_ok lang R"
  shows "ValidateLabel R (addAll R ps) k v = None \<longleftrightarrow> permits lang ps k v"
proof -
  note d = addAll_denotes [OF assms, of ps, unfolded list_all2_conv_all_nth]
  have "(\<exists>a \<in> set (allowed (addAll R ps)). re_MatchString R (kv_K a) k \<and> re_MatchString R (kv_V a) v) \<longleftrightarrow>
    (\<exists>p \<in> set (filter (pair_ok lang) ps). k \<in> the (lang (fst p)) \<and> v \<in> the (lang (snd p)))"
    using d unfolding Bex_def in_set_conv_nth denotes_def by metis
  then show ?thesis by (auto simp: ValidateLabel_def validateLoop_None permits_def)
qed

section \<open>Properties\<close>

text \<open>
  C36: After any calls of \<open>Add\<close>, those with an invalid expression included, the labels that validate are exactly
  those of which every key and value as a whole matches one of the valid pairs, in whatever order the map is
  visited; the zero value allows no label.
\<close>

theorem Validate_permits:
  assumes "combine_ok E" and "regexps_ok lang R" and "is_order ord"
  shows "Validate E R ord (addAll R ps) lbls = None \<longleftrightarrow> (\<forall>(k, v) \<in> set (entries lbls). permits lang ps k v)"
proof -
  have "Validate E R ord (addAll R ps) lbls = None \<longleftrightarrow>
    multierr_Combine E (map (\<lambda>(k, v). ValidateLabel R (addAll R ps) k v) (ord (entries lbls))) = None"
    by (simp add: Validate_def split: option.split)
  also have "\<dots> \<longleftrightarrow> (\<forall>(k, v) \<in> set (ord (entries lbls)). ValidateLabel R (addAll R ps) k v = None)"
    using assms(1) by (auto simp: combine_ok_def)
  finally show ?thesis by (simp add: is_order_set [OF assms(3)] ValidateLabel_permits [OF assms(2)])
qed

text \<open>
  Expressions without special characters, anchored or not: anchored ones match themselves, others what they are a part of, and one
  with an opening parenthesis is invalid.
\<close>

definition plain_lang :: "string \<Rightarrow> string set option" where
  "plain_lang s = (if CHR ''('' \<in> set s then None else Some {s})"

definition plain_regexps :: "(bool \<times> string) regexps" where
  "plain_regexps =
     \<lparr>re_Compile = (\<lambda>s. let whole = HasPrefix s ''^(?:'' \<and> HasSuffix s '')$''; e = (if whole then take (length s - 6) (drop 4 s) else s)
        in if CHR ''('' \<in> set e then Inl (NewErr ''bad'') else Inr (whole, e)),
      re_MatchString = (\<lambda>(whole, e) t. if whole then t = e else Contains t e), re_String = snd\<rparr>"

lemma plain_regexps_ok: "regexps_ok plain_lang plain_regexps"
proof -
  have "HasPrefix (''^(?:'' @ s @ '')$'') ''^(?:''" "HasSuffix (''^(?:'' @ s @ '')$'') '')$''" for s
    by (simp_all add: HasPrefix_def HasSuffix_def)
  then show ?thesis by (simp add: regexps_ok_def plain_lang_def plain_regexps_def Let_def)
qed

theorem Validate_permits_witness:
  "Validate sample_ext plain_regexps (\<lambda>al. al) (addAll plain_regexps [(''a'', ''1''), (''('', ''2'')]) (Some [(''a'', ''1'')]) = None \<and>
   Validate sample_ext plain_regexps (\<lambda>al. al) (addAll plain_regexps [(''a'', ''1''), (''('', ''2'')]) (Some [(''b'', ''2'')]) \<noteq> None"
  unfolding Validate_permits [OF sample_ext_laws(1) plain_regexps_ok is_order_id]
  by (simp add: permits_def pair_ok_def plain_lang_def)

end
