(* ===== verification/Access.thy ===== *)
theory Access
  imports Kube
begin

text \<open>
  whoami/whoami.go and controllers/clustersource/clustersource.go: the user the agent runs as, and the
  cluster of the control API. Clients, REST configurations and clusters are opaque; what client-go and
  controller-runtime make of them are parameters.
\<close>

section \<open>whoami/whoami.go\<close>

record Whoami =
  wh_Client :: "err + UserInfo"

text \<open>\<open>NewForConfigAndClient\<close> gives the client, which is seen through its one call \<open>Create\<close>.\<close>

definition WhoamiForConfigAndClient :: "err + (err + UserInfo) \<Rightarrow> err + Whoami" where
  "WhoamiForConfigAndClient newForConfigAndClient = (case newForConfigAndClient of
      Inl err \<Rightarrow> Inl (WrapErr ''error while creating self subject review client: '' err [])
    | Inr client \<Rightarrow> Inr \<lparr>wh_Client = client\<rparr>)"

definition Whoami_Whoami :: "Whoami \<Rightarrow> err + UserInfo" where
  "Whoami_Whoami s = (case wh_Client s of
      Inl err \<Rightarrow> Inl (WrapErr ''error while creating self subject review: '' err [])
    | Inr info \<Rightarrow> Inr info)"

section \<open>controllers/clustersource/clustersource.go\<close>

record 'rc clusters =
  cs_RESTConfigFromKubeConfig :: "string \<Rightarrow> err + 'rc"
  cs_RESTConfig :: "string \<Rightarrow> string \<Rightarrow> 'rc"

text \<open>\<open>cluster.New\<close> makes a cluster \<open>'c\<close> of a REST configuration.\<close>

definition FromKubeConfig :: "'rc clusters \<Rightarrow> ('rc \<Rightarrow> err + 'c) \<Rightarrow> string \<Rightarrow> err + 'c" where
  "FromKubeConfig C newCluster kubeconfig = (case cs_RESTConfigFromKubeConfig C kubeconfig of
      Inl err \<Rightarrow> Inl (WrapErr ''unable to create rest config from kubeconfig: '' err [])
    | Inr rc \<Rightarrow>
        (case newCluster rc of
           Inl err \<Rightarrow> Inl (WrapErr ''unable to setup cluster: '' err [])
         | Inr clst \<Rightarrow> Inr clst))"

definition FromURLAndBearerToken :: "'rc clusters \<Rightarrow> ('rc \<Rightarrow> err + 'c) \<Rightarrow> string \<Rightarrow> string \<Rightarrow> err + 'c" where
  "FromURLAndBearerToken C newCluster url token = (case newCluster (cs_RESTConfig C url token) of
      Inl err \<Rightarrow> Inl (WrapErr ''unable to setup cluster: '' err [])
    | Inr clst \<Rightarrow> Inr clst)"

lemma FromKubeConfig_Inr:
  "FromKubeConfig C newCluster kubeconfig = Inr clst \<longleftrightarrow>
     (\<exists>rc. cs_RESTConfigFromKubeConfig C kubeconfig = Inr rc \<and> newCluster rc = Inr clst)"
  by (auto simp: FromKubeConfig_def split: sum.splits)

lemma FromURLAndBearerToken_Inr:
  "FromURLAndBearerToken C newCluster url token = Inr clst \<longleftrightarrow> newCluster (cs_RESTConfig C url token) = Inr clst"
  by (auto simp: FromURLAndBearerToken_def split: sum.splits)

lemma Whoami_Inr:
  "(\<exists>wc. WhoamiForConfigAndClient c = Inr wc \<and> Whoami_Whoami wc = Inr info) \<longleftrightarrow> c = Inr (Inr info)"
  by (auto simp: WhoamiForConfigAndClient_def Whoami_Whoami_def split: sum.splits)

end
