(* ===== verification/Config.thy ===== *)
theory Config
  imports NodeLimits
begin

text \<open>
  config.go: the configuration file. Reading and parsing it are parameters; a deprecated single limit is
  turned into a list of limits. The zero value of a label selector is the parameter \<open>zeroSelector\<close>.
\<close>

record ('s, 'd, 'q, 'h, 'l) Config =
  cf_OrganizationLabel :: string
  cf_UserDefaultOrganizationAnnotation :: string
  cf_QuotaOverrideNamespace :: string
  cf_MemoryPerCoreLimit :: "'q option"
  cf_MemoryPerCoreLimits :: "('s, 'q) Limit list option"
  cf_MemoryPerCoreWarnThreshold :: "'d option"
  cf_PrivilegedGroups :: "string list"
  cf_PrivilegedUsers :: "string list"
  cf_PrivilegedClusterRoles :: "string list"
  cf_DefaultNodeSelector :: "string gomap"
  cf_DefaultNamespaceNodeSelectorAnnotation :: string
  cf_DefaultOrganizationClusterRoles :: "string gomap"
  cf_ReservedNamespaces :: "string list"
  cf_AllowedAnnotations :: "string list"
  cf_AllowedLabels :: "string list"
  cf_LegacyNamespaceQuota :: int
  cf_PodRunOnceActiveDeadlineSecondsOverrideAnnotation :: string
  cf_PodRunOnceActiveDeadlineSecondsDefault :: int
  cf_LegacyResourceQuotaAnnotationBase :: string
  cf_LegacyDefaultResourceQuotas :: "'h gomap"
  cf_LegacyLimitRangeName :: string
  cf_LegacyDefaultLimitRange :: 'l

definition migrateConfig ::
    "'s \<Rightarrow> ('s, 'd, 'q, 'h, 'l) Config \<Rightarrow> ('s, 'd, 'q, 'h, 'l) Config \<times> string list" where
  "migrateConfig zeroSelector c =
     (if cf_MemoryPerCoreLimit c \<noteq> None \<and> cf_MemoryPerCoreLimits c = None
      then (c\<lparr>cf_MemoryPerCoreLimits := Some [\<lparr>lim_NodeSelector = zeroSelector, lim_Limit = cf_MemoryPerCoreLimit c\<rparr>]\<rparr>,
        [''MemoryPerCoreLimit is deprecated and will be removed in a future version. Use MemoryPerCoreLimits: {Limit: '' @
         [CHR 0x22] @ ''XGi'' @ [CHR 0x22] @ ''} instead.''])
      else (c, []))"

definition ConfigFromFile ::
    "'s \<Rightarrow> (string \<Rightarrow> err + string) \<Rightarrow> (string \<Rightarrow> err + ('s, 'd, 'q, 'h, 'l) Config) \<Rightarrow> string
      \<Rightarrow> err + ('s, 'd, 'q, 'h, 'l) Config \<times> string list" where
  "ConfigFromFile zeroSelector ReadFile Unmarshal path = (case ReadFile path of
      Inl err \<Rightarrow> Inl err
    | Inr raw \<Rightarrow>
        (case Unmarshal raw of
           Inl err \<Rightarrow> Inl err
         | Inr c \<Rightarrow> Inr (migrateConfig zeroSelector c)))"

definition Config_Validate :: "ext \<Rightarrow> ('s, 'd, 'q, 'h, 'l) Config \<Rightarrow> err option" where
  "Config_Validate E c =
     multierr_Combine E (if cf_OrganizationLabel c = [] then [Some (NewErr ''OrganizationLabel must not be empty'')] else [])"

text \<open>The limits as a list: a nil slice has no elements.\<close>

definition cf_limits :: "('s, 'd, 'q, 'h, 'l) Config \<Rightarrow> ('s, 'q) Limit list" where
  "cf_limits c = (case cf_MemoryPerCoreLimits c of None \<Rightarrow> [] | Some l \<Rightarrow> l)"

section \<open>Properties\<close>

text \<open>
  Migrating a configuration twice is the same as migrating it once, apart from the warning. If only the
  deprecated limit is set, it becomes the limit of every node selector (the empty label selector matches
  everything) and there is one warning; otherwise the configuration is kept and there is none.
\<close>

theorem migrateConfig_limit:
  assumes "asSelector zeroSelector = Inr (\<lambda>_. True)" and "migrateConfig zeroSelector c = (c', warnings)"
  shows "fst (migrateConfig zeroSelector c') = c' \<and>
    (if cf_MemoryPerCoreLimit c \<noteq> None \<and> cf_MemoryPerCoreLimits c = None
     then GetLimitForNodeSelector asSelector (cf_limits c') nodeSelector = cf_MemoryPerCoreLimit c \<and> length warnings = 1
     else c' = c \<and> warnings = [])"
  using assms by (auto simp: migrateConfig_def cf_limits_def split: if_splits)

text \<open>A validated configuration names the organization label.\<close>

lemma Config_Validate_ok: "combine_ok E \<Longrightarrow> Config_Validate E c = None \<longleftrightarrow> cf_OrganizationLabel c \<noteq> []"
  by (auto simp: Config_Validate_def combine_ok_def)

definition sample_config :: "(unit, nat, nat, nat, nat) Config" where
  "sample_config =
     \<lparr>cf_OrganizationLabel = ''org'', cf_UserDefaultOrganizationAnnotation = ''default-org'', cf_QuotaOverrideNamespace = ''quotas'',
      cf_MemoryPerCoreLimit = Some 4, cf_MemoryPerCoreLimits = None, cf_MemoryPerCoreWarnThreshold = None,
      cf_PrivilegedGroups = [], cf_PrivilegedUsers = [''root''], cf_PrivilegedClusterRoles = [], cf_DefaultNodeSelector = None,
      cf_DefaultNamespaceNodeSelectorAnnotation = ''sel'', cf_DefaultOrganizationClusterRoles = None,
      cf_ReservedNamespaces = [''default''], cf_AllowedAnnotations = [], cf_AllowedLabels = [], cf_LegacyNamespaceQuota = 3,
      cf_PodRunOnceActiveDeadlineSecondsOverrideAnnotation = ''deadline'', cf_PodRunOnceActiveDeadlineSecondsDefault = 60,
      cf_LegacyResourceQuotaAnnotationBase = ''b'', cf_LegacyDefaultResourceQuotas = Some [(''q'', 1)],
      cf_LegacyLimitRangeName = ''lr'', cf_LegacyDefaultLimitRange = 0\<rparr>"

theorem migrateConfig_limit_witness:
  "GetLimitForNodeSelector (\<lambda>_. Inr (\<lambda>_. True)) (cf_limits (fst (migrateConfig () sample_config))) None = Some 4"
proof -
  obtain c' ws where m: "migrateConfig () sample_config = (c', ws)" by (cases "migrateConfig () sample_config")
  have "cf_MemoryPerCoreLimit sample_config = Some 4" "cf_MemoryPerCoreLimits sample_config = None" by (simp_all add: sample_config_def)
  with migrateConfig_limit [OF _ m, of "\<lambda>_. Inr (\<lambda>_. True)" None] m show ?thesis by simp
qed

end
