(* ===== verification/Watches.thy ===== *)
theory Watches
  imports RatioController OrgRBAC GroupLifecycle UsageProfiles LegacyQuota UserSync ZoneVersion
begin

text \<open>
  The functions \<open>SetupWithManager\<close> of the controllers: which changes of which objects make which requests.
  A registration is the list of its watches; the builder of controller-runtime is modelled by what its
  methods \<open>For\<close>, \<open>Owns\<close> and \<open>Watches\<close> register, as documented. The locales \<open>requested_by\<close> and
  \<open>restored_by\<close> are contracts that a watch of owned objects and the reconciler behind it have together: what is lost is put back.
\<close>

section \<open>Watches\<close>

datatype cluster = LocalCluster | ControlAPI

record OwnerReference =
  ow_Group :: string
  ow_Kind :: string
  ow_Name :: string
  ow_Controller :: bool

text \<open>A change of an object, reduced to what the handlers and predicates look at.\<close>

record Change =
  ch_Cluster :: cluster
  ch_GVK :: GroupVersionKind
  ch_Namespace :: string
  ch_Name :: string
  ch_Labels :: "string gomap"
  ch_Owners :: "OwnerReference list"

record watch =
  wa_Cluster :: cluster
  wa_GVK :: GroupVersionKind
  wa_Predicate :: "Change \<Rightarrow> bool"
  wa_Requests :: "Change \<Rightarrow> CtrlRequest list"

definition watches_change :: "watch \<Rightarrow> Change \<Rightarrow> bool" where
  "watches_change x c \<longleftrightarrow> wa_Cluster x = ch_Cluster c \<and> wa_GVK x = ch_GVK c \<and> wa_Predicate x c"

definition enqueued :: "watch list \<Rightarrow> Change \<Rightarrow> CtrlRequest list" where
  "enqueued ws c = concat (map (\<lambda>x. wa_Requests x c) (filter (\<lambda>x. watches_change x c) ws))"

definition EnqueueRequestForObject :: "Change \<Rightarrow> CtrlRequest list" where
  "EnqueueRequestForObject c = [\<lparr>req_Namespace = ch_Namespace c, req_Name = ch_Name c\<rparr>]"

text \<open>The owners of the agent's objects are cluster-scoped, so the request has no namespace.\<close>

definition EnqueueRequestForOwner :: "GroupVersionKind \<Rightarrow> bool \<Rightarrow> Change \<Rightarrow> CtrlRequest list" where
  "EnqueueRequestForOwner owner onlyController c =
     map (\<lambda>x. \<lparr>req_Namespace = [], req_Name = ow_Name x\<rparr>)
       (filter (\<lambda>x. ow_Group x = gvk_Group owner \<and> ow_Kind x = gvk_Kind owner \<and> (onlyController \<longrightarrow> ow_Controller x)) (ch_Owners c))"

definition everything :: "Change \<Rightarrow> bool" where
  "everything c = True"

definition For :: "GroupVersionKind \<Rightarrow> (Change \<Rightarrow> bool) \<Rightarrow> watch" where
  "For g p = \<lparr>wa_Cluster = LocalCluster, wa_GVK = g, wa_Predicate = p, wa_Requests = EnqueueRequestForObject\<rparr>"

definition Owns :: "GroupVersionKind \<Rightarrow> GroupVersionKind \<Rightarrow> watch" where
  "Owns owner g = \<lparr>wa_Cluster = LocalCluster, wa_GVK = g, wa_Predicate = everything,
     wa_Requests = EnqueueRequestForOwner owner True\<rparr>"

text \<open>\<open>WatchesRawSource(source.Kind(foreign.GetCache(), ...))\<close>.\<close>

definition foreignKind :: "GroupVersionKind \<Rightarrow> (Change \<Rightarrow> CtrlRequest list) \<Rightarrow> watch" where
  "foreignKind g h = \<lparr>wa_Cluster = ControlAPI, wa_GVK = g, wa_Predicate = everything, wa_Requests = h\<rparr>"

definition gvk :: "string \<Rightarrow> string \<Rightarrow> string \<Rightarrow> GroupVersionKind" where
  "gvk g v k = \<lparr>gvk_Group = g, gvk_Version = v, gvk_Kind = k\<rparr>"

definition namespaceKind :: GroupVersionKind where "namespaceKind = gvk [] ''v1'' ''Namespace''"
definition podKind :: GroupVersionKind where "podKind = gvk [] ''v1'' ''Pod''"
definition quotaKind :: GroupVersionKind where "quotaKind = gvk [] ''v1'' ''ResourceQuota''"
definition limitRangeKind :: GroupVersionKind where "limitRangeKind = gvk [] ''v1'' ''LimitRange''"
definition roleBindingKind :: GroupVersionKind where "roleBindingKind = gvk rbacGroupName ''v1'' ''RoleBinding''"
definition groupKind :: GroupVersionKind where "groupKind = gvk ''user.openshift.io'' ''v1'' ''Group''"
definition userKind :: GroupVersionKind where "userKind = gvk ''user.openshift.io'' ''v1'' ''User''"
definition clusterVersionKind :: GroupVersionKind where "clusterVersionKind = gvk ''config.openshift.io'' ''v1'' ''ClusterVersion''"
definition zoneProfileKind :: GroupVersionKind where "zoneProfileKind = gvk ''cloudagent.appuio.io'' ''v1'' ''ZoneUsageProfile''"
definition teamKind :: GroupVersionKind where "teamKind = gvk ''appuio.io'' ''v1'' ''Team''"
definition membersKind :: GroupVersionKind where "membersKind = gvk ''appuio.io'' ''v1'' ''OrganizationMembers''"
definition controlUserKind :: GroupVersionKind where "controlUserKind = gvk ''appuio.io'' ''v1'' ''User''"
definition upstreamProfileKind :: GroupVersionKind where "upstreamProfileKind = gvk ''appuio.io'' ''v1'' ''UsageProfile''"

lemmas kind_defs = gvk_def namespaceKind_def podKind_def quotaKind_def limitRangeKind_def roleBindingKind_def groupKind_def
  userKind_def clusterVersionKind_def zoneProfileKind_def teamKind_def membersKind_def controlUserKind_def upstreamProfileKind_def

lemmas watch_defs = enqueued_def watches_change_def For_def Owns_def foreignKind_def everything_def
  EnqueueRequestForObject_def EnqueueRequestForOwner_def

section \<open>The registrations\<close>

definition rc_SetupWithManager :: "watch list" where
  "rc_SetupWithManager = [For podKind everything]"

definition or_SetupWithManager :: "watch list" where
  "or_SetupWithManager = [For namespaceKind everything, Owns namespaceKind roleBindingKind]"

text \<open>The mappers look at the name and the namespace of the upstream object only.\<close>

definition changedUpstream :: "UpstreamKind \<Rightarrow> Change \<Rightarrow> Upstream" where
  "changedUpstream k c = \<lparr>up_Kind = k, up_Namespace = ch_Namespace c, up_Name = ch_Name c, up_DeletionTimestamp = None,
     up_Finalizers = [], up_ResolvedUserRefs = []\<rparr>"

definition gs_SetupWithManager :: "watch list" where
  "gs_SetupWithManager =
     [For groupKind everything,
      foreignKind teamKind (teamMapper \<circ> changedUpstream TeamKind),
      foreignKind membersKind (organizationMembersMapper \<circ> changedUpstream OrganizationMembersKind)]"

definition ua_SetupWithManager :: "watch list" where
  "ua_SetupWithManager = [For userKind everything, foreignKind controlUserKind EnqueueRequestForObject]"

definition ups_SetupWithManager :: "watch list" where
  "ups_SetupWithManager = [For zoneProfileKind everything, foreignKind upstreamProfileKind EnqueueRequestForObject]"

definition zv_SetupWithManager :: "watch list" where
  "zv_SetupWithManager = [For clusterVersionKind everything]"

text \<open>
  \<open>predicate.LabelSelectorPredicate\<close> fails on a selector that is not valid; of a requirement that a label
  exists it makes the predicate \<open>Exists\<close>.
\<close>

definition labelExistsPredicate :: "(string \<Rightarrow> err + (string gomap \<Rightarrow> bool)) \<Rightarrow> string \<Rightarrow> err + (Change \<Rightarrow> bool)" where
  "labelExistsPredicate existsSelector label = (case existsSelector label of
      Inl err \<Rightarrow> Inl err
    | Inr sel \<Rightarrow> Inr (\<lambda>c. sel (ch_Labels c)))"

definition exists_ok :: "(string \<Rightarrow> err + (string gomap \<Rightarrow> bool)) \<Rightarrow> bool" where
  "exists_ok existsSelector \<longleftrightarrow> (\<forall>l sel. existsSelector l = Inr sel \<longrightarrow> (\<forall>m. sel m \<longleftrightarrow> mget m l \<noteq> None))"

definition upa_SetupWithManager ::
    "(string \<Rightarrow> err + (string gomap \<Rightarrow> bool)) \<Rightarrow> err + ZoneUsageProfile list \<Rightarrow> (watch list \<Rightarrow> err option)
      \<Rightarrow> 'w ZoneUsageProfileApplyReconciler \<Rightarrow> err + watch list" where
  "upa_SetupWithManager existsSelector profiles Build r =
     (case labelExistsPredicate existsSelector (upa_OrganizationLabel r) of
        Inl err \<Rightarrow> Inl (WrapErr ''unable to create LabelSelectorPredicate: '' err [])
      | Inr orgPredicate \<Rightarrow>
          (let ws = [For zoneProfileKind everything,
                     \<lparr>wa_Cluster = LocalCluster, wa_GVK = namespaceKind, wa_Predicate = orgPredicate,
                      wa_Requests = \<lambda>_. mapToAllUsageProfiles profiles\<rparr>]
           in case Build ws of
                Some err \<Rightarrow> Inl (WrapErr ''unable to create controller: '' err [])
              | None \<Rightarrow> Inr ws))"

definition lq_SetupWithManager ::
    "(string \<Rightarrow> err + (string gomap \<Rightarrow> bool)) \<Rightarrow> ('w, 'q, 'l) LegacyResourceQuotaReconciler \<Rightarrow> err + watch list" where
  "lq_SetupWithManager existsSelector r =
     (case labelExistsPredicate existsSelector (lq_OrganizationLabel r) of
        Inl err \<Rightarrow> Inl (WrapErr ''failed to create organization label predicate: '' err [])
      | Inr orgPredicate \<Rightarrow>
          Inr [For namespaceKind orgPredicate, Owns namespaceKind quotaKind, Owns namespaceKind limitRangeKind])"

text \<open>The watch that \<open>ensureWatch\<close> adds for a kind of the profiles' objects.\<close>

definition dynamicWatch :: "GroupVersionKind \<Rightarrow> watch" where
  "dynamicWatch g = \<lparr>wa_Cluster = LocalCluster, wa_GVK = g, wa_Predicate = everything,
     wa_Requests = EnqueueRequestForOwner zoneProfileKind False\<rparr>"

section \<open>Owned objects\<close>

definition controlledBy :: "string option \<Rightarrow> OwnerReference list" where
  "controlledBy c = (case c of None \<Rightarrow> []
    | Some n \<Rightarrow> [\<lparr>ow_Group = gvk_Group namespaceKind, ow_Kind = gvk_Kind namespaceKind, ow_Name = n, ow_Controller = True\<rparr>])"

definition binding_change :: "RoleBinding \<Rightarrow> Change" where
  "binding_change rb = \<lparr>ch_Cluster = LocalCluster, ch_GVK = roleBindingKind, ch_Namespace = rb_Namespace rb, ch_Name = rb_Name rb,
     ch_Labels = rb_Labels rb, ch_Owners = controlledBy (rb_Controller rb)\<rparr>"

definition quota_change :: "'q ResourceQuota \<Rightarrow> Change" where
  "quota_change rq = \<lparr>ch_Cluster = LocalCluster, ch_GVK = quotaKind, ch_Namespace = rqo_Namespace rq, ch_Name = rqo_Name rq,
     ch_Labels = None, ch_Owners = controlledBy (rqo_Controller rq)\<rparr>"

lemma kinds_differ:
  "namespaceKind \<noteq> roleBindingKind" "namespaceKind \<noteq> quotaKind" "quotaKind \<noteq> limitRangeKind" "groupKind \<noteq> teamKind"
  "teamKind \<noteq> membersKind" "zoneProfileKind \<noteq> namespaceKind"
  by (simp_all add: kind_defs rbacGroupName_def)

lemma enqueued_binding:
  "rb_Controller rb = Some n \<Longrightarrow> enqueued or_SetupWithManager (binding_change rb) = [\<lparr>req_Namespace = [], req_Name = n\<rparr>]"
  using kinds_differ(1) by (simp add: or_SetupWithManager_def watch_defs binding_change_def controlledBy_def)

lemma enqueued_quota:
  assumes "lq_SetupWithManager existsSelector r = Inr ws" and "rqo_Controller rq = Some n"
  shows "enqueued ws (quota_change rq) = [\<lparr>req_Namespace = [], req_Name = n\<rparr>]"
  using assms kinds_differ(2,3)
  by (auto simp: lq_SetupWithManager_def watch_defs quota_change_def controlledBy_def split: sum.splits)

section \<open>What is lost is put back\<close>

text \<open>
  \<open>reconcile n w w'\<close> says that reconciling the namespace \<open>n\<close> succeeds from \<open>w\<close> to \<open>w'\<close>. It puts the object
  \<open>k\<close> of the namespace if it is wanted there, and a change of that object makes a request for the namespace.
\<close>

locale requested_by =
  fixes reconcile :: "string \<Rightarrow> 'w \<Rightarrow> 'w \<Rightarrow> bool"
    and objs :: "'w \<Rightarrow> 'k \<Rightarrow> 'o option"
    and wanted :: "'w \<Rightarrow> string \<Rightarrow> 'k \<Rightarrow> bool"
    and good :: "'w \<Rightarrow> string \<Rightarrow> 'k \<Rightarrow> 'o \<Rightarrow> bool"
    and requests :: "'w \<Rightarrow> 'o \<Rightarrow> CtrlRequest list"
  assumes puts_watched: "reconcile n w w' \<Longrightarrow> wanted w n k \<Longrightarrow>
    \<exists>obj. objs w' k = Some obj \<and> good w n k obj \<and> \<lparr>req_Namespace = [], req_Name = n\<rparr> \<in> set (requests w' obj)"
begin

text \<open>What has been put makes a request when it changes, and reconciling it puts it again.\<close>

lemma puts_again:
  assumes "reconcile n w w1" and "wanted w n k" and "wanted w2 n k"
  shows "(\<exists>obj. objs w1 k = Some obj \<and> good w n k obj \<and> \<lparr>req_Namespace = [], req_Name = n\<rparr> \<in> set (requests w1 obj)) \<and>
    (\<forall>w3. reconcile n w2 w3 \<longrightarrow> (\<exists>obj'. objs w3 k = Some obj' \<and> good w2 n k obj'))"
  using puts_watched [OF assms(1,2)] puts_watched [OF _ assms(3)] by blast

end

text \<open>The special case of an object that makes one request, for its own namespace.\<close>

locale restored_by =
  fixes reconcile :: "string \<Rightarrow> 'w \<Rightarrow> 'w \<Rightarrow> bool"
    and objs :: "'w \<Rightarrow> 'k \<Rightarrow> 'o option"
    and wanted :: "'w \<Rightarrow> string \<Rightarrow> 'k \<Rightarrow> bool"
    and good :: "'w \<Rightarrow> string \<Rightarrow> 'k \<Rightarrow> 'o \<Rightarrow> bool"
    and requests :: "'o \<Rightarrow> CtrlRequest list"
  assumes puts: "reconcile n w w' \<Longrightarrow> wanted w n k \<Longrightarrow> \<exists>obj. objs w' k = Some obj \<and> good w n k obj"
    and calls: "good w n k obj \<Longrightarrow> requests obj = [\<lparr>req_Namespace = [], req_Name = n\<rparr>]"
begin

lemma puts_called:
  "reconcile n w w' \<Longrightarrow> wanted w n k \<Longrightarrow> \<exists>obj. objs w' k = Some obj \<and> requests obj = [\<lparr>req_Namespace = [], req_Name = n\<rparr>]"
  using puts calls by fastforce

end

sublocale restored_by \<subseteq> requested_by reconcile objs wanted good "\<lambda>w. requests"
  by unfold_locales (use puts calls in fastforce)

text \<open>The role bindings of the default roles.\<close>

definition or_done :: "ext \<Rightarrow> string order \<Rightarrow> ('w \<Rightarrow> string \<times> string \<Rightarrow> RoleBinding option) \<Rightarrow> 'w OrganizationRBACReconciler
    \<Rightarrow> string \<Rightarrow> 'w \<Rightarrow> 'w \<Rightarrow> bool" where
  "or_done E ord objs r n w w' \<longleftrightarrow> combine_ok E \<and> is_order ord \<and> or_client_ok objs r \<and> mwf (or_DefaultClusterRoles r) \<and>
     (\<exists>ns events. or_Reconcile E ord r \<lparr>req_Namespace = ns, req_Name = n\<rparr> w = (w', events, None))"

definition or_wanted :: "'w OrganizationRBACReconciler \<Rightarrow> 'w \<Rightarrow> string \<Rightarrow> string \<times> string \<Rightarrow> bool" where
  "or_wanted r w n k \<longleftrightarrow> (\<exists>ns. or_getNamespace r n w = Inr ns \<and> ns_Name ns = n \<and> manages r ns) \<and>
     fst k = n \<and> mget (or_DefaultClusterRoles r) (snd k) \<noteq> None"

definition or_good :: "('w \<Rightarrow> string \<times> string \<Rightarrow> RoleBinding option) \<Rightarrow> 'w OrganizationRBACReconciler
    \<Rightarrow> 'w \<Rightarrow> string \<Rightarrow> string \<times> string \<Rightarrow> RoleBinding \<Rightarrow> bool" where
  "or_good objs r w n k rb \<longleftrightarrow> (\<exists>ns cr. or_getNamespace r n w = Inr ns \<and> ns_Name ns = n \<and>
     mget (or_DefaultClusterRoles r) (snd k) = Some cr \<and>
     rb = desired ns (snd k) cr (mstr (ns_Labels ns) (or_OrganizationLabel r)) (objs w k))"

lemma desired_Controller: "rb_Controller (desired ns name cr org before) = Some (ns_Name ns)"
  by (simp add: desired_def split: option.split)

interpretation bindings: restored_by "or_done E ord objs r" objs "or_wanted r" "or_good objs r" "\<lambda>rb. enqueued or_SetupWithManager (binding_change rb)"
  for E ord objs r
proof
  fix n w w' k
  assume d: "or_done E ord objs r n w w'" and "or_wanted r w n k"
  then obtain ns cr where ns: "or_getNamespace r n w = Inr ns" "ns_Name ns = n" "manages r ns"
    and k: "fst k = n" "mget (or_DefaultClusterRoles r) (snd k) = Some cr" by (auto simp: or_wanted_def)
  from d obtain m events where l: "combine_ok E" "is_order ord" "or_client_ok objs r" "mwf (or_DefaultClusterRoles r)"
    and r: "or_Reconcile E ord r \<lparr>req_Namespace = m, req_Name = n\<rparr> w = (w', events, None)" by (auto simp: or_done_def)
  have "or_getNamespace r (req_Name \<lparr>req_Namespace = m, req_Name = n\<rparr>) w = Inr ns" using ns(1) by simp
  from or_Reconcile_wanted(1) [OF l(1-3) this ns(3) l(4) r k(2)] ns k
  show "\<exists>obj. objs w' k = Some obj \<and> or_good objs r w n k obj" by (cases k) (auto simp: or_good_def)
next
  fix w n k rb
  assume "or_good objs r w n k rb"
  then show "enqueued or_SetupWithManager (binding_change rb) = [\<lparr>req_Namespace = [], req_Name = n\<rparr>]"
    by (auto simp: or_good_def desired_Controller enqueued_binding)
qed

text \<open>The default quotas.\<close>

definition lq_done :: "ext \<Rightarrow> (string \<Rightarrow> err + (string gomap \<Rightarrow> bool)) \<Rightarrow> ('w \<Rightarrow> string \<times> string \<Rightarrow> 'q ResourceQuota option)
    \<Rightarrow> ('w \<Rightarrow> string \<times> string \<Rightarrow> 'l LimitRange option) \<Rightarrow> ('w, 'q, 'l) LegacyResourceQuotaReconciler \<Rightarrow> watch list
    \<Rightarrow> string \<Rightarrow> 'w \<Rightarrow> 'w \<Rightarrow> bool" where
  "lq_done E existsSelector quotas ranges r ws n w w' \<longleftrightarrow> combine_ok E \<and> lq_ok quotas ranges r \<and> mwf (DefaultResourceQuotas r) \<and>
     (\<forall>(name, dflt) \<in> set (entries (DefaultResourceQuotas r)). mwf (rqs_Hard dflt)) \<and>
     lq_SetupWithManager existsSelector r = Inr ws \<and>
     (\<exists>ord ord' m events. is_order ord \<and> (\<forall>k. is_order (ord' k)) \<and>
        lq_Reconcile E ord ord' r \<lparr>req_Namespace = m, req_Name = n\<rparr> w = (w', events, None))"

definition lq_wanted :: "('w, 'q, 'l) LegacyResourceQuotaReconciler \<Rightarrow> (string \<Rightarrow> err + (string gomap \<Rightarrow> bool)) \<Rightarrow> watch list
    \<Rightarrow> 'w \<Rightarrow> string \<Rightarrow> string \<times> string \<Rightarrow> bool" where
  "lq_wanted r existsSelector ws w n k \<longleftrightarrow> lq_SetupWithManager existsSelector r = Inr ws \<and>
     (\<exists>ns. lq_getNamespace r n w = Inr ns \<and> ns_Name ns = n \<and> ns_DeletionTimestamp ns = None \<and>
        mget (ns_Labels ns) (lq_OrganizationLabel r) \<noteq> None) \<and>
     fst k = n \<and> mget (DefaultResourceQuotas r) (snd k) \<noteq> None"

definition lq_good :: "('w, 'q, 'l) LegacyResourceQuotaReconciler \<Rightarrow> (string \<Rightarrow> err + (string gomap \<Rightarrow> bool)) \<Rightarrow> watch list
    \<Rightarrow> 'w \<Rightarrow> string \<Rightarrow> string \<times> string \<Rightarrow> 'q ResourceQuota \<Rightarrow> bool" where
  "lq_good r existsSelector ws w n k rq \<longleftrightarrow> lq_SetupWithManager existsSelector r = Inr ws \<and>
     (\<exists>ns dflt. lq_getNamespace r n w = Inr ns \<and> ns_Name ns = n \<and>
        mget (DefaultResourceQuotas r) (snd k) = Some dflt \<and> quota_as_wanted r ns (snd k) dflt rq)"

interpretation quotas: restored_by "lq_done E existsSelector quotas ranges r ws" quotas "lq_wanted r existsSelector ws"
    "lq_good r existsSelector ws" "\<lambda>rq. enqueued ws (quota_change rq)"
  for E existsSelector quotas ranges r ws
proof
  fix n w w' k
  assume d: "lq_done E existsSelector quotas ranges r ws n w w'" and "lq_wanted r existsSelector ws w n k"
  then obtain ns dflt where ns: "lq_getNamespace r n w = Inr ns" "ns_Name ns = n" "ns_DeletionTimestamp ns = None"
      "mget (ns_Labels ns) (lq_OrganizationLabel r) \<noteq> None"
    and k: "fst k = n" "mget (DefaultResourceQuotas r) (snd k) = Some dflt" by (auto simp: lq_wanted_def)
  from d obtain m events ord ord' where l: "lq_ok quotas ranges r" "combine_ok E" "is_order ord" "\<And>k. is_order (ord' k)"
      "mwf (DefaultResourceQuotas r)" "\<forall>(name, dflt) \<in> set (entries (DefaultResourceQuotas r)). mwf (rqs_Hard dflt)"
    and r: "lq_Reconcile E ord ord' r \<lparr>req_Namespace = m, req_Name = n\<rparr> w = (w', events, None)"
    and u: "lq_SetupWithManager existsSelector r = Inr ws" unfolding lq_done_def by blast
  have g: "lq_getNamespace r (req_Name \<lparr>req_Namespace = m, req_Name = n\<rparr>) w = Inr ns" using ns(1) by simp
  from lq_Reconcile_wanted(1) [OF l(1-4) g ns(3,4) l(5,6) r k(2)] ns k u
  show "\<exists>obj. quotas w' k = Some obj \<and> lq_good r existsSelector ws w n k obj" by (cases k) (auto simp: lq_good_def)
next
  fix w n k rq
  assume "lq_good r existsSelector ws w n k rq"
  then show "enqueued ws (quota_change rq) = [\<lparr>req_Namespace = [], req_Name = n\<rparr>]"
    by (auto simp: lq_good_def quota_as_wanted_def intro: enqueued_quota)
qed

section \<open>Properties\<close>

text \<open>
  C16: A default role binding that is deleted is requested and put back: once a namespace of an organization has been
  reconciled without an error, it has the binding of each default role, and the watches of the controller make of a change or the
  deletion of that binding exactly one request, which is for the namespace; and whenever the binding is missing, a
  reconciliation of that request that succeeds leaves the binding of the role to the group of the organization that the
  namespace then has.
\<close>

theorem deleted_binding_restored:
  assumes "or_done E ord objs r n w w1" and "or_wanted r w n (n, name)"
  shows "(\<exists>rb. objs w1 (n, name) = Some rb \<and>
      enqueued or_SetupWithManager (binding_change rb) = [\<lparr>req_Namespace = [], req_Name = n\<rparr>]) \<and>
    (\<forall>ord2 w2 w3. or_wanted r w2 n (n, name) \<and> objs w2 (n, name) = None \<and> or_done E ord2 objs r n w2 w3 \<longrightarrow>
      (\<exists>ns cr rb. or_getNamespace r n w2 = Inr ns \<and> mget (or_DefaultClusterRoles r) name = Some cr \<and>
        objs w3 (n, name) = Some rb \<and> rr_Name (rb_RoleRef rb) = cr \<and> rr_Kind (rb_RoleRef rb) = ''ClusterRole'' \<and>
        rb_Subjects rb = [orgSubject (mstr (ns_Labels ns) (or_OrganizationLabel r))]))"
proof (intro conjI allI impI)
  show "\<exists>rb. objs w1 (n, name) = Some rb \<and> enqueued or_SetupWithManager (binding_change rb) = [\<lparr>req_Namespace = [], req_Name = n\<rparr>]"
    by (rule bindings.puts_called [OF assms])
next
  fix ord2 w2 w3
  assume "or_wanted r w2 n (n, name) \<and> objs w2 (n, name) = None \<and> or_done E ord2 objs r n w2 w3"
  then have "or_done E ord2 objs r n w2 w3" "or_wanted r w2 n (n, name)" "objs w2 (n, name) = None" by simp_all
  from bindings.puts [OF this(1,2)] this(3) show "\<exists>ns cr rb. or_getNamespace r n w2 = Inr ns \<and>
      mget (or_DefaultClusterRoles r) name = Some cr \<and> objs w3 (n, name) = Some rb \<and> rr_Name (rb_RoleRef rb) = cr \<and>
      rr_Kind (rb_RoleRef rb) = ''ClusterRole'' \<and> rb_Subjects rb = [orgSubject (mstr (ns_Labels ns) (or_OrganizationLabel r))]"
    by (auto simp: or_good_def desired_def)
qed

text \<open>
  C15: A default quota that is changed or deleted is requested and put back: once a namespace of an organization has been
  reconciled without an error, it has every default quota as it is wanted, and the watches of the controller make of a change or
  the deletion of that quota exactly one request, which is for the namespace; and a reconciliation of that request that succeeds
  leaves the quota that is then wanted, whatever had become of it.
\<close>

theorem changed_quota_restored:
  assumes "lq_done E existsSelector quotas ranges r ws n w w1" and "lq_wanted r existsSelector ws w n (n, name)"
  shows "(\<exists>rq. quotas w1 (n, name) = Some rq \<and> enqueued ws (quota_change rq) = [\<lparr>req_Namespace = [], req_Name = n\<rparr>]) \<and>
    (\<forall>w2 w3. lq_wanted r existsSelector ws w2 n (n, name) \<and> lq_done E existsSelector quotas ranges r ws n w2 w3 \<longrightarrow>
      (\<exists>ns dflt rq. lq_getNamespace r n w2 = Inr ns \<and> mget (DefaultResourceQuotas r) name = Some dflt \<and>
        quotas w3 (n, name) = Some rq \<and> quota_as_wanted r ns name dflt rq))"
proof (intro conjI allI impI)
  show "\<exists>rq. quotas w1 (n, name) = Some rq \<and> enqueued ws (quota_change rq) = [\<lparr>req_Namespace = [], req_Name = n\<rparr>]"
    by (rule quotas.puts_called [OF assms])
next
  fix w2 w3
  assume a: "lq_wanted r existsSelector ws w2 n (n, name) \<and> lq_done E existsSelector quotas ranges r ws n w2 w3"
  from quotas.puts [OF a [THEN conjunct2] a [THEN conjunct1]] show "\<exists>ns dflt rq. lq_getNamespace r n w2 = Inr ns \<and>
      mget (DefaultResourceQuotas r) name = Some dflt \<and> quotas w3 (n, name) = Some rq \<and> quota_as_wanted r ns name dflt rq"
    by (auto simp: lq_good_def)
qed

text \<open>
  Every change of a team or of the members of an organization on the control API makes exactly one request,
  and it is for the group whose upstream object has changed, if the namespace has no plus sign (which no
  namespace has); a change of a group makes a request for the group itself.
\<close>

theorem group_changes_requested:
  assumes "CHR ''+'' \<notin> set (ch_Namespace c)"
  shows "(ch_Cluster c = ControlAPI \<and> ch_GVK c = teamKind \<longrightarrow>
            map (upstreamOf \<circ> req_Name) (enqueued gs_SetupWithManager c) = [(TeamKind, ch_Namespace c, ch_Name c)]) \<and>
         (ch_Cluster c = ControlAPI \<and> ch_GVK c = membersKind \<and> ch_Name c = OrganizationMembersManifestName \<longrightarrow>
            map (upstreamOf \<circ> req_Name) (enqueued gs_SetupWithManager c) = [(OrganizationMembersKind, ch_Namespace c, ch_Name c)]) \<and>
         (ch_Cluster c = LocalCluster \<and> ch_GVK c = groupKind \<longrightarrow>
            map req_Name (enqueued gs_SetupWithManager c) = [ch_Name c])"
  using assms kinds_differ(5) kinds_differ(5) [symmetric]
  by (auto simp: gs_SetupWithManager_def watch_defs teamMapper_def organizationMembersMapper_def changedUpstream_def
      upstreamOf_def Let_def SplitN2_append)

text \<open>
  Once the controller is set up, a change of a namespace makes a request for every profile if the namespace has the
  organization label and none otherwise, and a change of an object that a profile owns makes a request for
  that profile once its kind is watched.
\<close>

theorem profile_changes_requested:
  assumes "exists_ok existsSelector" and "upa_SetupWithManager existsSelector profiles Build r = Inr ws"
  shows "(ch_Cluster c = LocalCluster \<and> ch_GVK c = namespaceKind \<longrightarrow>
            enqueued ws c = (if mget (ch_Labels c) (upa_OrganizationLabel r) \<noteq> None then mapToAllUsageProfiles profiles else [])) \<and>
         (\<forall>g ow. ch_Cluster c = LocalCluster \<and> ch_GVK c = g \<and> ow \<in> set (ch_Owners c) \<and>
            ow_Group ow = gvk_Group zoneProfileKind \<and> ow_Kind ow = gvk_Kind zoneProfileKind \<longrightarrow>
            \<lparr>req_Namespace = [], req_Name = ow_Name ow\<rparr> \<in> set (enqueued (ws @ [dynamicWatch g]) c))"
proof -
  from assms(2) obtain p where p: "labelExistsPredicate existsSelector (upa_OrganizationLabel r) = Inr p"
    and ws: "ws = [For zoneProfileKind everything, \<lparr>wa_Cluster = LocalCluster, wa_GVK = namespaceKind, wa_Predicate = p,
      wa_Requests = \<lambda>_. mapToAllUsageProfiles profiles\<rparr>]"
    by (auto simp: upa_SetupWithManager_def Let_def split: sum.splits option.splits)
  have "p c \<longleftrightarrow> mget (ch_Labels c) (upa_OrganizationLabel r) \<noteq> None" for c
    using p assms(1) by (auto simp: labelExistsPredicate_def exists_ok_def split: sum.splits)
  then show ?thesis using kinds_differ(6) by (auto simp: ws watch_defs dynamicWatch_def)
qed

section \<open>Witnesses\<close>

lemma sample_or_done:
  assumes "or_Reconcile sample_ext (\<lambda>al. al) (sample_or l) \<lparr>req_Namespace = [], req_Name = n\<rparr> w = (w', [], None)"
  shows "or_done sample_ext (\<lambda>al. al) (\<lambda>w. w) (sample_or l) n w w'"
  unfolding or_done_def using assms sample_ext_laws(1) sample_or_ok is_order_id sample_or_fields(2) by blast

lemma sample_or_wanted: "or_wanted (sample_or (Some [(''org'', ''acme'')])) w ''ns'' (''ns'', ''admin'')"
  using sample_or_managed by (simp add: or_wanted_def sample_or_fields sample_orgns_def)

theorem deleted_binding_restored_witness:
  "\<exists>w1 rb. or_done sample_ext (\<lambda>al. al) (\<lambda>w. w) (sample_or (Some [(''org'', ''acme'')])) ''ns'' Map.empty w1 \<and>
     w1 (''ns'', ''admin'') = Some rb \<and> rr_Name (rb_RoleRef rb) = ''admin'' \<and>
     enqueued or_SetupWithManager (binding_change rb) = [\<lparr>req_Namespace = [], req_Name = ''ns''\<rparr>]"
proof -
  let ?r = "sample_or (Some [(''org'', ''acme'')])"
  obtain w1 where "or_Reconcile sample_ext (\<lambda>al. al) ?r \<lparr>req_Namespace = [], req_Name = ''ns''\<rparr> Map.empty = (w1, [], None)"
    using sample_or_Reconcile by blast
  then have d: "or_done sample_ext (\<lambda>al. al) (\<lambda>w. w) ?r ''ns'' Map.empty w1" by (rule sample_or_done)
  note t = deleted_binding_restored [OF d sample_or_wanted]
  from t [THEN conjunct1] obtain rb where rb: "w1 (''ns'', ''admin'') = Some rb"
    "enqueued or_SetupWithManager (binding_change rb) = [\<lparr>req_Namespace = [], req_Name = ''ns''\<rparr>]" by blast
  from t [THEN conjunct2, rule_format, of Map.empty "\<lambda>al. al" w1] d sample_or_wanted rb(1) have "rr_Name (rb_RoleRef rb) = ''admin''"
    by (auto simp: sample_or_fields)
  with d rb show ?thesis by blast
qed

definition sample_exists :: "string \<Rightarrow> err + (string gomap \<Rightarrow> bool)" where
  "sample_exists l = Inr (\<lambda>m. mget m l \<noteq> None)"

lemma sample_exists_ok: "exists_ok sample_exists"
  by (auto simp: exists_ok_def sample_exists_def)

lemma sample_lq_wanted:
  "\<exists>ws. lq_SetupWithManager sample_exists sample_lq = Inr ws \<and> lq_wanted sample_lq sample_exists ws w ''ns'' (''ns'', ''q'')"
  by (simp add: lq_wanted_def lq_SetupWithManager_def labelExistsPredicate_def sample_exists_def sample_lq_def sample_lq_ns_def)

theorem changed_quota_restored_witness:
  "\<exists>ws w1 rq. lq_done sample_ext sample_exists fst snd sample_lq ws ''ns'' (Map.empty, Map.empty) w1 \<and>
     fst w1 (''ns'', ''q'') = Some rq \<and> rqo_Controller rq = Some (ns_Name sample_lq_ns) \<and>
     enqueued ws (quota_change rq) = [\<lparr>req_Namespace = [], req_Name = ''ns''\<rparr>]"
proof -
  obtain w1 where r: "lq_Reconcile sample_ext (\<lambda>al. al) (\<lambda>_ al. al) sample_lq \<lparr>req_Namespace = [], req_Name = ''ns''\<rparr> (Map.empty, Map.empty) = (w1, [], None)"
    using sample_lq_Reconcile by blast
  obtain ws where u: "lq_SetupWithManager sample_exists sample_lq = Inr ws"
    and w: "lq_wanted sample_lq sample_exists ws v ''ns'' (''ns'', ''q'')" for v
    using sample_lq_wanted by (auto simp: lq_wanted_def sample_lq_def)
  have m: "mwf (DefaultResourceQuotas sample_lq)" "\<forall>(name, dflt) \<in> set (entries (DefaultResourceQuotas sample_lq)). mwf (rqs_Hard dflt)"
    by (simp_all add: sample_lq_def sample_lq_spec_def)
  have d: "lq_done sample_ext sample_exists fst snd sample_lq ws ''ns'' (Map.empty, Map.empty) w1"
    unfolding lq_done_def
    by (intro conjI sample_ext_laws(1) sample_lq_ok m u exI [of _ "\<lambda>al. al"] exI [of _ "\<lambda>_ al. al"] exI [of _ "[]"] is_order_id allI r)
  note t = changed_quota_restored [OF d w]
  from t [THEN conjunct1] obtain rq where rq: "fst w1 (''ns'', ''q'') = Some rq"
    "enqueued ws (quota_change rq) = [\<lparr>req_Namespace = [], req_Name = ''ns''\<rparr>]" by blast
  have n: "lq_getNamespace sample_lq n v = Inr sample_lq_ns" for n v by (simp add: sample_lq_def)
  from t [THEN conjunct2, rule_format, OF conjI, OF w d] rq(1) have "rqo_Controller rq = Some (ns_Name sample_lq_ns)"
    by (auto simp: n quota_as_wanted_def)
  with d rq show ?thesis by blast
qed

definition sample_change :: "cluster \<Rightarrow> GroupVersionKind \<Rightarrow> Change" where
  "sample_change cl g = \<lparr>ch_Cluster = cl, ch_GVK = g, ch_Namespace = ''acme'', ch_Name = ''dev'', ch_Labels = Some [(''org'', ''acme'')], ch_Owners = []\<rparr>"

theorem group_changes_requested_witness:
  "map (upstreamOf \<circ> req_Name) (enqueued gs_SetupWithManager (sample_change ControlAPI teamKind)) = [(TeamKind, ''acme'', ''dev'')]"
  using group_changes_requested [of "sample_change ControlAPI teamKind"] by (simp add: sample_change_def)

theorem profile_changes_requested_witness:
  "\<exists>ws. upa_SetupWithManager sample_exists (Inr [sample_profile]) (\<lambda>_. None) sample_upa = Inr ws \<and>
     enqueued ws (sample_change LocalCluster namespaceKind) = [\<lparr>req_Namespace = [], req_Name = ''p''\<rparr>]"
proof -
  have "\<exists>ws. upa_SetupWithManager sample_exists (Inr [sample_profile]) (\<lambda>_. None) sample_upa = Inr ws"
    by (simp add: upa_SetupWithManager_def labelExistsPredicate_def sample_exists_def Let_def)
  then obtain ws where ws: "upa_SetupWithManager sample_exists (Inr [sample_profile]) (\<lambda>_. None) sample_upa = Inr ws" by blast
  from profile_changes_requested [OF sample_exists_ok ws, of "sample_change LocalCluster namespaceKind"]
  have "enqueued ws (sample_change LocalCluster namespaceKind) = [\<lparr>req_Namespace = [], req_Name = ''p''\<rparr>]"
    by (simp add: sample_change_def sample_upa_def mapToAllUsageProfiles_def sample_profile_def)
  with ws show ?thesis by blast
qed

end
