(* ===== verification/WorkQueue.thy ===== *)
theory WorkQueue
  imports Watches
begin

text \<open>
  The work queue that drives a reconciler: it holds the names to reconcile, an attempt that fails is put back, and
  what an attempt changes makes requests of its own through the watches. The locale \<open>settling\<close> is the contract of a
  reconciler that comes to rest, and its lemmas bound the work. The role bindings of
  a namespace are owned by it, so that each reconciliation makes requests for its own namespace only.
\<close>

section \<open>The queue\<close>

text \<open>\<open>attempt n w w' ok\<close>: reconciling \<open>n\<close> leads from \<open>w\<close> to \<open>w'\<close>, and \<open>ok\<close> tells whether it is without error.\<close>

inductive drain_step ::
    "(string \<Rightarrow> 'w \<Rightarrow> 'w \<Rightarrow> bool \<Rightarrow> bool) \<Rightarrow> ('w \<Rightarrow> 'w \<Rightarrow> string set)
      \<Rightarrow> 'w \<times> string set \<Rightarrow> bool \<Rightarrow> 'w \<times> string set \<Rightarrow> bool"
  for attempt reqs where
  succeed: "n \<in> Q \<Longrightarrow> attempt n w w' True \<Longrightarrow> drain_step attempt reqs (w, Q) True (w', Q - {n} \<union> reqs w w')"
| retry: "n \<in> Q \<Longrightarrow> attempt n w w' False \<Longrightarrow> drain_step attempt reqs (w, Q) False (w', Q \<union> reqs w w')"

inductive drain ::
    "(string \<Rightarrow> 'w \<Rightarrow> 'w \<Rightarrow> bool \<Rightarrow> bool) \<Rightarrow> ('w \<Rightarrow> 'w \<Rightarrow> string set)
      \<Rightarrow> 'w \<times> string set \<Rightarrow> bool list \<Rightarrow> 'w \<times> string set \<Rightarrow> bool"
  for attempt reqs where
  stop: "drain attempt reqs s [] s"
| step: "drain_step attempt reqs s ok s' \<Longrightarrow> drain attempt reqs s' oks s'' \<Longrightarrow> drain attempt reqs s (ok # oks) s''"

definition successes :: "bool list \<Rightarrow> nat" where
  "successes oks = length (filter (\<lambda>ok. ok) oks)"

text \<open>
  A queue comes to rest: in every run the number of successful attempts is bounded, and a name that was in the queue is done
  with once the queue is empty. If moreover an attempt can succeed, in every state that satisfies some invariant, then the queue
  does get empty.
\<close>

definition comes_to_rest ::
    "(string \<Rightarrow> 'w \<Rightarrow> 'w \<Rightarrow> bool \<Rightarrow> bool) \<Rightarrow> ('w \<Rightarrow> 'w \<Rightarrow> string set) \<Rightarrow> ('w \<Rightarrow> string \<Rightarrow> bool) \<Rightarrow> 'w \<Rightarrow> string set \<Rightarrow> bool" where
  "comes_to_rest attempt reqs settled w Q \<longleftrightarrow>
     (\<forall>oks w' Q'. drain attempt reqs (w, Q) oks (w', Q') \<longrightarrow>
        successes oks \<le> 2 * card Q \<and> (Q' = {} \<longrightarrow> (\<forall>n \<in> Q. settled w' n))) \<and>
     (\<forall>I. I w \<longrightarrow> (\<forall>n \<in> Q. \<forall>v. I v \<longrightarrow> (\<exists>v'. attempt n v v' True \<and> I v')) \<longrightarrow>
        (\<exists>oks w'. drain attempt reqs (w, Q) oks (w', {}) \<and> length oks \<le> 2 * card Q \<and> I w'))"

text \<open>What every attempt keeps holds at rest as well.\<close>

lemma drain_keeps:
  assumes "drain attempt reqs s oks s'" and "\<And>n v v' ok. attempt n v v' ok \<Longrightarrow> P v \<Longrightarrow> P v'"
  shows "P (fst s) \<Longrightarrow> P (fst s')"
  using assms(1)
proof (induction rule: drain.induct)
  case (step s ok s' oks s'')
  from step.hyps(1) step.prems have "P (fst s')" by cases (use assms(2) in auto)
  then show ?case by (rule step.IH)
qed

lemma comes_to_rest_keeping:
  assumes "comes_to_rest attempt reqs settled w Q" and "\<And>n v v' ok. attempt n v v' ok \<Longrightarrow> P v \<Longrightarrow> P v'" and "P w"
    and "\<And>v n. settled v n \<Longrightarrow> P v \<Longrightarrow> settled' v n"
  shows "comes_to_rest attempt reqs settled' w Q"
proof -
  have p: "P w'" if "drain attempt reqs (w, Q) oks (w', Q')" for oks w' Q' using drain_keeps [where P = P, OF that assms(2)] assms(3) by simp
  note c = assms(1) [unfolded comes_to_rest_def]
  show ?thesis
    unfolding comes_to_rest_def
  proof (rule conjI [OF _ c [THEN conjunct2]], intro allI impI)
    fix oks w' Q'
    assume d: "drain attempt reqs (w, Q) oks (w', Q')"
    from c [THEN conjunct1, rule_format, OF d] assms(4) [OF _ p [OF d]]
    show "successes oks \<le> 2 * card Q \<and> (Q' = {} \<longrightarrow> (\<forall>n \<in> Q. settled' w' n))" by simp
  qed
qed

text \<open>The requests that the changes between two states make, for the old and for the new state of an object.\<close>

definition change_requests ::
    "watch list \<Rightarrow> ('o \<Rightarrow> Change) \<Rightarrow> ('w \<Rightarrow> 'k \<Rightarrow> 'o option) \<Rightarrow> 'w \<Rightarrow> 'w \<Rightarrow> string set" where
  "change_requests ws change objs w w' =
     {req_Name req | req k obj. objs w k \<noteq> objs w' k \<and> (objs w k = Some obj \<or> objs w' k = Some obj) \<and>
        req \<in> set (enqueued ws (change obj))}"

lemma change_requests_unchanged: "objs w' = objs w \<Longrightarrow> change_requests ws change objs w w' = {}"
  by (simp add: change_requests_def)

lemma change_requests_own:
  assumes "\<And>req k obj. objs w k \<noteq> objs w' k \<Longrightarrow> objs w k = Some obj \<or> objs w' k = Some obj \<Longrightarrow>
    req \<in> set (enqueued ws (change obj)) \<Longrightarrow> req_Name req = n"
  shows "change_requests ws change objs w w' \<subseteq> {n}"
  using assms unfolding change_requests_def by blast

section \<open>Coming to rest\<close>

locale settling =
  fixes attempt :: "string \<Rightarrow> 'w \<Rightarrow> 'w \<Rightarrow> bool \<Rightarrow> bool"
    and reqs :: "'w \<Rightarrow> 'w \<Rightarrow> string set"
    and settled :: "'w \<Rightarrow> string \<Rightarrow> bool"
  assumes own: "attempt n w w' ok \<Longrightarrow> reqs w w' \<subseteq> {n}"
    and settles: "attempt n w w' True \<Longrightarrow> settled w' n"
    and stays: "settled w m \<Longrightarrow> attempt n w w' ok \<Longrightarrow> settled w' m"
    and quiet: "settled w n \<Longrightarrow> attempt n w w' ok \<Longrightarrow> reqs w w' = {}"
begin

text \<open>Every entry needs one attempt that succeeds, and one more if it is not settled.\<close>

definition load :: "'w \<times> string set \<Rightarrow> nat" where
  "load s = card (snd s) + card {n \<in> snd s. \<not> settled (fst s) n}"

lemma load_le: "finite (snd s) \<Longrightarrow> load s \<le> 2 * card (snd s)"
  using card_mono [of "snd s" "{n \<in> snd s. \<not> settled (fst s) n}"] by (simp add: load_def)

lemma step_load:
  assumes "drain_step attempt reqs s ok s'" and "finite (snd s)"
  shows "finite (snd s') \<and> load s' + (if ok then 1 else 0) \<le> load s"
  using assms(1)
proof cases
  case (succeed n Q w w')
  have f: "finite Q" using assms(2) succeed(1) by simp
  have u: "{m \<in> Q'. \<not> settled w' m} \<subseteq> {m \<in> Q. \<not> settled w m} - {n}" if "Q' \<subseteq> Q" for Q'
    using that stays succeed(5) settles by blast
  show ?thesis
  proof (cases "settled w n")
    case True
    then have r: "reqs w w' = {}" using quiet succeed(5) by blast
    have "card {m \<in> Q - {n}. \<not> settled w' m} \<le> card {m \<in> Q. \<not> settled w m}"
      using u [of "Q - {n}"] f by (intro card_mono) auto
    with card_Suc_Diff1 [OF f succeed(4)] f show ?thesis unfolding succeed(1-3) r load_def by simp
  next
    case False
    have r: "Q - {n} \<union> reqs w w' \<subseteq> Q" using own [OF succeed(5)] succeed(4) by blast
    have "card {m \<in> Q - {n} \<union> reqs w w'. \<not> settled w' m} \<le> card ({m \<in> Q. \<not> settled w m} - {n})"
      using u [OF r] f by (intro card_mono) auto
    moreover have "card ({m \<in> Q. \<not> settled w m} - {n}) + 1 = card {m \<in> Q. \<not> settled w m}"
      using card_Suc_Diff1 [of "{m \<in> Q. \<not> settled w m}" n] f False succeed(4) by simp
    ultimately show ?thesis using card_mono [OF f r] finite_subset [OF r f] unfolding succeed(1-3) load_def by simp
  qed
next
  case (retry n Q w w')
  have f: "finite Q" using assms(2) retry(1) by simp
  have r: "Q \<union> reqs w w' = Q" using own [OF retry(5)] retry(4) by blast
  have "card {m \<in> Q. \<not> settled w' m} \<le> card {m \<in> Q. \<not> settled w m}"
    using stays [OF _ retry(5)] f by (intro card_mono) auto
  with f show ?thesis unfolding retry(1-3) load_def fst_conv snd_conv r by simp
qed

lemma drain_load:
  assumes "drain attempt reqs s oks s'" and "finite (snd s)"
  shows "finite (snd s') \<and> load s' + successes oks \<le> load s"
  using assms
proof (induction rule: drain.induct)
  case (step s ok s1 oks s2)
  from step_load [OF step.hyps(1) step.prems] step.IH show ?case by (auto simp: successes_def split: if_splits)
qed (simp add: successes_def)

lemma drain_bound: "drain attempt reqs s oks s' \<Longrightarrow> finite (snd s) \<Longrightarrow> successes oks \<le> 2 * card (snd s)"
  using drain_load [of s oks s'] load_le [of s] by simp

text \<open>A name leaves the queue only when it is settled.\<close>

lemma step_settled:
  assumes "drain_step attempt reqs s ok s'" and "n \<in> snd s \<or> settled (fst s) n"
  shows "n \<in> snd s' \<or> settled (fst s') n"
  using assms by cases (auto intro: settles stays)

lemma drain_settled: "drain attempt reqs s oks s' \<Longrightarrow> n \<in> snd s \<or> settled (fst s) n \<Longrightarrow> n \<in> snd s' \<or> settled (fst s') n"
  by (induction rule: drain.induct) (use step_settled in blast)+

lemma drained: "drain attempt reqs (w, Q) oks (w', {}) \<Longrightarrow> n \<in> Q \<Longrightarrow> settled w' n"
  using drain_settled [of "(w, Q)" oks "(w', {})" n] by simp

text \<open>Each attempt that succeeds takes some of the load away, so that as long as attempts succeed the queue gets empty.\<close>

lemma empties:
  assumes "\<And>n v. n \<in> Q0 \<Longrightarrow> I v \<Longrightarrow> \<exists>v'. attempt n v v' True \<and> I v'"
  shows "I w \<Longrightarrow> finite Q \<Longrightarrow> Q \<subseteq> Q0 \<Longrightarrow>
    \<exists>oks w'. drain attempt reqs (w, Q) oks (w', {}) \<and> length oks \<le> load (w, Q) \<and> I w'"
proof (induction "load (w, Q)" arbitrary: w Q rule: less_induct)
  case less
  show ?case
  proof (cases "Q = {}")
    case True
    with less.prems(1) show ?thesis by (intro exI [of _ "[]"] exI [of _ w]) (simp add: drain.stop)
  next
    case False
    then obtain n where n: "n \<in> Q" by blast
    with assms less.prems(1,3) obtain v where v: "attempt n w v True" "I v" by blast
    let ?Q = "Q - {n} \<union> reqs w v"
    have s: "drain_step attempt reqs (w, Q) True (v, ?Q)" using n v(1) by (rule drain_step.succeed)
    from step_load [OF s] less.prems(2) have l: "finite ?Q" "load (v, ?Q) + 1 \<le> load (w, Q)" by simp_all
    from own [OF v(1)] n less.prems(3) have "?Q \<subseteq> Q0" by blast
    with less.hyps [of v ?Q] l v(2) obtain oks w' where
      d: "drain attempt reqs (v, ?Q) oks (w', {})" "length oks \<le> load (v, ?Q)" "I w'" by auto
    from drain.step [OF s d(1)] d(2,3) l(2) show ?thesis by (intro exI [of _ "True # oks"] exI [of _ w']) simp
  qed
qed

lemma rest: "finite Q \<Longrightarrow> comes_to_rest attempt reqs settled w Q"
  unfolding comes_to_rest_def
proof (intro conjI allI impI)
  fix oks w' Q'
  assume "finite Q" and d: "drain attempt reqs (w, Q) oks (w', Q')"
  then show "successes oks \<le> 2 * card Q" using drain_bound [OF d] by simp
  show "\<forall>n \<in> Q. settled w' n" if "Q' = {}" using drained d that by blast
next
  fix I
  assume "finite Q" and "I w" and "\<forall>n \<in> Q. \<forall>v. I v \<longrightarrow> (\<exists>v'. attempt n v v' True \<and> I v')"
  then show "\<exists>oks w'. drain attempt reqs (w, Q) oks (w', {}) \<and> length oks \<le> 2 * card Q \<and> I w'"
    using empties [of Q I w Q] load_le [of "(w, Q)"] by force
qed

end

section \<open>Role bindings\<close>

text \<open>An attempt for a namespace, in whatever order the default roles are visited.\<close>

definition or_attempt ::
    "ext \<Rightarrow> ('w \<Rightarrow> string \<times> string \<Rightarrow> RoleBinding option) \<Rightarrow> 'w OrganizationRBACReconciler \<Rightarrow> string \<Rightarrow> 'w \<Rightarrow> 'w \<Rightarrow> bool \<Rightarrow> bool" where
  "or_attempt E objs r n w w' ok \<longleftrightarrow> combine_ok E \<and> or_client_ok objs r \<and> mwf (or_DefaultClusterRoles r) \<and>
     cou_frame (\<lambda>w n. or_getNamespace r n w) (or_CreateOrUpdate r) \<and>
     (\<forall>n w ns. or_getNamespace r n w = Inr ns \<longrightarrow> ns_Name ns = n) \<and>
     (\<exists>ord m events e. is_order ord \<and> or_Reconcile E ord r \<lparr>req_Namespace = m, req_Name = n\<rparr> w = (w', events, e) \<and> ok = (e = None))"

text \<open>A binding that another attempt would not change.\<close>

definition bound :: "string \<Rightarrow> RoleBinding option \<Rightarrow> bool" where
  "bound n b \<longleftrightarrow> (\<exists>rb. b = Some rb \<and> \<not> rolebindingIsUninitialized rb \<and> rb_Controller rb = Some n)"

definition or_settled :: "('w \<Rightarrow> string \<times> string \<Rightarrow> RoleBinding option) \<Rightarrow> 'w OrganizationRBACReconciler \<Rightarrow> 'w \<Rightarrow> string \<Rightarrow> bool" where
  "or_settled objs r w n \<longleftrightarrow> (\<forall>ns name. or_getNamespace r n w = Inr ns \<longrightarrow> manages r ns \<longrightarrow>
     mget (or_DefaultClusterRoles r) name \<noteq> None \<longrightarrow> bound n (objs w (n, name)))"

lemma desired_bound: "bound (ns_Name ns) (Some (desired ns name cr org before))"
proof (cases before)
  case None
  then show ?thesis by (simp add: bound_def desired_def rolebindingIsUninitialized_def mstr_def ParseBool_def)
next
  case (Some rb)
  have "\<not> rolebindingIsUninitialized (desired ns name cr org (Some rb))"
    using unmarked_initialized [of "rb_Labels rb" rb] by (auto simp: desired_def rolebindingIsUninitialized_def split: if_splits)
  with Some show ?thesis by (simp add: bound_def desired_def)
qed

lemma desired_same: "bound (ns_Name ns) (Some rb) \<Longrightarrow> desired ns name cr org (Some rb) = rb"
  by (simp add: bound_def desired_def)

text \<open>What an attempt may do to a binding: nothing, or make it the wanted one if nobody else controls it.\<close>

definition put_or_kept :: "Namespace \<Rightarrow> string \<Rightarrow> RoleBinding option \<Rightarrow> RoleBinding option \<Rightarrow> bool" where
  "put_or_kept ns name before after \<longleftrightarrow> after = before \<or>
     (\<exists>cr org. after = Some (desired ns name cr org before)) \<and>
     (\<forall>rb. before = Some rb \<longrightarrow> rb_Controller rb = None \<or> rb_Controller rb = Some (ns_Name ns))"

lemma putRoleBinding_kept:
  assumes "or_client_ok objs r" and "putRoleBinding r ns name cr org w = (w', e)"
  shows "put_or_kept ns name (objs w (ns_Name ns, name)) (objs w' (ns_Name ns, name))"
proof -
  let ?f = "capturing_none (rb_mutate (or_SetControllerReference r) ns org)"
  let ?old = "case objs w (ns_Name ns, name) of None \<Rightarrow> newRoleBinding ns name cr | Some old \<Rightarrow> old"
  from assms(2) obtain rb op where c: "or_CreateOrUpdate r (newRoleBinding ns name cr) ?f () w = (w', rb, (), op, e)"
    by (auto simp: putRoleBinding_def split: prod.splits)
  have ok: "cou_ok objs rb_key (or_CreateOrUpdate r)" "rb_scr_ok (or_SetControllerReference r)"
    using assms(1) by (simp_all add: or_client_ok_def)
  obtain rb1 fe where f: "?f ?old () = (rb1, (), fe)" by (cases "?f ?old ()") auto
  then have m: "rb_mutate (or_SetControllerReference r) ns org ?old = (rb1, fe)"
    by (auto simp: capturing_none_def split: prod.splits)
  have "objs w' (ns_Name ns, name) = objs w (ns_Name ns, name) \<or> fe = None \<and> objs w' (ns_Name ns, name) = Some rb1"
    using ok(1) [unfolded cou_ok_def, rule_format, OF c, of rb1 "()" fe] f by (auto split: if_splits)
  moreover have "rb1 = desired ns name cr org (objs w (ns_Name ns, name)) \<and>
      (\<forall>rb. objs w (ns_Name ns, name) = Some rb \<longrightarrow> rb_Controller rb = None \<or> rb_Controller rb = Some (ns_Name ns))" if "fe = None"
  proof
    from m that have m: "rb_mutate (or_SetControllerReference r) ns org ?old = (rb1, None)" by simp
    show "rb1 = desired ns name cr org (objs w (ns_Name ns, name))"
      using rb_mutate_ok [OF ok(2) m] by (auto simp: desired_def split: option.splits) (simp_all add: newRoleBinding_def unmarked_def)
    show "\<forall>rb. objs w (ns_Name ns, name) = Some rb \<longrightarrow> rb_Controller rb = None \<or> rb_Controller rb = Some (ns_Name ns)"
    proof (intro allI impI)
      fix rb
      assume "objs w (ns_Name ns, name) = Some rb"
      with m obtain rb0 where "or_SetControllerReference r ns rb0 = (rb1, None)" "rb_Controller rb0 = rb_Controller rb"
        by (auto simp: rb_mutate_def Let_def split: if_splits)
      with ok(2) show "rb_Controller rb = None \<or> rb_Controller rb = Some (ns_Name ns)"
        unfolding rb_scr_ok_def scr_ok_def by metis
    qed
  qed
  ultimately show ?thesis unfolding put_or_kept_def by blast
qed

lemma putRoleBinding_frame:
  assumes "cou_frame (\<lambda>w n. or_getNamespace r n w) (or_CreateOrUpdate r)" and "putRoleBinding r ns name cr org w = (w', e)"
  shows "or_getNamespace r n w' = or_getNamespace r n w"
proof -
  let ?res = "or_CreateOrUpdate r (newRoleBinding ns name cr) (capturing_none (rb_mutate (or_SetControllerReference r) ns org)) () w"
  have "fst ?res = w'" using assms(2) by (simp add: putRoleBinding_def split: prod.splits)
  moreover have "(\<lambda>n. or_getNamespace r n (fst ?res)) = (\<lambda>n. or_getNamespace r n w)"
    using assms(1) unfolding cou_frame_def by blast
  ultimately show ?thesis by (simp add: fun_eq_iff)
qed

lemma putAll_kept:
  assumes "or_client_ok objs r" and "cou_frame (\<lambda>w n. or_getNamespace r n w) (or_CreateOrUpdate r)"
  shows "putAll E r ns org al w = (w', events, errs) \<Longrightarrow> distinct (map fst al) \<Longrightarrow>
    or_getNamespace r n w' = or_getNamespace r n w \<and>
    put_or_kept ns name (objs w (ns_Name ns, name)) (objs w' (ns_Name ns, name))"
proof (induction al arbitrary: w w' events errs)
  case (Cons x al)
  obtain name1 cr where x: "x = (name1, cr)" by (cases x)
  obtain w1 e where p: "putRoleBinding r ns name1 cr org w = (w1, e)" by (cases "putRoleBinding r ns name1 cr org w")
  obtain w2 evs es where q: "putAll E r ns org al w1 = (w2, evs, es)" by (cases "putAll E r ns org al w1") auto
  have w2: "w' = w2" using Cons.prems(1) x p q by (cases e) auto
  have IH: "or_getNamespace r n w2 = or_getNamespace r n w1"
    "put_or_kept ns name (objs w1 (ns_Name ns, name)) (objs w2 (ns_Name ns, name))"
    using Cons.IH [OF q] Cons.prems(2) by auto
  have "put_or_kept ns name (objs w (ns_Name ns, name)) (objs w2 (ns_Name ns, name))"
  proof (cases "name = name1")
    case True
    with Cons.prems(2) x have "(ns_Name ns, name) \<notin> (\<lambda>name. (ns_Name ns, name)) ` fst ` set al" by auto
    from putAll_other [OF assms(1) q this] putRoleBinding_kept [OF assms(1) p] True show ?thesis by simp
  next
    case False
    with putRoleBinding_other [OF assms(1) p, of "(ns_Name ns, name)"] IH(2) show ?thesis by simp
  qed
  with IH(1) putRoleBinding_frame [OF assms(2) p, of n] w2 show ?case by simp
qed (simp add: put_or_kept_def)

text \<open>All that the laws need of an attempt.\<close>

lemma or_attempt_cases:
  assumes "or_attempt E objs r n w w' ok"
  obtains (unmanaged) "w' = w" and "\<And>ns. or_getNamespace r n w = Inr ns \<Longrightarrow> \<not> manages r ns"
  | (managed) ns where "or_getNamespace r n w = Inr ns" and "ns_Name ns = n" and "manages r ns"
      and "\<And>m. or_getNamespace r m w' = or_getNamespace r m w"
      and "\<And>k. fst k \<noteq> n \<or> mget (or_DefaultClusterRoles r) (snd k) = None \<Longrightarrow> objs w' k = objs w k"
      and "\<And>name. put_or_kept ns name (objs w (n, name)) (objs w' (n, name))"
      and "\<And>name. ok \<Longrightarrow> mget (or_DefaultClusterRoles r) name \<noteq> None \<Longrightarrow> bound n (objs w' (n, name))"
proof -
  from assms obtain ord m events e where l: "combine_ok E" "or_client_ok objs r" "mwf (or_DefaultClusterRoles r)"
      "cou_frame (\<lambda>w n. or_getNamespace r n w) (or_CreateOrUpdate r)" "is_order ord"
    and nm: "\<And>n w ns. or_getNamespace r n w = Inr ns \<Longrightarrow> ns_Name ns = n"
    and r: "or_Reconcile E ord r \<lparr>req_Namespace = m, req_Name = n\<rparr> w = (w', events, e)" and ok: "ok = (e = None)"
    unfolding or_attempt_def by blast
  show ?thesis
  proof (cases "\<exists>ns. or_getNamespace r n w = Inr ns \<and> manages r ns")
    case False
    then have "w' = w" using r or_Reconcile_unmanaged [of r "\<lparr>req_Namespace = m, req_Name = n\<rparr>" w _ E ord]
      by (cases "or_getNamespace r n w") (auto simp: or_Reconcile_def)
    with False show ?thesis by (intro unmanaged) auto
  next
    case True
    then obtain ns where ns: "or_getNamespace r n w = Inr ns" "manages r ns" by blast
    note n = nm [OF ns(1)]
    let ?al = "entries (or_DefaultClusterRoles r)" and ?org = "mstr (ns_Labels ns) (or_OrganizationLabel r)"
    have g: "or_getNamespace r (req_Name \<lparr>req_Namespace = m, req_Name = n\<rparr>) w = Inr ns" using ns(1) by simp
    from r obtain errs where p: "putAll E r ns ?org (ord ?al) w = (w', events, errs)"
      unfolding or_Reconcile_managed [OF g ns(2)] by (auto split: prod.splits)
    have d: "distinct (map fst (ord ?al))" using is_order_keys [OF l(5)] l(3) by (simp add: mwf_def)
    note kept = putAll_kept [OF l(2,4) p d]
    have o1: "objs w' k = objs w k" if "fst k \<noteq> n \<or> mget (or_DefaultClusterRoles r) (snd k) = None" for k
      using putAll_other [OF l(2) p, of k] that n
      by (cases k) (auto simp: is_order_set [OF l(5)] mget_def map_of_eq_None_iff)
    have b: "bound n (objs w' (n, name))" if "ok" "mget (or_DefaultClusterRoles r) name \<noteq> None" for name
    proof -
      from that(1) ok have "e = None" by simp
      from or_Reconcile_wanted(1) [OF l(1,5,2) g ns(2) l(3) r [unfolded this]] that(2) n desired_bound [of ns]
      show ?thesis by auto
    qed
    show ?thesis
      by (rule managed [OF ns(1) n ns(2)]) (use kept n o1 b in auto)
  qed
qed

lemma bound_kept: "bound (ns_Name ns) b \<Longrightarrow> put_or_kept ns name b b' \<Longrightarrow> b' = b"
  using desired_same by (auto simp: put_or_kept_def bound_def)

lemma settled_unchanged:
  assumes "or_attempt E objs r n w w' ok" and "or_settled objs r w n"
  shows "objs w' = objs w"
  using assms(1)
proof (cases rule: or_attempt_cases)
  case (managed ns)
  show ?thesis
  proof
    fix k
    show "objs w' k = objs w k"
    proof (cases "fst k \<noteq> n \<or> mget (or_DefaultClusterRoles r) (snd k) = None")
      case False
      then have k: "k = (n, snd k)" "mget (or_DefaultClusterRoles r) (snd k) \<noteq> None" by (cases k; simp)+
      with assms(2) managed(1,3) have "bound n (objs w k)" unfolding or_settled_def by metis
      with bound_kept managed(2,6) k(1) show ?thesis by metis
    qed (use managed(5) in blast)
  qed
qed simp

lemma enqueued_uncontrolled: "rb_Controller rb = None \<Longrightarrow> enqueued or_SetupWithManager (binding_change rb) = []"
  using kinds_differ(1) by (simp add: or_SetupWithManager_def watch_defs binding_change_def controlledBy_def)

lemma kept_requests:
  assumes "put_or_kept ns name b b'" and "b' \<noteq> b" and "b = Some rb \<or> b' = Some rb"
    and "req \<in> set (enqueued or_SetupWithManager (binding_change rb))"
  shows "req_Name req = ns_Name ns"
proof -
  from assms(1-3) have "rb_Controller rb = None \<or> rb_Controller rb = Some (ns_Name ns)"
    by (auto simp: put_or_kept_def desired_Controller)
  with assms(4) enqueued_binding [of rb "ns_Name ns"] enqueued_uncontrolled [of rb] show ?thesis by auto
qed

interpretation binding_queue: settling "or_attempt E objs r" "change_requests or_SetupWithManager binding_change objs" "or_settled objs r"
  for E objs r
proof
  fix n w w' ok
  assume "or_attempt E objs r n w w' ok"
  then show "change_requests or_SetupWithManager binding_change objs w w' \<subseteq> {n}"
  proof (cases rule: or_attempt_cases)
    case (managed ns)
    show ?thesis
    proof (rule change_requests_own)
      fix req k obj
      assume c: "objs w k \<noteq> objs w' k" "objs w k = Some obj \<or> objs w' k = Some obj"
        "req \<in> set (enqueued or_SetupWithManager (binding_change obj))"
      from managed(5) [of k] c(1) have "k = (n, snd k)" by (cases k) auto
      with managed(6) [of "snd k"] kept_requests [of ns "snd k" "objs w k" "objs w' k" obj req] c managed(2)
      show "req_Name req = n" by auto
    qed
  qed (simp add: change_requests_unchanged)
next
  fix n w w'
  assume "or_attempt E objs r n w w' True"
  then show "or_settled objs r w' n" by (cases rule: or_attempt_cases) (auto simp: or_settled_def)
next
  fix w m n w' ok
  assume s: "or_settled objs r w m" and a: "or_attempt E objs r n w w' ok"
  from a show "or_settled objs r w' m"
  proof (cases rule: or_attempt_cases)
    case (managed ns)
    show ?thesis
    proof (cases "m = n")
      case True
      with settled_unchanged [OF a] s managed(4) show ?thesis by (simp add: or_settled_def)
    next
      case False
      with managed(4,5) s show ?thesis by (simp add: or_settled_def)
    qed
  qed (use s in simp)
next
  fix w n w' ok
  assume "or_settled objs r w n" and "or_attempt E objs r n w w' ok"
  from settled_unchanged [OF this(2,1)] show "change_requests or_SetupWithManager binding_change objs w w' = {}"
    by (rule change_requests_unchanged)
qed

text \<open>
  C20: The queue of the role binding controller comes to rest: from any set Q of namespaces in the queue at most 2 |Q|
  attempts succeed, the requests made by the controller's own changes included. Once it is empty every default role of every
  managed namespace that was in it has its binding, initialized and controlled by the namespace. If attempts can succeed, it is
  empty after 2 |Q| of them at the latest.
\<close>

theorem binding_queue_drains:
  assumes "finite Q"
  shows "comes_to_rest (or_attempt E objs r) (change_requests or_SetupWithManager binding_change objs)
    (\<lambda>w n. \<forall>ns name. or_getNamespace r n w = Inr ns \<longrightarrow> manages r ns \<longrightarrow> mget (or_DefaultClusterRoles r) name \<noteq> None \<longrightarrow>
       (\<exists>rb. objs w (n, name) = Some rb \<and> \<not> rolebindingIsUninitialized rb \<and> rb_Controller rb = Some n)) w Q"
  by (rule binding_queue.rest [OF assms, unfolded or_settled_def bound_def])

section \<open>Witnesses\<close>

definition queue_or :: "(string \<times> string \<Rightarrow> RoleBinding option) OrganizationRBACReconciler" where
  "queue_or = (sample_or None)\<lparr>or_getNamespace := \<lambda>n w. if n = ''ns'' then Inr (sample_orgns (Some [(''org'', ''acme'')])) else Inl (NotFound n)\<rparr>"

lemma queue_or_fields:
  "or_getNamespace queue_or n w = (if n = ''ns'' then Inr (sample_orgns (Some [(''org'', ''acme'')])) else Inl (NotFound n))"
  "or_DefaultClusterRoles queue_or = Some [(''admin'', ''admin'')]" "or_CreateOrUpdate queue_or = or_CreateOrUpdate (sample_or None)"
  "or_SetControllerReference queue_or = or_SetControllerReference (sample_or None)" "or_OrganizationLabel queue_or = ''org''"
  by (simp_all add: queue_or_def sample_or_def)

lemma queue_or_managed: "manages queue_or (sample_orgns (Some [(''org'', ''acme'')]))"
  using sample_or_managed by (simp add: manages_def queue_or_fields sample_or_def)

lemma queue_or_ok:
  "or_client_ok (\<lambda>w. w) queue_or" "cou_frame (\<lambda>w n. or_getNamespace queue_or n w) (or_CreateOrUpdate queue_or)"
  "or_getNamespace queue_or n w = Inr ns \<Longrightarrow> ns_Name ns = n"
  using sample_or_ok [of None]
  by (auto simp: or_client_ok_def cou_frame_def queue_or_fields sample_orgns_def split: if_splits)

lemma queue_or_attempt:
  assumes "putRoleBinding (sample_or None) (sample_orgns (Some [(''org'', ''acme'')])) ''admin'' ''admin'' ''acme'' w = (w', None)"
  shows "or_attempt sample_ext (\<lambda>w. w) queue_or ''ns'' w w' True"
proof -
  let ?ns = "sample_orgns (Some [(''org'', ''acme'')])" and ?req = "\<lparr>req_Namespace = [], req_Name = ''ns''\<rparr>"
  have g: "or_getNamespace queue_or (req_Name ?req) w = Inr ?ns" by (simp add: queue_or_fields)
  have "putRoleBinding queue_or ?ns ''admin'' ''admin'' ''acme'' w = (w', None)"
    using assms by (simp add: putRoleBinding_def queue_or_fields)
  then have "or_Reconcile sample_ext (\<lambda>al. al) queue_or ?req w = (w', [], None)"
    unfolding or_Reconcile_managed [OF g queue_or_managed]
    using sample_ext_laws(1) by (simp add: queue_or_fields combine_ok_def sample_orgns_def mstr_def)
  moreover have "mwf (or_DefaultClusterRoles queue_or)" by (simp add: queue_or_fields)
  ultimately show ?thesis
    unfolding or_attempt_def using sample_ext_laws(1) queue_or_ok is_order_id by blast
qed

theorem binding_queue_drains_witness:
  "\<exists>oks w' rb. drain (or_attempt sample_ext (\<lambda>w. w) queue_or) (change_requests or_SetupWithManager binding_change (\<lambda>w. w))
     (Map.empty, {''ns''}) oks (w', {}) \<and> length oks \<le> 2 \<and> w' (''ns'', ''admin'') = Some rb"
proof -
  let ?a = "or_attempt sample_ext (\<lambda>w. w) queue_or" and ?c = "change_requests or_SetupWithManager binding_change (\<lambda>w :: string \<times> string \<Rightarrow> RoleBinding option. w)"
  have f: "finite {''ns''}" by simp
  obtain w1 w2 where a1: "?a ''ns'' Map.empty w1 True" and a2: "?a ''ns'' w1 w2 True"
    using sample_or_put queue_or_attempt by meson
  have "w2 = w1" using settled_unchanged [OF a2] binding_queue.settles [OF a1] by simp
  with a1 a2 have "\<exists>v'. ?a ''ns'' v v' True \<and> (v' = Map.empty \<or> v' = w1)" if "v = Map.empty \<or> v = w1" for v using that by blast
  with binding_queue_drains [OF f, of sample_ext "\<lambda>w. w" queue_or Map.empty, unfolded comes_to_rest_def, THEN conjunct2, rule_format,
      of "\<lambda>w. w = Map.empty \<or> w = w1"]
  obtain oks w' where d: "drain ?a ?c (Map.empty, {''ns''}) oks (w', {})" "length oks \<le> 2" by auto
  from binding_queue_drains [OF f, unfolded comes_to_rest_def, THEN conjunct1, rule_format, OF d(1)] queue_or_managed
  obtain rb where "w' (''ns'', ''admin'') = Some rb" by (fastforce simp: queue_or_fields)
  with d show ?thesis by blast
qed

end
