(* ===== verification/GroupQueue.thy ===== *)
theory GroupQueue
  imports WorkQueue GroupLifecycle
begin

text \<open>
  The work queue of the group sync controller. A group is reconciled when it changes, and when its upstream object
  changes in the control API, so that the finalizer that the controller sets makes a request for the same group. The controller keeps
  the contract \<open>settling\<close>, and its queue comes to rest.
\<close>

section \<open>Attempts and requests\<close>

definition group_change :: "Group \<Rightarrow> Change" where
  "group_change grp = \<lparr>ch_Cluster = LocalCluster, ch_GVK = groupKind, ch_Namespace = [], ch_Name = grp_Name grp,
     ch_Labels = None, ch_Owners = []\<rparr>"

definition upstream_change :: "Upstream \<Rightarrow> Change" where
  "upstream_change u = \<lparr>ch_Cluster = ControlAPI,
     ch_GVK = (case up_Kind u of TeamKind \<Rightarrow> teamKind | OrganizationMembersKind \<Rightarrow> membersKind),
     ch_Namespace = up_Namespace u, ch_Name = up_Name u, ch_Labels = None, ch_Owners = []\<rparr>"

definition gs_requests ::
    "('w \<Rightarrow> string \<Rightarrow> Group option) \<Rightarrow> ('w \<Rightarrow> UpstreamKind \<times> string \<times> string \<Rightarrow> Upstream option) \<Rightarrow> 'w \<Rightarrow> 'w \<Rightarrow> string set" where
  "gs_requests groups ups w w' = change_requests gs_SetupWithManager group_change groups w w' \<union>
     change_requests gs_SetupWithManager upstream_change ups w w'"

text \<open>
  An attempt for a group. Objects are stored under their names before and after it, an object that is not found does not exist, a
  deletion that fails has deleted the group or not, and an update that fails has been stored or not.
\<close>

definition gs_named ::
    "('w \<Rightarrow> string \<Rightarrow> Group option) \<Rightarrow> ('w \<Rightarrow> UpstreamKind \<times> string \<times> string \<Rightarrow> Upstream option) \<Rightarrow> 'w \<Rightarrow> bool" where
  "gs_named groups ups w \<longleftrightarrow> (\<forall>n grp. groups w n = Some grp \<longrightarrow> grp_Name grp = n) \<and> (\<forall>k u. ups w k = Some u \<longrightarrow> up_key u = k)"

definition gs_missing ::
    "('w \<Rightarrow> UpstreamKind \<times> string \<times> string \<Rightarrow> Upstream option) \<Rightarrow> 'w GroupSyncReconciler \<Rightarrow> 'w \<Rightarrow> bool" where
  "gs_missing ups r w \<longleftrightarrow> (\<forall>kind ns name err. gs_ForeignGet r kind ns name w = Inl err \<longrightarrow> IsNotFound err \<longrightarrow> ups w (kind, ns, name) = None)"

definition gs_delete_only :: "('w \<Rightarrow> string \<Rightarrow> Group option) \<Rightarrow> 'w GroupSyncReconciler \<Rightarrow> bool" where
  "gs_delete_only groups r \<longleftrightarrow> (\<forall>grp w w' e. gs_Delete r grp w = (w', e) \<longrightarrow>
     groups w' (grp_Name grp) = groups w (grp_Name grp) \<or> groups w' (grp_Name grp) = None)"

definition gs_update_only :: "('w \<Rightarrow> UpstreamKind \<times> string \<times> string \<Rightarrow> Upstream option) \<Rightarrow> 'w GroupSyncReconciler \<Rightarrow> bool" where
  "gs_update_only ups r \<longleftrightarrow> (\<forall>u w w' e. gs_ForeignUpdate r u w = (w', e) \<longrightarrow>
     ups w' (up_key u) = ups w (up_key u) \<or> ups w' (up_key u) = Some u \<or>
     up_DeletionTimestamp u \<noteq> None \<and> ups w' (up_key u) = None)"

definition gs_attempt ::
    "finalizerFns \<Rightarrow> ('w \<Rightarrow> string \<Rightarrow> Group option) \<Rightarrow> ('w \<Rightarrow> UpstreamKind \<times> string \<times> string \<Rightarrow> Upstream option)
      \<Rightarrow> 'w GroupSyncReconciler \<Rightarrow> string \<Rightarrow> 'w \<Rightarrow> 'w \<Rightarrow> bool \<Rightarrow> bool" where
  "gs_attempt F groups ups r n w w' ok \<longleftrightarrow> finalizers_ok F \<and> gs_client_ok groups ups r \<and>
     gs_named groups ups w \<and> gs_named groups ups w' \<and> gs_missing ups r w \<and> gs_delete_only groups r \<and> gs_update_only ups r \<and>
     (\<exists>m e. gs_Reconcile F r \<lparr>req_Namespace = m, req_Name = n\<rparr> w = (w', e) \<and> ok = (e = None))"

text \<open>Nothing is left to do for a group.\<close>

definition gs_settled ::
    "('w \<Rightarrow> string \<Rightarrow> Group option) \<Rightarrow> ('w \<Rightarrow> UpstreamKind \<times> string \<times> string \<Rightarrow> Upstream option)
      \<Rightarrow> 'w GroupSyncReconciler \<Rightarrow> 'w \<Rightarrow> string \<Rightarrow> bool" where
  "gs_settled groups ups r w n \<longleftrightarrow> (\<forall>u. ups w (upstreamOf n) = Some u \<longrightarrow>
     (if up_DeletionTimestamp u = None
      then (\<exists>grp. groups w n = Some grp \<and> grp_Users grp = sort (map ur_Name (up_ResolvedUserRefs u))) \<and>
        gs_finalizer r \<in> set (up_Finalizers u)
      else groups w n = None \<and> gs_finalizer r \<notin> set (up_Finalizers u)))"

section \<open>What an attempt does\<close>

lemma gs_attemptD:
  assumes "gs_attempt F groups ups r n w w' ok"
  obtains m e where "finalizers_ok F" and "gs_client_ok groups ups r" and "gs_Reconcile F r \<lparr>req_Namespace = m, req_Name = n\<rparr> w = (w', e)"
    and "ok = (e = None)" and "gs_named groups ups w" and "gs_named groups ups w'" and "gs_missing ups r w" and "gs_delete_only groups r"
    and "gs_update_only ups r"
  using assms unfolding gs_attempt_def by blast

lemma gs_attempt_frame:
  assumes "gs_attempt F groups ups r n w w' ok"
  shows "m \<noteq> n \<Longrightarrow> groups w' m = groups w m" and "k \<noteq> upstreamOf n \<Longrightarrow> ups w' k = ups w k"
proof -
  from assms obtain m' e where c: "gs_client_ok groups ups r" "gs_Reconcile F r \<lparr>req_Namespace = m', req_Name = n\<rparr> w = (w', e)"
    by (rule gs_attemptD)
  show "m \<noteq> n \<Longrightarrow> groups w' m = groups w m" using gs_Reconcile_other(1) [OF c] by simp
  show "k \<noteq> upstreamOf n \<Longrightarrow> ups w' k = ups w k" using gs_Reconcile_other(2) [OF c] by simp
qed

text \<open>Where nothing is left to do, nothing is done.\<close>

lemma gs_settled_unchanged:
  assumes "gs_attempt F groups ups r n w w' ok" and "gs_settled groups ups r w n"
  shows "groups w' = groups w" and "ups w' = ups w"
proof -
  from assms(1) obtain m e where F: "finalizers_ok F" and cl: "gs_client_ok groups ups r"
    and rec: "gs_Reconcile F r \<lparr>req_Namespace = m, req_Name = n\<rparr> w = (w', e)"
    by (rule gs_attemptD)
  have del: "gs_delete_only groups r" using assms(1) by (simp add: gs_attempt_def)
  obtain kind ns name where key: "upstreamOf n = (kind, ns, name)" by (cases "upstreamOf n") auto
  have key': "upstreamOf (req_Name \<lparr>req_Namespace = m, req_Name = n\<rparr>) = (kind, ns, name)" using key by simp
  have "groups w' = groups w \<and> ups w' = ups w"
    using rec key'
  proof (cases rule: gs_Reconcile_cases)
    case (sync u)
    note u = gs_getD [OF cl sync(1)]
    from assms(2) u(2) sync(2) key obtain grp where g: "groups w n = Some grp" "grp_Users grp = sort (map ur_Name (up_ResolvedUserRefs u))"
      and fin: "gs_finalizer r \<in> set (up_Finalizers u)" by (auto simp: gs_settled_def)
    from sync(3) show ?thesis
    proof (cases rule: gs_sync_cases)
      case (1 w1 grp' s op e1 fs ch)
      have cok: "cou_ok groups grp_Name (gs_CreateOrUpdate r)" using cl by (simp add: gs_client_ok_def)
      have "capturing_none (group_mutate (up_ResolvedUserRefs u)) grp () = (grp, (), None)"
        using g(2) by (simp add: capturing_none_def group_mutate_def)
      with cok [unfolded cou_ok_def, rule_format, OF 1(1), of grp "()" None] g(1)
      have "groups w1 n = groups w n" by (auto split: if_splits)
      moreover have "groups w1 m = groups w m" if "m \<noteq> n" for m using cou_other [OF cok 1(1)] that by simp
      ultimately have "groups w1 = groups w" by (metis ext)
      moreover have "\<not> ch" using finalizersD(1) [OF F 1(2)] fin by simp
      ultimately show ?thesis using 1(3) gs_couD [OF cl 1(1)] by simp
    qed
  next
    case (remove u t)
    note u = gs_getD [OF cl remove(1)]
    from assms(2) u(2) remove(2) key have g: "groups w n = None" and fin: "gs_finalizer r \<notin> set (up_Finalizers u)"
      by (auto simp: gs_settled_def)
    from remove(3) show ?thesis
    proof (cases rule: gs_remove_cases)
      case (1 w1 e1 fs ch)
      note d = gs_deleteD [OF cl 1(1)]
      have "groups w1 n = groups w n" using del [unfolded gs_delete_only_def, rule_format, OF 1(1)] g by simp
      moreover have "groups w1 m = groups w m" if "m \<noteq> n" for m using d(2) that by simp
      ultimately have "groups w1 = groups w" by (metis ext)
      moreover have "\<not> ch" using finalizersD(2) [OF F 1(2)] fin by simp
      ultimately show ?thesis using 1(3) d(1) by simp
    qed
  qed simp
  then show "groups w' = groups w" and "ups w' = ups w" by simp_all
qed

text \<open>Neither way starts or takes back the deletion of the upstream object.\<close>

lemma gs_sync_deletion:
  assumes "gs_client_ok groups ups r" and "gs_ForeignGet r kind ns name w = Inr u" and "up_DeletionTimestamp u = None"
    and "gs_sync F r f \<lparr>grp_Name = n, grp_Users = []\<rparr> u w = (w', None)" and "ups w' (kind, ns, name) = Some u'"
  shows "up_DeletionTimestamp u' = None"
proof -
  note u = gs_getD [OF assms(1,2)]
  from assms(4) show ?thesis
  proof (cases rule: gs_sync_cases)
    case (1 w1 grp' s op e1 fs ch)
    have "ups w1 (kind, ns, name) = Some u" using gs_couD [OF assms(1) 1(1)] u(2) by simp
    moreover have "ups w' (kind, ns, name) = Some (u\<lparr>up_Finalizers := fs\<rparr>)" if "gs_ForeignUpdate r (u\<lparr>up_Finalizers := fs\<rparr>) w1 = (w', None)"
      using gs_updateD(3) [OF assms(1) that refl] assms(3) u(1) by simp
    ultimately show ?thesis using 1(3) assms(5,3) by auto
  qed
qed

lemma gs_remove_deletion:
  assumes "gs_client_ok groups ups r" and "gs_ForeignGet r kind ns name w = Inr u" and "up_DeletionTimestamp u \<noteq> None"
    and "gs_remove F r f \<lparr>grp_Name = n, grp_Users = []\<rparr> u w = (w', None)" and "ups w' (kind, ns, name) = Some u'"
  shows "up_DeletionTimestamp u' \<noteq> None"
proof -
  note u = gs_getD [OF assms(1,2)]
  from assms(4) show ?thesis
  proof (cases rule: gs_remove_cases)
    case (1 w1 e1 fs ch)
    have "ups w1 (kind, ns, name) = Some u" using gs_deleteD(1) [OF assms(1) 1(1)] u(2) by simp
    moreover have "ups w' (kind, ns, name) = Some (u\<lparr>up_Finalizers := fs\<rparr>) \<or> ups w' (kind, ns, name) = None"
      if "gs_ForeignUpdate r (u\<lparr>up_Finalizers := fs\<rparr>) w1 = (w', None)"
      using gs_updateD(3) [OF assms(1) that refl] u(1) by auto
    ultimately show ?thesis using 1(3) assms(5,3) by auto
  qed
qed

text \<open>An attempt without an error leaves nothing to do.\<close>

lemma gs_attempt_settles:
  assumes "gs_attempt F groups ups r n w w' True"
  shows "gs_settled groups ups r w' n"
proof -
  from assms obtain m e where F: "finalizers_ok F" and cl: "gs_client_ok groups ups r"
    and rec: "gs_Reconcile F r \<lparr>req_Namespace = m, req_Name = n\<rparr> w = (w', e)" and e: "True = (e = None)"
    and miss: "gs_missing ups r w" by (rule gs_attemptD)
  from e have e: "e = None" by simp
  obtain kind ns name where key: "upstreamOf n = (kind, ns, name)" by (cases "upstreamOf n") auto
  then have key': "upstreamOf (req_Name \<lparr>req_Namespace = m, req_Name = n\<rparr>) = (kind, ns, name)" by simp
  from rec key' show ?thesis
  proof (cases rule: gs_Reconcile_cases)
    case (missing err)
    with e miss have "ups w' (upstreamOf n) = None" by (simp add: gs_missing_def key)
    then show ?thesis by (simp add: gs_settled_def)
  next
    case (sync u)
    have s: "gs_sync F r (gs_finalizer r) \<lparr>grp_Name = n, grp_Users = []\<rparr> u w = (w', None)" using sync(3) e by simp
    from gs_sync_ok(1,2) [OF F cl sync(1,2) s] gs_sync_deletion [OF cl sync(1,2) s] show ?thesis
      by (auto simp: gs_settled_def key)
  next
    case (remove u t)
    have s: "gs_remove F r (gs_finalizer r) \<lparr>grp_Name = n, grp_Users = []\<rparr> u w = (w', None)"
      and t: "up_DeletionTimestamp u \<noteq> None" using remove(2,3) e by simp_all
    have "groups w' n = None \<and> \<not> guarded ups r n w'"
      using gs_Reconcile_ok [OF F cl rec [unfolded e] key' remove(1)] remove(2) by simp
    with gs_remove_deletion [OF cl remove(1) t s] show ?thesis by (auto simp: gs_settled_def guarded_def key)
  qed
qed

text \<open>An upstream object disappears in an attempt only after its group has been deleted.\<close>

lemma gs_remove_gone:
  assumes "gs_client_ok groups ups r" and "gs_remove F r f \<lparr>grp_Name = n, grp_Users = []\<rparr> u w = (w', e)" and "ups w' k = None" and "ups w k \<noteq> None"
  shows "groups w' n = None"
proof -
  obtain w1 e1 where d: "gs_Delete r \<lparr>grp_Name = n, grp_Users = []\<rparr> w = (w1, e1)" by (cases "gs_Delete r \<lparr>grp_Name = n, grp_Users = []\<rparr> w")
  have "w' \<noteq> w1" using gs_deleteD(1) [OF assms(1) d] assms(3,4) by auto
  with assms(2) d obtain fs where "e1 = None \<or> (\<exists>e'. e1 = Some e' \<and> IsNotFound e')"
    and u: "gs_ForeignUpdate r (u\<lparr>up_Finalizers := fs\<rparr>) w1 = (w', e)"
    by (auto simp: gs_remove_def split: option.splits prod.splits if_splits)
  with gs_deleteD(3) [OF assms(1) d] have "groups w1 n = None" by simp
  with gs_updateD(1) [OF assms(1) u] show ?thesis by simp
qed

lemma gs_attempt_gone:
  assumes "gs_attempt F groups ups r n w w' ok" and "ups w' (upstreamOf n) = None"
  shows "groups w' n = None \<or> ups w (upstreamOf n) = None \<and> groups w' n = groups w n"
proof -
  from assms(1) obtain m e where cl: "gs_client_ok groups ups r" and up: "gs_update_only ups r"
    and rec: "gs_Reconcile F r \<lparr>req_Namespace = m, req_Name = n\<rparr> w = (w', e)" by (rule gs_attemptD)
  obtain kind ns name where key: "upstreamOf n = (kind, ns, name)" by (cases "upstreamOf n") auto
  then have "upstreamOf (req_Name \<lparr>req_Namespace = m, req_Name = n\<rparr>) = (kind, ns, name)" by simp
  with rec show ?thesis
  proof (cases rule: gs_Reconcile_cases)
    case (sync u)
    note u = gs_getD [OF cl sync(1)]
    from sync(3) show ?thesis
    proof (cases rule: gs_sync_cases)
      case (1 w1 grp' s op e1 fs ch)
      have w1: "ups w1 (kind, ns, name) = Some u" using gs_couD [OF cl 1(1)] u(2) by simp
      have "ups w' (kind, ns, name) \<noteq> None" if "gs_ForeignUpdate r (u\<lparr>up_Finalizers := fs\<rparr>) w1 = (w', e)"
        using up [unfolded gs_update_only_def, rule_format, OF that] w1 u(1) sync(2) by auto
      with 1(3) w1 assms(2) key show ?thesis by auto
    qed
  next
    case (remove u t)
    have "ups w (upstreamOf n) \<noteq> None" using gs_getD(2) [OF cl remove(1)] key by simp
    with gs_remove_gone [OF cl _ assms(2)] remove(3) show ?thesis by simp
  qed (use assms(2) in simp)
qed

section \<open>The requests of an attempt\<close>

lemma enqueued_group: "enqueued gs_SetupWithManager (group_change grp) = [\<lparr>req_Namespace = [], req_Name = grp_Name grp\<rparr>]"
  by (simp add: gs_SetupWithManager_def watch_defs group_change_def)

lemma upstreamOf_plus: "upstreamOf n = (TeamKind, a, b) \<Longrightarrow> n = a @ ''+'' @ b"
  using split_at_plus [of n] by (auto simp: upstreamOf_def SplitN2_def Let_def split: if_splits)

lemma enqueued_upstream:
  assumes "upstreamOf n = up_key u" and "req \<in> set (enqueued gs_SetupWithManager (upstream_change u))"
  shows "req_Name req = n"
proof (cases "up_Kind u")
  case TeamKind
  with assms(2) kinds_differ have "req_Name req = up_Namespace u @ ''+'' @ up_Name u"
    by (auto simp: gs_SetupWithManager_def watch_defs upstream_change_def teamMapper_def changedUpstream_def)
  with upstreamOf_plus [of n "up_Namespace u" "up_Name u"] assms(1) TeamKind show ?thesis by (simp add: up_key_def)
next
  case OrganizationMembersKind
  with assms(2) kinds_differ have "req_Name req = up_Namespace u"
    by (auto simp: gs_SetupWithManager_def watch_defs upstream_change_def organizationMembersMapper_def changedUpstream_def)
  with assms(1) OrganizationMembersKind show ?thesis by (auto simp: up_key_def upstreamOf_def Let_def split: if_splits)
qed

lemma gs_requests_own:
  assumes "gs_attempt F groups ups r n w w' ok"
  shows "gs_requests groups ups w w' \<subseteq> {n}"
proof -
  have nm: "gs_named groups ups w" "gs_named groups ups w'" using assms by (simp_all add: gs_attempt_def)
  have "change_requests gs_SetupWithManager group_change groups w w' \<subseteq> {n}"
  proof (rule change_requests_own)
    fix req k grp
    assume c: "groups w k \<noteq> groups w' k" "groups w k = Some grp \<or> groups w' k = Some grp"
      "req \<in> set (enqueued gs_SetupWithManager (group_change grp))"
    have "k = n" using gs_attempt_frame(1) [OF assms, of k] c(1) by metis
    with c(2,3) nm show "req_Name req = n" by (auto simp: enqueued_group gs_named_def)
  qed
  moreover have "change_requests gs_SetupWithManager upstream_change ups w w' \<subseteq> {n}"
  proof (rule change_requests_own)
    fix req k u
    assume c: "ups w k \<noteq> ups w' k" "ups w k = Some u \<or> ups w' k = Some u"
      "req \<in> set (enqueued gs_SetupWithManager (upstream_change u))"
    have "k = upstreamOf n" using gs_attempt_frame(2) [OF assms, of k] c(1) by metis
    moreover have "up_key u = k" using nm c(2) unfolding gs_named_def by metis
    ultimately show "req_Name req = n" using enqueued_upstream [OF _ c(3)] by simp
  qed
  ultimately show ?thesis by (simp add: gs_requests_def)
qed

lemma gs_requests_unchanged: "groups w' = groups w \<Longrightarrow> ups w' = ups w \<Longrightarrow> gs_requests groups ups w w' = {}"
  by (simp add: gs_requests_def change_requests_unchanged)

interpretation group_queue: settling "gs_attempt F groups ups r" "gs_requests groups ups" "gs_settled groups ups r"
  for F groups ups r
proof
  fix n w w' ok
  assume "gs_attempt F groups ups r n w w' ok"
  then show "gs_requests groups ups w w' \<subseteq> {n}" by (rule gs_requests_own)
next
  fix n w w'
  assume "gs_attempt F groups ups r n w w' True"
  then show "gs_settled groups ups r w' n" by (rule gs_attempt_settles)
next
  fix w m n w' ok
  assume s: "gs_settled groups ups r w m" and a: "gs_attempt F groups ups r n w w' ok"
  show "gs_settled groups ups r w' m"
  proof (cases "m = n")
    case True
    with gs_settled_unchanged [OF a] s show ?thesis by (simp add: gs_settled_def)
  next
    case False
    then have "upstreamOf m \<noteq> upstreamOf n" using upstreamOf_inj by blast
    with gs_attempt_frame [OF a] False s show ?thesis by (simp add: gs_settled_def)
  qed
next
  fix w n w' ok
  assume "gs_settled groups ups r w n" and "gs_attempt F groups ups r n w w' ok"
  from gs_settled_unchanged [OF this(2,1)] show "gs_requests groups ups w w' = {}" by (rule gs_requests_unchanged)
qed

section \<open>Properties\<close>

text \<open>
  C21: The queue of the group sync controller comes to rest as well: from any set Q of groups in the queue at most 2 |Q|
  attempts succeed, the requests that the controller makes for itself included. Once it is empty every group that was in it
  is done with. If it has an upstream object, it has the members of that object, which carries the finalizer, or, if the object
  is being deleted, the group is gone and the finalizer removed. If it has no upstream object (any more), the group is gone too,
  unless the object was already missing when the queue started: then the group is as it was. If attempts can succeed, the queue
  is empty after 2 |Q| of them at the latest.
\<close>

theorem group_queue_drains:
  assumes "finite Q"
  shows "comes_to_rest (gs_attempt F groups ups r) (gs_requests groups ups)
    (\<lambda>w' n. case ups w' (upstreamOf n) of
         None \<Rightarrow> groups w' n = None \<or> ups w (upstreamOf n) = None \<and> groups w' n = groups w n
       | Some u \<Rightarrow>
           if up_DeletionTimestamp u = None
           then (\<exists>grp. groups w' n = Some grp \<and> grp_Users grp = sort (map ur_Name (up_ResolvedUserRefs u))) \<and>
             gs_finalizer r \<in> set (up_Finalizers u)
           else groups w' n = None \<and> gs_finalizer r \<notin> set (up_Finalizers u)) w Q"
proof (rule comes_to_rest_keeping [OF group_queue.rest [OF assms]])
  let ?P = "\<lambda>v. \<forall>n. ups v (upstreamOf n) = None \<longrightarrow> groups v n = None \<or> ups w (upstreamOf n) = None \<and> groups v n = groups w n"
  fix m v v' ok
  assume a: "gs_attempt F groups ups r m v v' ok" and P: "?P v"
  show "?P v'"
  proof (intro allI impI)
    fix n
    assume n: "ups v' (upstreamOf n) = None"
    show "groups v' n = None \<or> ups w (upstreamOf n) = None \<and> groups v' n = groups w n"
    proof (cases "n = m")
      case True
      from gs_attempt_gone [OF a] n True have "groups v' n = None \<or> ups v (upstreamOf n) = None \<and> groups v' n = groups v n" by simp
      with P [rule_format, of n] show ?thesis by (elim disjE conjE) simp_all
    next
      case False
      then have "upstreamOf n \<noteq> upstreamOf m" using upstreamOf_inj by blast
      with gs_attempt_frame [OF a] False n P show ?thesis by simp
    qed
  qed
qed (auto simp: gs_settled_def split: option.split)

section \<open>Witnesses\<close>

definition synced_gs_world :: gs_world where
  "synced_gs_world = ([''acme+dev'' \<mapsto> \<lparr>grp_Name = ''acme+dev'', grp_Users = [''alice'', ''bob'']\<rparr>],
     [(TeamKind, ''acme'', ''dev'') \<mapsto> sample_team None [gs_finalizer sample_gs]])"

lemma sample_gs_laws:
  "gs_missing snd sample_gs (sample_gs_world t fs)" "gs_delete_only fst sample_gs" "gs_update_only snd sample_gs"
  "gs_named fst snd (sample_gs_world t fs)" "gs_named fst snd synced_gs_world"
  by (auto simp: gs_missing_def gs_delete_only_def gs_update_only_def gs_named_def sample_gs_def sample_gs_world_def synced_gs_world_def
      sample_team_def up_key_def split: if_splits)

lemma sample_gs_synced:
  "gs_Reconcile sample_finalizers sample_gs sample_gs_req (sample_gs_world None []) = (synced_gs_world, None)"
  unfolding gs_Reconcile_def Let_def sample_gs_key
  by (simp add: sample_gs_get, simp add: sample_team_def gs_sync_def, simp add: sample_gs_def store_cou_def capturing_none_def
      group_mutate_def sample_finalizers_def sample_gs_world_def synced_gs_world_def sample_team_def up_key_def gs_finalizer_def sample_gs_req_def)

lemma sample_gs_attempt:
  assumes "gs_Reconcile sample_finalizers sample_gs sample_gs_req w = (w', None)" and "gs_named fst snd w" and "gs_named fst snd w'"
    and "gs_missing snd sample_gs w"
  shows "gs_attempt sample_finalizers fst snd sample_gs ''acme+dev'' w w' True"
proof -
  have "\<exists>m e. gs_Reconcile sample_finalizers sample_gs \<lparr>req_Namespace = m, req_Name = ''acme+dev''\<rparr> w = (w', e) \<and> True = (e = None)"
    using assms(1) unfolding sample_gs_req_def by blast
  then show ?thesis
    unfolding gs_attempt_def using sample_finalizers_ok sample_gs_ok assms(2-4) sample_gs_laws(2,3) by blast
qed

lemma synced_gs_again:
  "gs_missing snd sample_gs synced_gs_world"
  "gs_Reconcile sample_finalizers sample_gs sample_gs_req synced_gs_world = (synced_gs_world, None)"
proof -
  show "gs_missing snd sample_gs synced_gs_world"
    by (auto simp: gs_missing_def sample_gs_def synced_gs_world_def sample_team_def up_key_def split: if_splits)
  have g: "gs_ForeignGet sample_gs TeamKind ''acme'' ''dev'' synced_gs_world = Inr (sample_team None [gs_finalizer sample_gs])"
    by (simp add: sample_gs_def synced_gs_world_def sample_team_def up_key_def)
  show "gs_Reconcile sample_finalizers sample_gs sample_gs_req synced_gs_world = (synced_gs_world, None)"
    unfolding gs_Reconcile_def Let_def sample_gs_key
    by (simp add: g, simp add: sample_team_def gs_sync_def, simp add: sample_gs_def store_cou_def capturing_none_def
        group_mutate_def sample_finalizers_def synced_gs_world_def sample_team_def gs_finalizer_def sample_gs_req_def)
qed

theorem group_queue_drains_witness:
  "\<exists>oks w' grp. drain (gs_attempt sample_finalizers fst snd sample_gs) (gs_requests fst snd)
     (sample_gs_world None [], {''acme+dev''}) oks (w', {}) \<and> length oks \<le> 2 \<and> fst w' ''acme+dev'' = Some grp \<and>
     grp_Users grp = [''alice'', ''bob'']"
proof -
  let ?a = "gs_attempt sample_finalizers fst snd sample_gs" and ?c = "gs_requests fst snd :: gs_world \<Rightarrow> gs_world \<Rightarrow> string set"
  let ?w = "sample_gs_world None []" and ?ok = "\<lambda>w. w = sample_gs_world None [] \<or> w = synced_gs_world"
  have f: "finite {''acme+dev''}" by simp
  have a1: "?a ''acme+dev'' ?w synced_gs_world True"
    using sample_gs_synced sample_gs_laws(4,5,1) by (rule sample_gs_attempt)
  have a2: "?a ''acme+dev'' synced_gs_world synced_gs_world True"
    using synced_gs_again(2) sample_gs_laws(5,5) synced_gs_again(1) by (rule sample_gs_attempt)
  have i: "\<exists>v'. ?a ''acme+dev'' v v' True \<and> ?ok v'" if "?ok v" for v using that a1 a2 by blast
  note d = group_queue_drains [OF f, of sample_finalizers fst snd sample_gs ?w, unfolded comes_to_rest_def]
  from d [THEN conjunct2, rule_format, of ?ok] i
  obtain oks w' where r: "drain ?a ?c (?w, {''acme+dev''}) oks (w', {})" "length oks \<le> 2" "?ok w'" by auto
  have u: "\<exists>fs. snd w' (upstreamOf ''acme+dev'') = Some (sample_team None fs)"
    using r(3) sample_gs_key by (auto simp: sample_gs_req_def synced_gs_world_def sample_gs_world_def)
  from d [THEN conjunct1, rule_format, OF r(1)] u obtain grp where "fst w' ''acme+dev'' = Some grp" "grp_Users grp = [''alice'', ''bob'']"
    by (auto simp: sample_team_def)
  with r show ?thesis by blast
qed

end
