(* ===== verification/QuotaMigration.thy ===== *)
theory QuotaMigration
  imports LegacyQuota QuotaTransformer
begin

text \<open>
  Quotas of a namespace can come from the legacy controller or from a usage profile whose ResourceQuota goes
  through the transformer. Both read the same annotations of the namespace. This theory shows that they then set the
  same limits, so that a zone can go over from one to the other without changing a namespace.
\<close>

section \<open>Annotations that both understand\<close>

definition quotaAnnotation :: "('w, 'q, 'l) LegacyResourceQuotaReconciler \<Rightarrow> string \<Rightarrow> string \<Rightarrow> string" where
  "quotaAnnotation r name key = ResourceQuotaAnnotationBase r @ ''/'' @ name @ ''.'' @ key"

text \<open>
  The annotations for the quota \<open>name\<close> have values that can be parsed: a list of limits of storage classes as strings, and
  quantities. A key has no second slash (the API server accepts no annotation with two), and a storage
  class has no annotation of its own.
\<close>

definition readable :: "unstr \<Rightarrow> ('w, 'q, 'l) LegacyResourceQuotaReconciler \<Rightarrow> Namespace \<Rightarrow> string \<Rightarrow> bool" where
  "readable U r ns name \<longleftrightarrow> mwf (ns_Annotations ns) \<and>
     (\<forall>key v. mget (ns_Annotations ns) (quotaAnnotation r name key) = Some v \<longrightarrow>
        v \<noteq> [] \<and>
        (if key = ''storageclasses''
         then (\<exists>conf m. unmarshalStringMap U v = Inr conf \<and> mwf conf \<and> lq_unmarshalResourceList r v = Inr m \<and>
                 (\<forall>k. rel_option (\<lambda>s q. lq_ParseQuantity r s = Inr q) (mget conf k) (mget m k)))
         else (\<exists>q. lq_ParseQuantity r v = Inr q) \<and> CHR ''/'' \<notin> set key \<and>
              \<not> Contains (ReplaceAll key (CHR ''_'') ''/'') storageClassPart))"

lemma readableD:
  assumes "readable U r ns name" and "mget (ns_Annotations ns) (quotaAnnotation r name key) = Some v"
  shows "v \<noteq> []"
    and "key = ''storageclasses'' \<Longrightarrow> \<exists>conf m. unmarshalStringMap U v = Inr conf \<and> mwf conf \<and> lq_unmarshalResourceList r v = Inr m \<and>
      (\<forall>k. rel_option (\<lambda>s q. lq_ParseQuantity r s = Inr q) (mget conf k) (mget m k))"
    and "key \<noteq> ''storageclasses'' \<Longrightarrow> (\<exists>q. lq_ParseQuantity r v = Inr q) \<and> CHR ''/'' \<notin> set key \<and>
      \<not> Contains (ReplaceAll key (CHR ''_'') ''/'') storageClassPart"
  using assms(1) [unfolded readable_def, THEN conjunct2, rule_format, OF assms(2)] by simp_all

lemma mwf_entries: "mwf m \<Longrightarrow> (k, v) \<in> set (entries m) \<longleftrightarrow> mget m k = Some v"
  by (simp add: mwf_def mget_def)

lemma ReplaceAll_undo:
  "x \<notin> set s \<Longrightarrow> ReplaceAll (ReplaceAll s y [x]) x [y] = s"
  by (induction s) auto

lemma asks_quota:
  assumes "b = ResourceQuotaAnnotationBase r \<or> b = ResourceQuotaAnnotationBase r @ ''/''"
    and "\<not> HasSuffix (ResourceQuotaAnnotationBase r) ''/''" and "CHR ''.'' \<notin> set name"
  shows "asks U (NewResourceQuotaTransformer b) (a, v) name ov \<longleftrightarrow>
    (\<exists>key. a = quotaAnnotation r name key \<and>
       (if key = ''storageclasses''
        then \<exists>conf. unmarshalStringMap U v = Inr conf \<and> (kv_k ov, kv_v ov) \<in> set (entries conf) \<and> Contains (kv_k ov) storageClassPart
        else ov = \<lparr>kv_k = ReplaceAll key (CHR ''_'') ''/'', kv_v = v\<rparr>))"
    (is "_ \<longleftrightarrow> (\<exists>key. _ \<and> ?P key)")
proof -
  let ?B = "ResourceQuotaAnnotationBase r"
  have base: "LabelBase (NewResourceQuotaTransformer b) = ?B @ ''/''"
    using assms(1,2) TrimSuffix_append [of ?B "''/''"] by (auto simp: NewResourceQuotaTransformer_def TrimSuffix_def)
  have "HasPrefix a (?B @ ''/'') \<and> Cut (TrimPrefix a (?B @ ''/'')) ''.'' = (name, key, True) \<longleftrightarrow> a = quotaAnnotation r name key" for key
  proof
    assume "HasPrefix a (?B @ ''/'') \<and> Cut (TrimPrefix a (?B @ ''/'')) ''.'' = (name, key, True)"
    then obtain rest where a: "a = (?B @ ''/'') @ rest" and c: "Cut rest ''.'' = (name, key, True)"
      using HasPrefix_iff [of a "?B @ ''/''"] TrimPrefix_append [of "?B @ ''/''"] by auto
    from c obtain i where "Index rest ''.'' = Some i" "name = take i rest" "key = drop (i + 1) rest"
      by (auto simp: Cut_def split: option.splits)
    with Index_Some [of rest "''.''" i] have "rest = name @ ''.'' @ key" by auto
    with a show "a = quotaAnnotation r name key" by (simp add: quotaAnnotation_def)
  next
    assume "a = quotaAnnotation r name key"
    then have a: "a = (?B @ ''/'') @ name @ CHR ''.'' # key" by (simp add: quotaAnnotation_def)
    have "HasPrefix a (?B @ ''/'')" unfolding a by (rule HasPrefix_append)
    moreover have "TrimPrefix a (?B @ ''/'') = name @ CHR ''.'' # key" unfolding a by (rule TrimPrefix_append)
    ultimately show "HasPrefix a (?B @ ''/'') \<and> Cut (TrimPrefix a (?B @ ''/'')) ''.'' = (name, key, True)"
      by (simp add: Cut_first [OF assms(3)])
  qed
  note eq = this
  show ?thesis unfolding asks_def base case_prod_conv by (simp only: conj_assoc [symmetric] eq)
qed

section \<open>The same limit\<close>

lemma ex_renamed: "(\<exists>a v. f a = Some v \<and> (\<exists>key. a = g key \<and> P key v)) \<longleftrightarrow> (\<exists>key v. f (g key) = Some v \<and> P key v)"
  by blast

lemma asked_iff:
  assumes "b = ResourceQuotaAnnotationBase r \<or> b = ResourceQuotaAnnotationBase r @ ''/''"
    and "\<not> HasSuffix (ResourceQuotaAnnotationBase r) ''/''" and "CHR ''.'' \<notin> set name"
    and "readable U r ns name"
  shows "s \<in> asked U (NewResourceQuotaTransformer b) ns name k \<longleftrightarrow>
    (\<exists>key v. mget (ns_Annotations ns) (quotaAnnotation r name key) = Some v \<and>
       (if key = ''storageclasses''
        then \<exists>conf. unmarshalStringMap U v = Inr conf \<and> (k, s) \<in> set (entries conf) \<and> Contains k storageClassPart
        else k = ReplaceAll key (CHR ''_'') ''/'' \<and> s = v))"
proof -
  have m: "(a, v) \<in> set (entries (ns_Annotations ns)) \<longleftrightarrow> mget (ns_Annotations ns) a = Some v" for a v
    using assms(4) by (intro mwf_entries) (simp add: readable_def)
  have "s \<in> asked U (NewResourceQuotaTransformer b) ns name k \<longleftrightarrow>
      (\<exists>a v. mget (ns_Annotations ns) a = Some v \<and> asks U (NewResourceQuotaTransformer b) (a, v) name \<lparr>kv_k = k, kv_v = s\<rparr>)"
    unfolding asked_def m [symmetric] by auto
  then show ?thesis unfolding asks_quota [OF assms(1-3)] ex_renamed by simp
qed

lemma asked_storage:
  assumes "b = ResourceQuotaAnnotationBase r \<or> b = ResourceQuotaAnnotationBase r @ ''/''"
    and "\<not> HasSuffix (ResourceQuotaAnnotationBase r) ''/''" and "CHR ''.'' \<notin> set name"
    and "readable U r ns name" and "Contains k storageClassPart"
  shows "s \<in> asked U (NewResourceQuotaTransformer b) ns name k \<longleftrightarrow>
    (\<exists>v conf. mget (ns_Annotations ns) (quotaAnnotation r name ''storageclasses'') = Some v \<and>
       unmarshalStringMap U v = Inr conf \<and> (k, s) \<in> set (entries conf))"
proof -
  have "k \<noteq> ReplaceAll key (CHR ''_'') ''/''"
    if "mget (ns_Annotations ns) (quotaAnnotation r name key) = Some v" "key \<noteq> ''storageclasses''" for key v
    using readableD(3) [OF assms(4) that(1)] that(2) assms(5) by auto
  with assms(5) show ?thesis unfolding asked_iff [OF assms(1-4)] by metis
qed

lemma asked_plain:
  assumes "b = ResourceQuotaAnnotationBase r \<or> b = ResourceQuotaAnnotationBase r @ ''/''"
    and "\<not> HasSuffix (ResourceQuotaAnnotationBase r) ''/''" and "CHR ''.'' \<notin> set name"
    and "readable U r ns name" and "\<not> Contains k storageClassPart" and "CHR ''_'' \<notin> set k" and "k \<noteq> ''storageclasses''"
  shows "s \<in> asked U (NewResourceQuotaTransformer b) ns name k \<longleftrightarrow>
    mget (ns_Annotations ns) (quotaAnnotation r name (ReplaceAll k (CHR ''/'') ''_'')) = Some s"
proof -
  have key: "key = ReplaceAll k (CHR ''/'') ''_''"
    if "mget (ns_Annotations ns) (quotaAnnotation r name key) = Some v" "key \<noteq> ''storageclasses''" "k = ReplaceAll key (CHR ''_'') ''/''" for key v
  proof -
    have "CHR ''/'' \<notin> set key" using readableD(3) [OF assms(4) that(1,2)] by simp
    then show ?thesis unfolding that(3) by (simp add: ReplaceAll_undo)
  qed
  have undo: "ReplaceAll (ReplaceAll k (CHR ''/'') ''_'') (CHR ''_'') ''/'' = k" using assms(6) by (rule ReplaceAll_undo)
  have "ReplaceAll k (CHR ''/'') ''_'' \<noteq> ''storageclasses''"
  proof
    assume s: "ReplaceAll k (CHR ''/'') ''_'' = ''storageclasses''"
    from undo [unfolded s] assms(7) show False by simp
  qed
  with key undo assms(5) show ?thesis unfolding asked_iff [OF assms(1-4)] by metis
qed

text \<open>The value that the transformer leaves at a resource is one that stands for the limit of the legacy controller.\<close>

lemma annotation_of:
  "storageAnnotation r ns name = mstr (ns_Annotations ns) (quotaAnnotation r name ''storageclasses'')"
  "hardAnnotation r name k = quotaAnnotation r name (ReplaceAll k (CHR ''/'') ''_'')"
  by (simp_all add: storageAnnotation_def hardAnnotation_def quotaAnnotation_def)

text \<open>A limit of a storage class: both read the annotation with all of them.\<close>

lemma asked_effective_storage:
  assumes "b = ResourceQuotaAnnotationBase r \<or> b = ResourceQuotaAnnotationBase r @ ''/''"
    and "\<not> HasSuffix (ResourceQuotaAnnotationBase r) ''/''" and "CHR ''.'' \<notin> set name"
    and "readable U r ns name" and "Contains k storageClassPart"
  shows "if asked U (NewResourceQuotaTransformer b) ns name k = {} then effective r ns name (fst (storageQuotasOf r ns name)) k q = q
    else \<forall>v \<in> asked U (NewResourceQuotaTransformer b) ns name k.
      lq_ParseQuantity r v = Inr (effective r ns name (fst (storageQuotasOf r ns name)) k q)" (is "if ?asd = {} then ?eff = q else _")
proof (cases "mget (ns_Annotations ns) (quotaAnnotation r name ''storageclasses'')")
  case None
  then have "s \<notin> ?asd" for s by (simp add: asked_storage [OF assms])
  then have "?asd = {}" by blast
  moreover have "?eff = q" using None assms(5) by (simp add: effective_def storageQuotasOf_def annotation_of mstr_def storageClassPart_def)
  ultimately show ?thesis by simp
next
  case (Some sv)
  then obtain conf m where c: "unmarshalStringMap U sv = Inr conf" "mwf conf" "lq_unmarshalResourceList r sv = Inr m"
    and rel: "rel_option (\<lambda>s q. lq_ParseQuantity r s = Inr q) (mget conf k) (mget m k)"
    using readableD(2) [OF assms(4) Some refl] by blast
  have e: "?eff = (case mget m k of None \<Rightarrow> q | Some q \<Rightarrow> q)" using assms(5) Some c readableD(1) [OF assms(4) Some]
    by (simp add: effective_def storageQuotasOf_def annotation_of mstr_def storageClassPart_def)
  have "s \<in> ?asd \<longleftrightarrow> mget conf k = Some s" for s using Some c by (simp add: asked_storage [OF assms] mwf_entries)
  then have "?asd = set_option (mget conf k)" by auto
  with rel e show ?thesis by (cases "mget conf k"; cases "mget m k") simp_all
qed

text \<open>Any other limit: both read the annotation with its name.\<close>

lemma asked_effective_plain:
  assumes "b = ResourceQuotaAnnotationBase r \<or> b = ResourceQuotaAnnotationBase r @ ''/''"
    and "\<not> HasSuffix (ResourceQuotaAnnotationBase r) ''/''" and "CHR ''.'' \<notin> set name"
    and "readable U r ns name" and "\<not> Contains k storageClassPart" and "CHR ''_'' \<notin> set k" and "k \<noteq> ''storageclasses''"
  shows "if asked U (NewResourceQuotaTransformer b) ns name k = {} then effective r ns name (fst (storageQuotasOf r ns name)) k q = q
    else \<forall>v \<in> asked U (NewResourceQuotaTransformer b) ns name k.
      lq_ParseQuantity r v = Inr (effective r ns name (fst (storageQuotasOf r ns name)) k q)" (is "if ?asd = {} then ?eff = q else _")
proof (cases "mget (ns_Annotations ns) (quotaAnnotation r name (ReplaceAll k (CHR ''/'') ''_''))")
  case None
  then have "s \<notin> ?asd" for s by (simp add: asked_plain [OF assms])
  then have "?asd = {}" by blast
  moreover have "?eff = q" using None assms(5) by (simp add: effective_def annotation_of mstr_def storageClassPart_def)
  ultimately show ?thesis by simp
next
  case (Some pv)
  have "ReplaceAll k (CHR ''/'') ''_'' \<noteq> ''storageclasses''" using ReplaceAll_undo [OF assms(6), of "CHR ''/''"] assms(7) by auto
  with readableD [OF assms(4) Some] obtain q' where c: "pv \<noteq> []" "lq_ParseQuantity r pv = Inr q'" by blast
  have "?eff = q'" using assms(5) Some c by (simp add: effective_def annotation_of mstr_def storageClassPart_def)
  moreover have "s \<in> ?asd \<longleftrightarrow> s = pv" for s using Some by (auto simp: asked_plain [OF assms])
  ultimately show ?thesis using c by auto
qed

lemma asked_effective:
  assumes "b = ResourceQuotaAnnotationBase r \<or> b = ResourceQuotaAnnotationBase r @ ''/''"
    and "\<not> HasSuffix (ResourceQuotaAnnotationBase r) ''/''" and "CHR ''.'' \<notin> set name"
    and "readable U r ns name" and "CHR ''_'' \<notin> set k" and "k \<noteq> ''storageclasses''"
  shows "asked U (NewResourceQuotaTransformer b) ns name k = {} \<Longrightarrow> effective r ns name (fst (storageQuotasOf r ns name)) k q = q"
    and "v \<in> asked U (NewResourceQuotaTransformer b) ns name k \<Longrightarrow>
      lq_ParseQuantity r v = Inr (effective r ns name (fst (storageQuotasOf r ns name)) k q)"
proof -
  have "if asked U (NewResourceQuotaTransformer b) ns name k = {} then effective r ns name (fst (storageQuotasOf r ns name)) k q = q
    else \<forall>v \<in> asked U (NewResourceQuotaTransformer b) ns name k.
      lq_ParseQuantity r v = Inr (effective r ns name (fst (storageQuotasOf r ns name)) k q)"
    using asked_effective_storage [OF assms(1-4)] asked_effective_plain [OF assms(1-4) _ assms(5,6)] by blast
  then show "asked U (NewResourceQuotaTransformer b) ns name k = {} \<Longrightarrow> effective r ns name (fst (storageQuotasOf r ns name)) k q = q"
    and "v \<in> asked U (NewResourceQuotaTransformer b) ns name k \<Longrightarrow>
      lq_ParseQuantity r v = Inr (effective r ns name (fst (storageQuotasOf r ns name)) k q)"
    by (auto split: if_splits)
qed

section \<open>Properties\<close>

text \<open>
  C13: How the limits of the legacy controller and of the transformer compare. If the ResourceQuota of the profile has exactly the
  limits of the legacy default, written as strings, and the annotations of the namespace can be read, then for every resource: a limit
  that the legacy controller stores is the one that the transformed object has, overridden or not, those of storage classes
  included; a resource that the legacy controller does not limit is not limited by the transformed object either, unless an
  annotation names it: the transformer then adds the limit that the annotation asks for, while the legacy controller
  ignores annotations of resources without a default. The name of the quota has no dot and the resource no underscore.
\<close>

theorem legacy_and_profile_agree:
  assumes "b = ResourceQuotaAnnotationBase r \<or> b = ResourceQuotaAnnotationBase r @ ''/''"
    and "\<not> HasSuffix (ResourceQuotaAnnotationBase r) ''/''" and "CHR ''.'' \<notin> set name" and "readable U r ns name"
    and "lq_quota_ref_ok (lq_ControlQuota r)" and "is_order ord" and "mwf (rqs_Hard dflt)"
    and "quota_mutate ord r ns name (fst (storageQuotasOf r ns name)) rq (dflt, errs) = (rq', st, None)"
    and "is_order ord1" and "is_order ord2" and "nested_ok U" and "us_GVK U u = resourceQuotaV1gvk" and "us_GetName U u = name"
    and "Transform E U ord1 ord2 (NewResourceQuotaTransformer b) u ns = (u', e)"
    and "jget resourceQuotaSpecHardPath u = Some (JObj hard)"
    and "\<And>k. case mget (rqs_Hard dflt) k of None \<Rightarrow> map_of hard k = None
          | Some q \<Rightarrow> \<exists>s. map_of hard k = Some (JStr s) \<and> lq_ParseQuantity r s = Inr q"
    and "CHR ''_'' \<notin> set k" and "k \<noteq> ''storageclasses''"
  shows "\<exists>hard'. jget resourceQuotaSpecHardPath u' = Some (JObj hard') \<and>
    (case mget (rqs_Hard (rqo_Spec rq')) k of
       Some q \<Rightarrow> \<exists>s. map_of hard' k = Some (JStr s) \<and> lq_ParseQuantity r s = Inr q
     | None \<Rightarrow>
         if asked U (NewResourceQuotaTransformer b) ns name k = {} then map_of hard' k = None
         else \<exists>s \<in> asked U (NewResourceQuotaTransformer b) ns name k. map_of hard' k = Some (JStr s))"
proof -
  let ?a = "asked U (NewResourceQuotaTransformer b) ns name k"
  obtain hard' where h: "jget resourceQuotaSpecHardPath u' = Some (JObj hard')"
    and v: "if ?a = {} then map_of hard' k = map_of hard k else \<exists>s \<in> ?a. map_of hard' k = Some (JStr s)"
    using Transform_hard(1) [OF assms(9-11,14,12,15)] assms(13) by blast
  obtain spec errs' where "quota_mutate ord r ns name (fst (storageQuotasOf r ns name)) rq (dflt, errs) = (rq', (spec, errs'), None)"
    using assms(8) by (cases st) auto
  from quota_mutate_spec [OF assms(5-7) this] have
    w: "mget (rqs_Hard (rqo_Spec rq')) k = map_option (effective r ns name (fst (storageQuotasOf r ns name)) k) (mget (rqs_Hard dflt) k)"
    by (simp add: quota_as_wanted_def)
  show ?thesis
  proof (cases "mget (rqs_Hard dflt) k")
    case None
    with assms(16) [of k] w h v show ?thesis by simp
  next
    case (Some q0)
    note eff = asked_effective [OF assms(1-4,17,18), where q = q0]
    from v eff assms(16) [of k] w Some h show ?thesis by (cases "?a = {}") auto
  qed
qed

section \<open>Witnesses\<close>

lemma sample_readable: "readable sample_unstr sample_lq sample_lq_ns ''q''"
proof -
  have f: "mget (ns_Annotations sample_lq_ns) a = (if a = ''b/q.pods'' then Some ''22'' else None)" "mwf (ns_Annotations sample_lq_ns)"
    "lq_ParseQuantity sample_lq v = Inr (length v)" "quotaAnnotation sample_lq ''q'' key = ''b/q.pods'' \<longleftrightarrow> key = ''pods''" for a v key
    by (auto simp: sample_lq_ns_def sample_lq_def quotaAnnotation_def)
  have "\<not> Contains (ReplaceAll ''pods'' (CHR ''_'') ''/'') storageClassPart"
    by (simp add: storageClassPart_def Contains_def HasPrefix_def)
  then show ?thesis using f(2) unfolding readable_def f(1,3,4) by (simp split: if_splits)
qed

definition migrated_quota :: json where
  "migrated_quota = JObj [(''kind'', JStr ''ResourceQuota''), (''metadata'', JObj [(''name'', JStr ''q'')]),
     (''spec'', JObj [(''hard'', JObj [(''pods'', JStr ''1''), (''secrets'', JStr ''55555'')])])]"

theorem legacy_and_profile_agree_witness:
  "\<exists>hard' s. jget resourceQuotaSpecHardPath
       (fst (Transform sample_ext sample_unstr (\<lambda>al. al) (\<lambda>al. al) (NewResourceQuotaTransformer ''b'') migrated_quota sample_lq_ns)) =
     Some (JObj hard') \<and> map_of hard' ''pods'' = Some (JStr s) \<and> length s = 2"
proof -
  obtain u' e where t: "Transform sample_ext sample_unstr (\<lambda>al. al) (\<lambda>al. al) (NewResourceQuotaTransformer ''b'') migrated_quota sample_lq_ns = (u', e)"
    by (cases "Transform sample_ext sample_unstr (\<lambda>al. al) (\<lambda>al. al) (NewResourceQuotaTransformer ''b'') migrated_quota sample_lq_ns")
  have b: "''b'' = ResourceQuotaAnnotationBase sample_lq \<or> ''b'' = ResourceQuotaAnnotationBase sample_lq @ ''/''"
    "\<not> HasSuffix (ResourceQuotaAnnotationBase sample_lq) ''/''" "CHR ''.'' \<notin> set ''q''"
    by (simp_all add: sample_lq_def HasSuffix_def)
  have c: "lq_quota_ref_ok (lq_ControlQuota sample_lq)" "mwf (rqs_Hard sample_lq_spec)"
    using sample_lq_ok by (simp_all add: lq_ok_def sample_lq_spec_def)
  have "\<exists>rq' st. quota_mutate (\<lambda>al. al) sample_lq sample_lq_ns ''q'' (fst (storageQuotasOf sample_lq sample_lq_ns ''q''))
      (newQuota sample_lq_ns ''q'') (sample_lq_spec, []) = (rq', st, None) \<and> mget (rqs_Hard (rqo_Spec rq')) ''pods'' = Some 2"
    by (simp add: quota_mutate_def hardStep_def hardAnnotation_def newQuota_def sample_lq_spec_def Contains_def HasPrefix_def
       mstr_def Let_def sample_lq_def sample_lq_ns_def)
  then obtain rq' st where m: "quota_mutate (\<lambda>al. al) sample_lq sample_lq_ns ''q'' (fst (storageQuotasOf sample_lq sample_lq_ns ''q''))
      (newQuota sample_lq_ns ''q'') (sample_lq_spec, []) = (rq', st, None)" and q: "mget (rqs_Hard (rqo_Spec rq')) ''pods'' = Some 2" by blast
  have g: "us_GVK sample_unstr migrated_quota = resourceQuotaV1gvk" "us_GetName sample_unstr migrated_quota = ''q''"
    by (simp_all add: sample_unstr_def migrated_quota_def resourceQuotaV1gvk_def getString_def)
  have h: "jget resourceQuotaSpecHardPath migrated_quota = Some (JObj [(''pods'', JStr ''1''), (''secrets'', JStr ''55555'')])"
    by (simp add: resourceQuotaSpecHardPath_def migrated_quota_def)
  have d: "case mget (rqs_Hard sample_lq_spec) k of None \<Rightarrow> map_of [(''pods'', JStr ''1''), (''secrets'', JStr ''55555'')] k = None
      | Some q \<Rightarrow> \<exists>s. map_of [(''pods'', JStr ''1''), (''secrets'', JStr ''55555'')] k = Some (JStr s) \<and> lq_ParseQuantity sample_lq s = Inr q" for k
    by (auto simp: sample_lq_spec_def sample_lq_def split: option.split)
  have k: "CHR ''_'' \<notin> set ''pods''" "''pods'' \<noteq> ''storageclasses''" by simp_all
  from legacy_and_profile_agree [OF b sample_readable c(1) is_order_id c(2) m is_order_id is_order_id sample_unstr_nested g t h d k] q t
  show ?thesis by (auto simp: sample_lq_def)
qed

end
