(* ===== verification/QuotaSharing.thy ===== *)
theory QuotaSharing
  imports LegacyQuota
begin

text \<open>
  controllers/legacy_resource_quota_controller.go once more, with the store of maps that Go programs share. The hard limits
  of a default spec are a map that the controller keeps for all reconciliations, and the callback for a quota
  writes to the map of its copy of the spec. Theory \<open>LegacyQuota\<close> works with values; here it is shown that the code
  with its shared maps does the same, because it writes to deep copies only.
\<close>

section \<open>Specs that refer to maps\<close>

text \<open>The store is the list of the maps that have been made; an address is an index into it.\<close>

type_synonym 'q heap = "(string \<times> 'q) list list"

record HeapSpec =
  hs_Hard :: "nat option"
  hs_Scopes :: "string list"
  hs_ScopeSelector :: "json option"

definition cell :: "'q heap \<Rightarrow> nat \<Rightarrow> (string \<times> 'q) list" where
  "cell h a = (if a < length h then h ! a else [])"

text \<open>The value that a spec stands for.\<close>

definition deref :: "'q heap \<Rightarrow> HeapSpec \<Rightarrow> 'q ResourceQuotaSpec" where
  "deref h s = \<lparr>rqs_Hard = map_option (cell h) (hs_Hard s), rqs_Scopes = hs_Scopes s, rqs_ScopeSelector = hs_ScopeSelector s\<rparr>"

definition allocated :: "'q heap \<Rightarrow> HeapSpec \<Rightarrow> bool" where
  "allocated h s \<longleftrightarrow> (\<forall>a. hs_Hard s = Some a \<longrightarrow> a < length h)"

text \<open>The store has grown, and no map that was there has changed.\<close>

definition extends :: "'c list \<Rightarrow> 'c list \<Rightarrow> bool" where
  "extends h h' \<longleftrightarrow> take (length h) h' = h"

text \<open>\<open>ResourceQuotaSpec.DeepCopy\<close> (k8s.io/api): an equal spec with a map of its own; no map that was there changes.\<close>

type_synonym 'q deep_copy = "HeapSpec \<Rightarrow> 'q heap \<Rightarrow> HeapSpec \<times> 'q heap"

definition deep_copy_ok :: "'q deep_copy \<Rightarrow> bool" where
  "deep_copy_ok dc \<longleftrightarrow> (\<forall>s h s' h'. dc s h = (s', h') \<longrightarrow>
     deref h' s' = deref h s \<and> (\<forall>a. hs_Hard s' = Some a \<longrightarrow> length h \<le> a \<and> a < length h') \<and> extends h h')"

section \<open>The controller on the store\<close>

text \<open>One assignment \<open>spec.Hard[k] = ...\<close>, and the callback, which captures the store and the list of errors.\<close>

definition hardStepH ::
    "('w, 'q, 'l) LegacyResourceQuotaReconciler \<Rightarrow> Namespace \<Rightarrow> string \<Rightarrow> 'q gomap \<Rightarrow> nat
      \<Rightarrow> 'q heap \<times> err list \<Rightarrow> string \<Rightarrow> 'q heap \<times> err list" where
  "hardStepH r ns name storageQuotas a = (\<lambda>(h, errs) k.
     (let an = hardAnnotation r name k; v = mstr (ns_Annotations ns) an
      in if Contains k ''storageclass.storage.k8s.io'' then
           (case mget storageQuotas k of None \<Rightarrow> (h, errs) | Some q \<Rightarrow> (h[a := AList.update k q (cell h a)], errs))
         else if v \<noteq> [] then
           (case lq_ParseQuantity r v of
              Inl err \<Rightarrow> (h, errs @ [WrapErr (''failed to parse quantity '' @ an @ ''='' @ v @ '': '') err []])
            | Inr po \<Rightarrow> (h[a := AList.update k po (cell h a)], errs))
         else (h, errs)))"

definition quota_mutateH ::
    "'q order \<Rightarrow> ('w, 'q, 'l) LegacyResourceQuotaReconciler \<Rightarrow> Namespace \<Rightarrow> string \<Rightarrow> 'q gomap \<Rightarrow> HeapSpec
      \<Rightarrow> ('q ResourceQuota, 'q heap \<times> err list) MutateFn" where
  "quota_mutateH ord r ns name storageQuotas spec = (\<lambda>rq (h, errs).
     (case (case hs_Hard spec of
              None \<Rightarrow> (h, errs)
            | Some a \<Rightarrow> foldl (hardStepH r ns name storageQuotas a) (h, errs) (map fst (ord (cell h a)))) of
        (h, errs) \<Rightarrow>
          (case lq_ControlQuota r ns (rq\<lparr>rqo_Spec := deref h spec\<rparr>) of (rq, err) \<Rightarrow> (rq, (h, errs), err))))"

fun quotaLoopH ::
    "'q deep_copy \<Rightarrow> ('w, 'q ResourceQuota, 'q heap \<times> err list) CreateOrUpdate
      \<Rightarrow> (string \<Rightarrow> 'q order) \<Rightarrow> ('w, 'q, 'l) LegacyResourceQuotaReconciler \<Rightarrow> Namespace
      \<Rightarrow> (string \<times> HeapSpec) list \<Rightarrow> 'w \<times> 'q heap \<times> err list \<Rightarrow> 'w \<times> 'q heap \<times> err list" where
  "quotaLoopH dc cou ord r ns [] st = st"
| "quotaLoopH dc cou ord r ns ((name, s) # rest) (w, h, errs) =
     (case dc s h of (spec, h1) \<Rightarrow>
       (case storageQuotasOf r ns name of
          (storageQuotas, errs1) \<Rightarrow>
            (case cou (newQuota ns name) (quota_mutateH (ord name) r ns name storageQuotas spec) (h1, errs @ errs1) w of
               (w', rq, (h', errs'), op, None) \<Rightarrow> quotaLoopH dc cou ord r ns rest (w', h', errs')
             | (w', rq, (h', errs'), op, Some err) \<Rightarrow>
                 quotaLoopH dc cou ord r ns rest
                   (w', h', errs' @ [WrapErr (''failed to reconcile ResourceQuota '' @ name @ '': '') err []]))))"

definition lq_ReconcileH ::
    "ext \<Rightarrow> 'q deep_copy \<Rightarrow> ('w, 'q ResourceQuota, 'q heap \<times> err list) CreateOrUpdate \<Rightarrow> HeapSpec order \<Rightarrow> (string \<Rightarrow> 'q order)
      \<Rightarrow> ('w, 'q, 'l) LegacyResourceQuotaReconciler \<Rightarrow> HeapSpec gomap \<Rightarrow> CtrlRequest
      \<Rightarrow> 'w \<times> 'q heap \<Rightarrow> ('w \<times> 'q heap) \<times> Event list \<times> err option" where
  "lq_ReconcileH E dc cou ord ord' r defaults req = (\<lambda>(w, h). case lq_getNamespace r (req_Name req) w of
      Inl err \<Rightarrow> ((w, h), [], IgnoreNotFound err)
    | Inr ns \<Rightarrow>
        if ns_DeletionTimestamp ns \<noteq> None then ((w, h), [], None)
        else if mget (ns_Labels ns) (lq_OrganizationLabel r) = None then ((w, h), [], None)
        else (case quotaLoopH dc cou ord' r ns (ord (entries defaults)) (w, h, []) of
          (w1, h', errs1) \<Rightarrow>
            (case putLimitRange r ns (w1, errs1) of
              (w', errs) \<Rightarrow>
                (case multierr_Combine E (map Some errs) of
                   None \<Rightarrow> ((w', h'), [], None)
                 | Some err \<Rightarrow>
                     ((w', h'), [\<lparr>ev_Kind = ''Namespace'', ev_Namespace = [], ev_Name = ns_Name ns, ev_Type = ''Warning'',
                            ev_Reason = ''ReconcileError'',
                            ev_Message = ''Failed to reconcile ResourceQuotas and LimitRanges: '' @ Error err\<rparr>],
                      Some (WrapErr ''failed to reconcile ResourceQuotas and LimitRanges: '' err []))))))"

text \<open>
  \<open>CreateOrUpdate\<close> knows nothing of the variables that a callback captures: a callback that does the same on
  another representation of them leads to the same result.
\<close>

definition cou_natural :: "('w, 'o, 's) CreateOrUpdate \<Rightarrow> ('w, 'o, 't) CreateOrUpdate \<Rightarrow> bool" where
  "cou_natural cou cou' \<longleftrightarrow> (\<forall>view obj f g s w.
     (\<forall>x. f x (view s) = (case g x s of (x', s', e) \<Rightarrow> (x', view s', e))) \<longrightarrow>
     cou obj f (view s) w = (case cou' obj g s w of (w', x', s', op, e) \<Rightarrow> (w', x', view s', op, e)))"

text \<open>A call leaves the captured variables as they are or as the callback left them.\<close>

definition cou_captures :: "('w, 'o, 's) CreateOrUpdate \<Rightarrow> bool" where
  "cou_captures cou \<longleftrightarrow> (\<forall>obj f s w w' obj' s' op e. cou obj f s w = (w', obj', s', op, e) \<longrightarrow> s' = s \<or> (\<exists>x. s' = fst (snd (f x s))))"

section \<open>Writes go to the copy\<close>

lemma cell_upd: "a < length h \<Longrightarrow> cell (h[a := m]) a = m"
  by (simp add: cell_def)

text \<open>Only the map at \<open>a\<close> has changed, so the maps that were made before it have not.\<close>

definition wrote :: "nat \<Rightarrow> 'q heap \<Rightarrow> 'q heap \<Rightarrow> bool" where
  "wrote a h h' \<longleftrightarrow> length h' = length h \<and> take a h' = take a h"

lemma extends_refl: "extends h h"
  by (simp add: extends_def)

lemma extends_append: "extends h h' \<longleftrightarrow> (\<exists>new. h' = h @ new)"
proof
  assume "extends h h'"
  then have "h' = h @ drop (length h) h'" using append_take_drop_id [of "length h" h'] by (simp add: extends_def)
  then show "\<exists>new. h' = h @ new" ..
qed (auto simp: extends_def)

lemma extends_trans: "extends h h1 \<Longrightarrow> extends h1 h2 \<Longrightarrow> extends h h2"
  by (auto simp: extends_append)

lemma extends_wrote:
  assumes "extends h h1" and "wrote a h1 h2" and "length h \<le> a"
  shows "extends h h2"
proof -
  have "take (length h) h2 = take (length h) (take a h2)" using assms(3) by (simp add: min_absorb1)
  also have "\<dots> = take (length h) h1" using assms(2,3) by (simp add: wrote_def min_absorb1)
  finally show ?thesis using assms(1) by (simp add: extends_def)
qed

lemma extends_allocated:
  assumes "extends h h'" and "allocated h s"
  shows "allocated h' s" and "deref h' s = deref h s"
proof -
  obtain new where h': "h' = h @ new" using assms(1) by (auto simp: extends_append)
  show "allocated h' s" using assms(2) by (auto simp: allocated_def h')
  show "deref h' s = deref h s"
    using assms(2) by (cases "hs_Hard s") (simp_all add: deref_def cell_def allocated_def h' nth_append)
qed

lemma hardStepH_step:
  assumes "a < length h" and "hardStepH r ns name sq a (h, errs) k = (h', errs')"
  shows "hardStep r ns name sq (cell h a, errs) k = (cell h' a, errs') \<and> wrote a h h'"
  using assms by (auto simp: hardStepH_def hardStep_def Let_def cell_upd wrote_def split: if_splits option.splits sum.splits)

lemma hardStepH_foldl:
  assumes "a < length h" and "foldl (hardStepH r ns name sq a) (h, errs) ks = (h', errs')"
  shows "foldl (hardStep r ns name sq) (cell h a, errs) ks = (cell h' a, errs') \<and> wrote a h h'"
  using assms
proof (induction ks arbitrary: h errs)
  case (Cons k ks)
  obtain h1 errs1 where s: "hardStepH r ns name sq a (h, errs) k = (h1, errs1)" by (cases "hardStepH r ns name sq a (h, errs) k")
  note st = hardStepH_step [OF Cons.prems(1) s]
  have "a < length h1" using st Cons.prems(1) by (simp add: wrote_def)
  from Cons.IH [OF this, of errs1] st Cons.prems(2) s show ?case by (simp add: wrote_def)
qed (simp add: wrote_def)

text \<open>The callback on the store does what the callback on values does, and writes to the map of its spec only.\<close>

lemma quota_mutateH_value:
  assumes "is_order ord" and "allocated h spec" and "quota_mutateH ord r ns name sq spec rq (h, errs) = (rq', (h', errs'), e)"
  shows "quota_mutate ord r ns name sq rq (deref h spec, errs) = (rq', (deref h' spec, errs'), e) \<and>
    (case hs_Hard spec of None \<Rightarrow> h' = h | Some a \<Rightarrow> wrote a h h')"
proof (cases "hs_Hard spec")
  case None
  have e: "ord [] = []" using assms(1) by (metis is_order_set set_empty)
  from None have n: "entries (rqs_Hard (deref h spec)) = []" "(deref h spec)\<lparr>rqs_Hard := map_option f (rqs_Hard (deref h spec))\<rparr> = deref h spec"
    for f by (simp_all add: deref_def)
  from None assms(3) have "h' = h" "errs' = errs" "lq_ControlQuota r ns (rq\<lparr>rqo_Spec := deref h spec\<rparr>) = (rq', e)"
    by (auto simp: quota_mutateH_def split: prod.splits)
  with n e None show ?thesis by (simp add: quota_mutate_def Let_def)
next
  case (Some a)
  then have a: "a < length h" using assms(2) by (simp add: allocated_def)
  obtain h1 errs1 where f: "foldl (hardStepH r ns name sq a) (h, errs) (map fst (ord (cell h a))) = (h1, errs1)"
    by (cases "foldl (hardStepH r ns name sq a) (h, errs) (map fst (ord (cell h a)))")
  note st = hardStepH_foldl [OF a f]
  from assms(3) Some f have "h' = h1" "errs' = errs1" "lq_ControlQuota r ns (rq\<lparr>rqo_Spec := deref h1 spec\<rparr>) = (rq', e)"
    by (auto simp: quota_mutateH_def split: prod.splits)
  moreover have "(deref h spec)\<lparr>rqs_Hard := map_option (\<lambda>_. cell h1 a) (rqs_Hard (deref h spec))\<rparr> = deref h1 spec"
    using Some by (simp add: deref_def)
  moreover have "entries (rqs_Hard (deref h spec)) = cell h a" using Some by (simp add: deref_def)
  ultimately show ?thesis using st Some by (simp add: quota_mutate_def Let_def)
qed

text \<open>One quota, whose callback writes to a spec of its own.\<close>

lemma cou_quotaH_value:
  assumes "cou_natural (lq_CreateOrUpdateQuota r) cou" and "cou_captures cou" and "is_order ord" and "allocated h spec"
    and "cou obj (quota_mutateH ord r ns name sq spec) (h, errs) w = (w', rq, (h', errs'), op, e)"
  shows "lq_CreateOrUpdateQuota r obj (quota_mutate ord r ns name sq) (deref h spec, errs) w = (w', rq, (deref h' spec, errs'), op, e)"
    and "h' = h \<or> (\<exists>a. hs_Hard spec = Some a \<and> wrote a h h')"
proof -
  let ?g = "quota_mutateH ord r ns name sq spec" and ?f = "quota_mutate ord r ns name sq"
  let ?view = "\<lambda>(g, es). (deref g spec, es)"
  have "?f rq0 (?view (h, errs)) = (case ?g rq0 (h, errs) of (rq1, s', fe) \<Rightarrow> (rq1, ?view s', fe))" for rq0
  proof -
    obtain rq1 g es fe where g: "?g rq0 (h, errs) = (rq1, (g, es), fe)" by (cases "?g rq0 (h, errs)") auto
    with quota_mutateH_value [OF assms(3,4) g] show ?thesis by simp
  qed
  then have "lq_CreateOrUpdateQuota r obj ?f (?view (h, errs)) w = (w', rq, ?view (h', errs'), op, e)"
    using assms(1) [unfolded cou_natural_def, rule_format, of ?f ?view "(h, errs)" ?g obj w] assms(5) by simp
  then show "lq_CreateOrUpdateQuota r obj ?f (deref h spec, errs) w = (w', rq, (deref h' spec, errs'), op, e)" by simp
  from assms(2) [unfolded cou_captures_def, rule_format, OF assms(5)]
  consider "h' = h" | rq0 where "(h', errs') = fst (snd (?g rq0 (h, errs)))" by blast
  then show "h' = h \<or> (\<exists>a. hs_Hard spec = Some a \<and> wrote a h h')"
  proof cases
    case (2 rq0)
    then obtain rq1 fe where "?g rq0 (h, errs) = (rq1, (h', errs'), fe)" by (cases "?g rq0 (h, errs)") auto
    from quota_mutateH_value [OF assms(3,4) this] show ?thesis by (cases "hs_Hard spec") auto
  qed simp
qed

lemma quotaLoopH_value:
  assumes "deep_copy_ok dc" and "cou_natural (lq_CreateOrUpdateQuota r) cou" and "cou_captures cou" and "\<And>n. is_order (ord n)"
  shows "\<forall>(name, s) \<in> set al. allocated h s \<Longrightarrow> quotaLoopH dc cou ord r ns al (w, h, errs) = (w', h', errs') \<Longrightarrow>
    quotaLoop ord r ns (map (apsnd (deref h)) al) (w, errs) = (w', errs') \<and> extends h h'"
proof (induction al arbitrary: w h errs)
  case (Cons x al)
  obtain name s where x: "x = (name, s)" by (cases x)
  obtain spec h1 where d: "dc s h = (spec, h1)" by (cases "dc s h")
  obtain sq errs1 where q: "storageQuotasOf r ns name = (sq, errs1)" by (cases "storageQuotasOf r ns name")
  let ?g = "quota_mutateH (ord name) r ns name sq spec" and ?f = "quota_mutate (ord name) r ns name sq"
  obtain w2 rq h2 errs2 op e where c: "cou (newQuota ns name) ?g (h1, errs @ errs1) w = (w2, rq, (h2, errs2), op, e)"
    by (cases "cou (newQuota ns name) ?g (h1, errs @ errs1) w") auto
  from assms(1) d have dc: "deref h1 spec = deref h s" "\<And>a. hs_Hard spec = Some a \<Longrightarrow> length h \<le> a \<and> a < length h1"
    "extends h h1" by (auto simp: deep_copy_ok_def)
  then have "allocated h1 spec" by (simp add: allocated_def)
  note v = cou_quotaH_value [OF assms(2,3,4) this c]
  have p: "lq_CreateOrUpdateQuota r (newQuota ns name) ?f (deref h s, errs @ errs1) w = (w2, rq, (deref h2 spec, errs2), op, e)"
    using v(1) dc(1) by simp
  have h2: "extends h h2" using v(2) dc(2,3) extends_wrote [OF dc(3)] by auto
  have same: "allocated h2 s' \<and> deref h2 s' = deref h s'" if "allocated h s'" for s'
    using extends_allocated [OF h2 that] by simp
  have al2: "\<forall>(n, s') \<in> set al. allocated h2 s'" and m: "map (apsnd (deref h2)) al = map (apsnd (deref h)) al"
    using Cons.prems(1) same by (auto simp: apsnd_def map_prod_def)
  define errs3 where "errs3 = (case e of None \<Rightarrow> errs2 | Some err \<Rightarrow> errs2 @ [WrapErr (''failed to reconcile ResourceQuota '' @ name @ '': '') err []])"
  have "quotaLoopH dc cou ord r ns al (w2, h2, errs3) = (w', h', errs')"
    using Cons.prems(2) x d q c by (cases e) (simp_all add: errs3_def)
  from Cons.IH [OF al2 this] m have IH: "quotaLoop ord r ns (map (apsnd (deref h)) al) (w2, errs3) = (w', errs')" "extends h2 h'"
    by simp_all
  from IH(1) p x q have "quotaLoop ord r ns (map (apsnd (deref h)) (x # al)) (w, errs) = (w', errs')"
    by (cases e) (simp_all add: errs3_def)
  with extends_trans [OF h2 IH(2)] show ?case by blast
qed (simp add: extends_refl)

section \<open>One reconciliation, and many\<close>

text \<open>The defaults as values.\<close>

definition derefs :: "'q heap \<Rightarrow> HeapSpec gomap \<Rightarrow> 'q ResourceQuotaSpec gomap" where
  "derefs h = map_option (map (apsnd (deref h)))"

definition defaults_allocated :: "'q heap \<Rightarrow> HeapSpec gomap \<Rightarrow> bool" where
  "defaults_allocated h defaults \<longleftrightarrow> (\<forall>(name, s) \<in> set (entries defaults). allocated h s)"

lemma entries_derefs: "entries (derefs h defaults) = map (apsnd (deref h)) (entries defaults)"
  by (cases defaults) (simp_all add: derefs_def)

lemma defaults_mono:
  assumes "extends h h'" and "defaults_allocated h defaults"
  shows "defaults_allocated h' defaults" and "derefs h' defaults = derefs h defaults"
proof -
  have *: "allocated h' s \<and> deref h' s = deref h s" if "(name, s) \<in> set (entries defaults)" for name s
    using extends_allocated [OF assms(1)] assms(2) that by (auto simp: defaults_allocated_def)
  show "defaults_allocated h' defaults" using * by (auto simp: defaults_allocated_def)
  have "map (apsnd (deref h')) (entries defaults) = map (apsnd (deref h)) (entries defaults)" using * by auto
  then show "derefs h' defaults = derefs h defaults" by (cases defaults) (simp_all add: derefs_def)
qed

text \<open>The order of the range over the defaults, as an order of their values.\<close>

definition valueOrder :: "'q heap \<Rightarrow> HeapSpec gomap \<Rightarrow> HeapSpec order \<Rightarrow> 'q ResourceQuotaSpec order" where
  "valueOrder h defaults ord al =
     (if al = map (apsnd (deref h)) (entries defaults) then map (apsnd (deref h)) (ord (entries defaults)) else al)"

lemma is_order_valueOrder:
  assumes "is_order ord"
  shows "is_order (valueOrder h defaults ord)"
  using assms by (simp add: is_order_def valueOrder_def)

lemma lq_ReconcileH_value:
  assumes "deep_copy_ok dc" and "cou_natural (lq_CreateOrUpdateQuota r) cou" and "cou_captures cou"
    and "is_order ord" and "\<And>n. is_order (ord' n)"
    and "defaults_allocated h defaults" and "DefaultResourceQuotas r = derefs h defaults"
    and "lq_ReconcileH E dc cou ord ord' r defaults req (w, h) = ((w', h'), out)"
  shows "lq_Reconcile E (valueOrder h defaults ord) ord' r req w = (w', out)"
    and "extends h h'"
proof -
  have al: "\<forall>(name, s) \<in> set (ord (entries defaults)). allocated h s"
    using assms(6) is_order_set [OF assms(4)] by (simp add: defaults_allocated_def)
  have en: "valueOrder h defaults ord (entries (DefaultResourceQuotas r)) = map (apsnd (deref h)) (ord (entries defaults))"
    by (simp add: assms(7) entries_derefs valueOrder_def)
  have "lq_Reconcile E (valueOrder h defaults ord) ord' r req w = (w', out) \<and> extends h h'"
  proof (cases "\<exists>ns. lq_getNamespace r (req_Name req) w = Inr ns \<and> ns_DeletionTimestamp ns = None \<and>
      mget (ns_Labels ns) (lq_OrganizationLabel r) \<noteq> None")
    case True
    then obtain ns v where ns: "lq_getNamespace r (req_Name req) w = Inr ns" "ns_DeletionTimestamp ns = None"
      "mget (ns_Labels ns) (lq_OrganizationLabel r) = Some v" by auto
    obtain w1 h1 errs1 where q: "quotaLoopH dc cou ord' r ns (ord (entries defaults)) (w, h, []) = (w1, h1, errs1)"
      by (cases "quotaLoopH dc cou ord' r ns (ord (entries defaults)) (w, h, [])")
    note v = quotaLoopH_value [OF assms(1-3) assms(5) al q]
    obtain w2 errs2 where p: "putLimitRange r ns (w1, errs1) = (w2, errs2)" by (cases "putLimitRange r ns (w1, errs1)")
    show ?thesis
      using assms(8) ns q p v en
      by (cases "multierr_Combine E (map Some errs2)") (simp_all add: lq_ReconcileH_def lq_Reconcile_def del: quotaLoop.simps quotaLoopH.simps)
  qed (use assms(8) in \<open>auto simp: lq_ReconcileH_def lq_Reconcile_def extends_refl split: sum.splits if_splits\<close>)
  then show "lq_Reconcile E (valueOrder h defaults ord) ord' r req w = (w', out)" and "extends h h'" by simp_all
qed

text \<open>
  A controller lives for many requests. The ranges over maps take an order that the runtime chooses anew each time.
\<close>

inductive lq_runs :: "ext \<Rightarrow> ('w, 'q, 'l) LegacyResourceQuotaReconciler \<Rightarrow> CtrlRequest list \<Rightarrow> 'w
    \<Rightarrow> (Event list \<times> err option) list \<Rightarrow> 'w \<Rightarrow> bool"
  for E r where
  idle: "lq_runs E r [] w [] w"
| served: "is_order ord \<Longrightarrow> (\<And>n. is_order (ord' n)) \<Longrightarrow> lq_Reconcile E ord ord' r req w = (w1, out)
    \<Longrightarrow> lq_runs E r reqs w1 outs w' \<Longrightarrow> lq_runs E r (req # reqs) w (out # outs) w'"

inductive lq_runsH :: "ext \<Rightarrow> 'q deep_copy \<Rightarrow> ('w, 'q ResourceQuota, 'q heap \<times> err list) CreateOrUpdate
    \<Rightarrow> ('w, 'q, 'l) LegacyResourceQuotaReconciler \<Rightarrow> HeapSpec gomap \<Rightarrow> CtrlRequest list \<Rightarrow> 'w \<times> 'q heap
    \<Rightarrow> (Event list \<times> err option) list \<Rightarrow> 'w \<times> 'q heap \<Rightarrow> bool"
  for E dc cou r defaults where
  idleH: "lq_runsH E dc cou r defaults [] st [] st"
| servedH: "is_order ord \<Longrightarrow> (\<And>n. is_order (ord' n)) \<Longrightarrow> lq_ReconcileH E dc cou ord ord' r defaults req st = (st1, out)
    \<Longrightarrow> lq_runsH E dc cou r defaults reqs st1 outs st' \<Longrightarrow> lq_runsH E dc cou r defaults (req # reqs) st (out # outs) st'"

lemma lq_runsH_value:
  assumes "lq_runsH E dc cou r defaults reqs st outs st'"
    and "deep_copy_ok dc" and "cou_natural (lq_CreateOrUpdateQuota r) cou" and "cou_captures cou"
  shows "defaults_allocated (snd st) defaults \<Longrightarrow> DefaultResourceQuotas r = derefs (snd st) defaults \<Longrightarrow>
    lq_runs E r reqs (fst st) outs (fst st') \<and> extends (snd st) (snd st')"
  using assms(1)
proof (induction rule: lq_runsH.induct)
  case (idleH st)
  show ?case by (simp add: lq_runs.idle extends_refl)
next
  case (servedH ord ord' req st st1 out reqs outs st')
  have R: "lq_ReconcileH E dc cou ord ord' r defaults req (fst st, snd st) = ((fst st1, snd st1), out)"
    using servedH.hyps(3) by simp
  note v1 = lq_ReconcileH_value(1) [OF assms(2-4) servedH.hyps(1,2) servedH.prems R]
  note v2 = lq_ReconcileH_value(2) [OF assms(2-4) servedH.hyps(1,2) servedH.prems R]
  from defaults_mono [OF v2 servedH.prems(1)] servedH.prems(2)
  have "lq_runs E r reqs (fst st1) outs (fst st')" and u: "extends (snd st1) (snd st')"
    using servedH.IH by simp_all
  with v1 is_order_valueOrder [OF servedH.hyps(1)] servedH.hyps(2) have "lq_runs E r (req # reqs) (fst st) (out # outs) (fst st')"
    by (intro lq_runs.served)
  with extends_trans [OF v2 u] show ?case by blast
qed

section \<open>Properties\<close>

text \<open>
  C14: The default specs are shared by all reconciliations, and the callback for a quota assigns to the map of hard limits of
  the spec it captures. For any number of requests, served with any order of the ranges over maps, the controller
  on the store of shared maps leads to the same objects, events and errors as the controller on values does, and
  no map that existed before is written to: the limits that the annotations of one namespace override never reach
  the defaults, and so not the quotas of the next namespace.
\<close>

theorem shared_defaults_refine:
  assumes "deep_copy_ok dc" and "cou_natural (lq_CreateOrUpdateQuota r) cou" and "cou_captures cou"
    and "defaults_allocated h defaults" and "DefaultResourceQuotas r = derefs h defaults"
    and "lq_runsH E dc cou r defaults reqs (w, h) outs (w', h')"
  shows "lq_runs E r reqs w outs w' \<and> extends h h' \<and> derefs h' defaults = DefaultResourceQuotas r"
proof -
  from lq_runsH_value [OF assms(6,1,2,3)] assms(4,5) have "lq_runs E r reqs w outs w' \<and> extends h h'" by simp
  with defaults_mono(2) [of h h' defaults] assms(4,5) show ?thesis by simp
qed

section \<open>A concrete store\<close>

definition sample_deep_copy :: "'q deep_copy" where
  "sample_deep_copy s h = (case hs_Hard s of None \<Rightarrow> (s, h) | Some a \<Rightarrow> (s\<lparr>hs_Hard := Some (length h)\<rparr>, h @ [cell h a]))"

lemma sample_deep_copy_ok: "deep_copy_ok sample_deep_copy"
  by (auto simp: deep_copy_ok_def sample_deep_copy_def extends_def deref_def cell_def split: option.splits)

definition sample_couH :: "(lq_world, nat ResourceQuota, nat heap \<times> err list) CreateOrUpdate" where
  "sample_couH = (\<lambda>obj f s w. case store_cou rqo_key obj f s (fst w) of (q, r) \<Rightarrow> ((q, snd w), r))"

lemma store_cou_natural:
  assumes "\<And>x. f x (view s) = (case g x s of (x', s', e) \<Rightarrow> (x', view s', e))"
  shows "store_cou key obj f (view s) w = (case store_cou key obj g s w of (w', x', s', op, e) \<Rightarrow> (w', x', view s', op, e))"
proof -
  obtain x' s' e where g: "g (case w (key obj) of None \<Rightarrow> obj | Some old \<Rightarrow> old) s = (x', s', e)"
    by (cases "g (case w (key obj) of None \<Rightarrow> obj | Some old \<Rightarrow> old) s")
  show ?thesis by (cases e) (simp_all add: store_cou_def assms g)
qed

lemma sample_couH_natural: "cou_natural (lq_CreateOrUpdateQuota sample_lq) sample_couH"
  unfolding cou_natural_def
proof (intro allI impI)
  fix view :: "nat heap \<times> err list \<Rightarrow> nat ResourceQuotaSpec \<times> err list" 
    and obj :: "nat ResourceQuota" and g s
    and f :: "(nat ResourceQuota, nat ResourceQuotaSpec \<times> err list) MutateFn" and w :: lq_world
  assume "\<forall>x. f x (view s) = (case g x s of (x', s', e) \<Rightarrow> (x', view s', e))"
  then have n: "store_cou rqo_key obj f (view s) (fst w) =
      (case store_cou rqo_key obj g s (fst w) of (w', x', s', op, e) \<Rightarrow> (w', x', view s', op, e))"
    using store_cou_natural [of f view s g] by blast
  obtain w' x' s' op e where "store_cou rqo_key obj g s (fst w) = (w', x', s', op, e)"
    by (cases "store_cou rqo_key obj g s (fst w)") auto
  with n show "lq_CreateOrUpdateQuota sample_lq obj f (view s) w =
      (case sample_couH obj g s w of (w', x', s', op, e) \<Rightarrow> (w', x', view s', op, e))"
    by (simp add: sample_lq_def sample_couH_def)
qed

lemma store_cou_captures:
  assumes "store_cou key obj f s w = (w', obj', s', op, e)"
  shows "\<exists>x. s' = fst (snd (f x s))"
proof -
  obtain x1 s1 e1 where f: "f (case w (key obj) of None \<Rightarrow> obj | Some old \<Rightarrow> old) s = (x1, s1, e1)"
    by (cases "f (case w (key obj) of None \<Rightarrow> obj | Some old \<Rightarrow> old) s")
  with assms have "s' = s1" by (cases e1) (simp_all add: store_cou_def)
  with f show ?thesis by (metis fst_conv snd_conv)
qed

lemma sample_couH_captures: "cou_captures sample_couH"
  unfolding cou_captures_def
proof (intro allI impI)
  fix obj obj' :: "nat ResourceQuota" and f s s' and w w' :: lq_world and op e
  assume a: "sample_couH obj f s w = (w', obj', s', op, e)"
  obtain q x' s1 op1 e1 where c: "store_cou rqo_key obj f s (fst w) = (q, x', s1, op1, e1)"
    by (cases "store_cou rqo_key obj f s (fst w)") auto
  with a have "s1 = s'" by (simp add: sample_couH_def)
  with store_cou_captures [OF c] show "s' = s \<or> (\<exists>x. s' = fst (snd (f x s)))" by simp
qed

definition sample_store :: "nat heap" where
  "sample_store = [[(''pods'', 1), (''secrets'', 5)]]"

definition sample_defaults :: "HeapSpec gomap" where
  "sample_defaults = Some [(''q'', \<lparr>hs_Hard = Some 0, hs_Scopes = [], hs_ScopeSelector = None\<rparr>)]"

lemma sample_defaults_ok:
  "defaults_allocated sample_store sample_defaults" "DefaultResourceQuotas sample_lq = derefs sample_store sample_defaults"
  by (simp_all add: sample_defaults_def sample_store_def defaults_allocated_def allocated_def derefs_def deref_def cell_def
      sample_lq_def sample_lq_spec_def)

lemma sample_quotaLoopH:
  "\<exists>w' h' rq. quotaLoopH sample_deep_copy sample_couH (\<lambda>_ al. al) sample_lq sample_lq_ns (entries sample_defaults)
     ((Map.empty, Map.empty), sample_store, []) = ((w', Map.empty), h', []) \<and>
     w' (''ns'', ''q'') = Some rq \<and> mget (rqs_Hard (rqo_Spec rq)) ''pods'' = Some 2"
  by (simp add: storageQuotasOf_def storageAnnotation_def sample_lq_ns_def mstr_def sample_lq_def Let_def sample_defaults_def
        sample_deep_copy_def sample_store_def)
     (simp add: sample_couH_def store_cou_def quota_mutateH_def hardStepH_def hardAnnotation_def newQuota_def cell_def deref_def
       rqo_key_def Contains_def HasPrefix_def mstr_def mget_def Let_def)

lemma sample_ReconcileH:
  "\<exists>w' h' rq. lq_ReconcileH sample_ext sample_deep_copy sample_couH (\<lambda>al. al) (\<lambda>_ al. al) sample_lq sample_defaults
     \<lparr>req_Namespace = [], req_Name = ''ns''\<rparr> ((Map.empty, Map.empty), sample_store) = ((w', h'), [], None) \<and>
     fst w' (''ns'', ''q'') = Some rq \<and> mget (rqs_Hard (rqo_Spec rq)) ''pods'' = Some 2"
proof -
  obtain w1 h1 rq where q: "quotaLoopH sample_deep_copy sample_couH (\<lambda>_ al. al) sample_lq sample_lq_ns (entries sample_defaults)
     ((Map.empty, Map.empty), sample_store, []) = ((w1, Map.empty), h1, [])"
    and w1: "w1 (''ns'', ''q'') = Some rq" "mget (rqs_Hard (rqo_Spec rq)) ''pods'' = Some 2" using sample_quotaLoopH by blast
  have "\<exists>l. putLimitRange sample_lq sample_lq_ns ((w1, Map.empty), []) = ((w1, l), [])"
    by (simp add: putLimitRange_def sample_lq_def store_cou_def capturing_none_def limit_mutate_def newLimitRange_def)
  then obtain l where p: "putLimitRange sample_lq sample_lq_ns ((w1, Map.empty), []) = ((w1, l), [])" by blast
  have d: "lq_getNamespace sample_lq n w = Inr sample_lq_ns" "ns_DeletionTimestamp sample_lq_ns = None"
    "mget (ns_Labels sample_lq_ns) (lq_OrganizationLabel sample_lq) = Some ''acme''" for n w
    by (simp_all add: sample_lq_def sample_lq_ns_def)
  have m: "multierr_Combine sample_ext [] = None" using sample_ext_laws(1) by (simp add: combine_ok_def)
  show ?thesis using w1 by (simp add: lq_ReconcileH_def d q p m del: quotaLoopH.simps)
qed

theorem shared_defaults_refine_witness:
  "\<exists>w' h' rq. lq_runsH sample_ext sample_deep_copy sample_couH sample_lq sample_defaults
       [\<lparr>req_Namespace = [], req_Name = ''ns''\<rparr>] ((Map.empty, Map.empty), sample_store) [([], None)] (w', h') \<and>
     lq_runs sample_ext sample_lq [\<lparr>req_Namespace = [], req_Name = ''ns''\<rparr>] (Map.empty, Map.empty) [([], None)] w' \<and>
     fst w' (''ns'', ''q'') = Some rq \<and> mget (rqs_Hard (rqo_Spec rq)) ''pods'' = Some 2 \<and>
     derefs h' sample_defaults = Some [(''q'', sample_lq_spec)]"
proof -
  let ?req = "\<lparr>req_Namespace = [], req_Name = ''ns''\<rparr> :: CtrlRequest"
  obtain w' h' rq where r: "lq_ReconcileH sample_ext sample_deep_copy sample_couH (\<lambda>al. al) (\<lambda>_ al. al) sample_lq sample_defaults ?req
      ((Map.empty, Map.empty), sample_store) = ((w', h'), [], None)"
    and w': "fst w' (''ns'', ''q'') = Some rq" "mget (rqs_Hard (rqo_Spec rq)) ''pods'' = Some 2" using sample_ReconcileH by blast
  note run = lq_runsH.servedH [OF is_order_id is_order_id r lq_runsH.idleH]
  have "DefaultResourceQuotas sample_lq = Some [(''q'', sample_lq_spec)]" by (simp add: sample_lq_def)
  with shared_defaults_refine [OF sample_deep_copy_ok sample_couH_natural sample_couH_captures sample_defaults_ok run] run w'
  show ?thesis by (intro exI [of _ w'] exI [of _ h'] exI [of _ rq]) simp
qed

end
