(* ===== verification/WebhookTypes.thy ===== *)
theory WebhookTypes
  imports OrgMutator NamespaceQuota ObjectGuards
begin

text \<open>
  Typing of the answers of the webhooks. A document is well-formed if no object in it has a key twice, as the API
  server requires. An answer is well-typed for a document if its error code is one of HTTP and its patch applies and
  leaves a well-formed document. The webhooks with a skipper give well-typed answers only.
\<close>

section \<open>Well-formed documents\<close>

fun wf_json :: "json \<Rightarrow> bool" where
  "wf_json (JArr js) \<longleftrightarrow> list_all wf_json js"
| "wf_json (JObj m) \<longleftrightarrow> distinct (map fst m) \<and> list_all (\<lambda>(k, j). wf_json j) m"
| "wf_json j \<longleftrightarrow> True"

lemma wf_member: "wf_json (JObj m) \<Longrightarrow> map_of m k = Some j \<Longrightarrow> wf_json j"
  by (auto simp: list_all_iff dest: map_of_SomeD)

lemma wf_update: "wf_json (JObj m) \<Longrightarrow> wf_json v \<Longrightarrow> wf_json (JObj (AList.update k v m))"
proof (induction m)
  case (Cons x m)
  obtain k' j where x: "x = (k', j)" by (cases x)
  with Cons show ?case by (auto simp: update_keys)
qed simp

lemma wf_json_add: "json_add p v j = Some j' \<Longrightarrow> wf_json v \<Longrightarrow> wf_json j \<Longrightarrow> wf_json j'"
proof (induction p v j arbitrary: j' rule: json_add.induct)
  case (2 k v m)
  then show ?case using wf_update by auto
next
  case (3 k k' ks v m)
  then obtain j jn where j: "map_of m k = Some j" "json_add (k' # ks) v j = Some jn" "j' = JObj (AList.update k jn m)"
    by (auto split: option.splits)
  with "3.IH" [OF j(1,2) "3.prems"(2)] wf_member "3.prems"(3) wf_update show ?case by blast
qed auto

lemma wf_apply_patch:
  "apply_patch ps j = Some j' \<Longrightarrow> \<forall>p \<in> set ps. wf_json (op_Value p) \<Longrightarrow> wf_json j \<Longrightarrow> wf_json j'"
proof (induction ps arbitrary: j)
  case (Cons p ps)
  from Cons.prems(1) obtain j1 where j1: "apply_op p j = Some j1" "apply_patch ps j1 = Some j'" by (auto split: option.splits)
  then obtain ts where "json_add ts (op_Value p) j = Some j1" by (auto simp: apply_op_def split: option.splits if_splits)
  with Cons.prems have "wf_json j1" by (auto dest: wf_json_add)
  with Cons.IH [OF j1(2)] Cons.prems(2) show ?case by simp
qed simp

lemma wf_json_of_map: "distinct (map fst al) \<Longrightarrow> wf_json (json_of_map al)"
  by (auto simp: json_of_map_def list_all_iff comp_def case_prod_beta)

section \<open>Well-typed answers\<close>

fun well_typed :: "json \<Rightarrow> Response \<Rightarrow> bool" where
  "well_typed raw (Errored code err) \<longleftrightarrow> 400 \<le> code \<and> code < 600"
| "well_typed raw (Patched msg ps) \<longleftrightarrow> (\<exists>obj. apply_patch ps raw = Some obj \<and> wf_json obj)"
| "well_typed raw resp \<longleftrightarrow> True"

text \<open>An answer without a patch.\<close>

fun unpatched :: "Response \<Rightarrow> bool" where
  "unpatched (Errored code err) \<longleftrightarrow> 400 \<le> code \<and> code < 600"
| "unpatched (Patched msg ps) \<longleftrightarrow> False"
| "unpatched resp \<longleftrightarrow> True"

text \<open>A well-formed object with a member that is an object, as \<open>metadata\<close> and \<open>spec\<close> are.\<close>

definition kube_object :: "string \<Rightarrow> json \<Rightarrow> bool" where
  "kube_object field raw \<longleftrightarrow> wf_json raw \<and> (\<exists>m. jget [field] raw = Some (JObj m))"

context guarded_webhook begin

lemma handle_typed: "(Skip req = (False, None) \<Longrightarrow> well_typed raw (check req)) \<Longrightarrow> well_typed raw (handle req)"
  by (auto simp: guard after_skip_def split: prod.splits option.splits)

lemma handle_unpatched: "unpatched (check req) \<Longrightarrow> unpatched (handle req)"
  by (auto simp: guard after_skip_def split: prod.splits option.splits)

end

lemma orgLabelPatch_typed:
  assumes "nested_map_ok E" and "kube_object ''metadata'' raw"
  shows "well_typed raw (Patched msg [orgLabelPatch E m raw org])"
proof -
  from assms(2) obtain md where md: "jget [''metadata''] raw = Some (JObj md)" and w: "wf_json raw" by (auto simp: kube_object_def)
  from apply_orgLabelPatch [OF assms(1) md, of m org] obtain obj where o: "apply_patch [orgLabelPatch E m raw org] raw = Some obj" by blast
  have "wf_json (op_Value (orgLabelPatch E m raw org))"
    using wf_json_of_map by (auto simp: orgLabelPatch_def split: prod.splits)
  with wf_apply_patch [OF o] w o show ?thesis by simp
qed

lemma npo_check_typed:
  assumes "nested_map_ok E" and "\<And>raw'. npo_Decode m req = Inr raw' \<Longrightarrow> raw' = raw \<and> kube_object ''metadata'' raw"
  shows "well_typed raw (npo_check E m req)"
proof (cases "npo_Decode m req")
  case (Inr raw')
  with assms(2) have r: "raw' = raw" and k: "kube_object ''metadata'' raw" by blast+
  have p: "well_typed raw (Patched msg [orgLabelPatch E m raw org])" for msg org by (rule orgLabelPatch_typed [OF assms(1) k])
  have u: "well_typed raw (handleUserRequested E m name raw)" for name
    by (simp add: handleUserRequested_def Let_def p del: well_typed.simps(2) split: sum.split option.split)
  have "well_typed raw (handleServiceAccountNamespace E m req raw)"
    by (simp add: handleServiceAccountNamespace_def Let_def p del: well_typed.simps(2) split: sum.split)
  with u show ?thesis by (simp add: npo_check_def Inr r handleProject_def handleNamespace_def Let_def)
qed (simp add: npo_check_def)

lemma pns_check_typed:
  assumes "nested_map_ok E" and "\<And>raw'. pns_Decode v req = Inr raw' \<Longrightarrow> raw' = raw \<and> kube_object ''spec'' raw"
    and "\<And>ns d. defaultLabels E v ns = Inr d \<Longrightarrow> mwf d"
  shows "well_typed raw (pns_check E v req)"
proof -
  have p: "well_typed raw (Patched msg (nodeSelectorPatches (string_map_at selPath raw) (string_map_at selPath raw \<noteq> None) d))"
    if "kube_object ''spec'' raw" "mwf d" for msg d
  proof -
    let ?ps = "nodeSelectorPatches (string_map_at selPath raw) (string_map_at selPath raw \<noteq> None) d"
    from that(1) obtain sp where "jget [''spec''] raw = Some (JObj sp)" and w: "wf_json raw" by (auto simp: kube_object_def)
    from nodeSelectorPatches_result [OF this(1) that(2)] obtain obj where o: "apply_patch ?ps raw = Some obj" by blast
    have "\<forall>p \<in> set ?ps. wf_json (op_Value p)"
      using that(2) wf_json_of_map [of "entries d"] by (auto simp: nodeSelectorPatches_def addSelectorOp_def mwf_def)
    from wf_apply_patch [OF o this w] o show ?thesis by simp
  qed
  show ?thesis
  proof (cases "pns_Decode v req")
    case (Inr raw')
    with assms(2) have r: "raw' = raw" and k: "kube_object ''spec'' raw" by blast+
    obtain m b oe where "NestedStringMap E raw selPath = (m, b, oe)" by (cases "NestedStringMap E raw selPath") auto
    moreover from this assms(1) [unfolded nested_map_ok_def, rule_format, of raw selPath]
    have "m = string_map_at selPath raw" "b = (string_map_at selPath raw \<noteq> None)" by simp_all
    ultimately have oe: "NestedStringMap E raw [''spec'', ''nodeSelector''] = (string_map_at selPath raw, string_map_at selPath raw \<noteq> None, oe)"
      by (simp add: selPath_def)
    show ?thesis
    proof (cases "pns_getNamespace v (rq_Namespace req)")
      case ns: (Inr ns)
      show ?thesis
      proof (cases "defaultLabels E v ns")
        case d: (Inr d)
        note p = p [OF k assms(3) [OF d], unfolded not_None_eq]
        show ?thesis by (cases oe) (simp_all add: pns_check_def Inr r oe ns d p del: well_typed.simps(2))
      qed (simp add: pns_check_def Inr ns)
    qed (simp add: pns_check_def)
  qed (simp add: pns_check_def split: sum.split)
qed

lemma rda_check_typed:
  assumes "kube_object ''spec'' raw"
  shows "well_typed raw (rda_check E m req)"
proof -
  have p: "well_typed raw (Patched msg [activeDeadlinePatch n])" for msg n
  proof -
    from assms obtain sp where sp: "jget [''spec''] raw = Some (JObj sp)" and w: "wf_json raw" by (auto simp: kube_object_def)
    from apply_activeDeadlinePatch [OF sp, of n] obtain obj where o: "apply_patch [activeDeadlinePatch n] raw = Some obj" by blast
    have "wf_json obj" by (rule wf_apply_patch [OF o _ w]) (simp add: activeDeadlinePatch_def)
    with o show ?thesis by simp
  qed
  show ?thesis by (simp add: rda_check_def Let_def p del: well_typed.simps(2) split: sum.split)
qed

lemma validators_unpatched:
  "unpatched (nmv_check E nmv req)" "unpatched (nqv_check E nqv req)" "unpatched (rrl_check rrl req)" "unpatched (slb_check slb req)"
proof -
  have "unpatched r" if "nqv_organization E nqv req raw = Inl r" for raw r
    using that by (auto simp: nqv_organization_def Let_def split: if_splits prod.splits option.splits sum.splits)
  moreover have "unpatched r" if "nqv_limit E nqv org = Inl r" for org r
    using that by (auto simp: nqv_limit_def nqv_baseLimit_def Let_def split: if_splits sum.splits)
  ultimately show "unpatched (nqv_check E nqv req)" by (simp add: nqv_check_def split: sum.split)
qed (simp_all add: nmv_check_def rrl_check_def slb_check_def Let_def split: sum.split option.split)

section \<open>Property\<close>

text \<open>
  C24: The webhooks behind a skipper only give well-typed answers. For a document as the API server sends it, with its
  metadata or its spec, every patch applies and leaves a document in which no key occurs twice, whatever labels and selectors
  contain; an answer that is an error has an HTTP error code; and the validators never patch.
\<close>

theorem answers_well_typed:
  assumes "nested_map_ok E"
    and "\<And>raw'. npo_Decode npo req = Inr raw' \<Longrightarrow> raw' = raw \<and> kube_object ''metadata'' raw"
    and "\<And>raw'. pns_Decode pns req' = Inr raw' \<Longrightarrow> raw' = pod \<and> kube_object ''spec'' pod"
    and "\<And>ns d. defaultLabels E pns ns = Inr d \<Longrightarrow> mwf d" and "kube_object ''spec'' pod"
  shows "well_typed raw (npo_Handle E npo req) \<and> well_typed pod (pns_Handle E pns req') \<and> well_typed pod (rda_Handle E rda req') \<and>
    unpatched (nmv_Handle E nmv req) \<and> unpatched (nqv_Handle E nqv req) \<and> unpatched (rrl_Handle E rrl req) \<and> unpatched (slb_Handle E slb req)"
proof (intro conjI)
  show "well_typed raw (npo_Handle E npo req)" by (rule npo.handle_typed) (rule npo_check_typed [OF assms(1,2)])
  show "well_typed pod (pns_Handle E pns req')"
    using pns.handle_typed [of pns req' pod E] pns_check_typed [OF assms(1,3,4)] by (simp add: pns_Handle_def)
  show "well_typed pod (rda_Handle E rda req')" by (rule rda.handle_typed) (rule rda_check_typed [OF assms(5)])
qed (rule nmv.handle_unpatched nqv.handle_unpatched rrl.handle_unpatched slb.handle_unpatched, rule validators_unpatched)+

section \<open>Witness\<close>

theorem answers_well_typed_witness:
  "well_typed (JObj [(''metadata'', JObj [])]) (npo_Handle sample_ext sample_npo (sample_request ''Namespace'' ''n'' ''alice'')) \<and>
   well_typed sample_raw (pns_Handle sample_ext sample_pns (sample_request ''Pod'' ''p'' ''alice''))"
proof -
  let ?raw = "JObj [(''metadata'', JObj [])]"
  have n: "npo_Decode sample_npo req = Inr raw' \<Longrightarrow> raw' = ?raw \<and> kube_object ''metadata'' ?raw" for req raw'
    by (auto simp: kube_object_def sample_npo_def)
  have s: "kube_object ''spec'' sample_raw" by (simp add: kube_object_def sample_raw_def)
  have p: "pns_Decode sample_pns req = Inr raw' \<Longrightarrow> raw' = sample_raw \<and> kube_object ''spec'' sample_raw" for req raw'
    using s by (simp add: sample_pns_def sample_raw_def)
  have d: "mwf m" if "defaultLabels sample_ext sample_pns ns = Inr m" for ns m
  proof -
    have "mwf (DefaultNodeSelector sample_pns)" by (simp add: sample_pns_def)
    with that show ?thesis by (auto simp: defaultLabels_def Let_def sample_ext_simps split: if_splits prod.splits option.splits)
  qed
  note a = answers_well_typed [OF sample_ext_laws(2), of sample_npo "sample_request ''Namespace'' ''n'' ''alice''" ?raw
      sample_pns "sample_request ''Pod'' ''p'' ''alice''" sample_raw]
  show ?thesis by (intro conjI; rule a [THEN conjunct1] a [THEN conjunct2, THEN conjunct1]) (erule n p d | rule s)+
qed

end
