(* ===== verification/DeepCopies.thy ===== *)
theory DeepCopies
  imports QuotaSharing
begin

text \<open>
  api/v1: the types of the API as structs with references, and the generated functions that copy them
  (zz_generated.deepcopy.go). What the structs of other packages refer to is a list of cells \<open>'c\<close>; the copy functions
  of those packages are parameters, and \<open>deep_copies\<close> is their contract.
\<close>

section \<open>The types\<close>

record TypeMeta =
  tm_Kind :: string
  tm_APIVersion :: string

record 'u v1Spec =
  v1_UpstreamSpec :: 'u

record v1Status =
  v1_nothing :: unit

record ('m, 'u) v1Profile =
  v1_TypeMeta :: TypeMeta
  v1_ObjectMeta :: 'm
  v1_Spec :: "'u v1Spec"
  v1_Status :: v1Status

text \<open>A slice is a part of an array; the nil slice is \<open>None\<close>.\<close>

record slice =
  sl_array :: nat
  sl_from :: nat
  sl_len :: nat

record 'l v1List =
  v1l_TypeMeta :: TypeMeta
  v1l_ListMeta :: 'l
  v1l_Items :: "slice option"

text \<open>The memory: the cells of other packages, the structs that \<open>new\<close> made, and the arrays behind slices.\<close>

record ('c, 'm, 'u, 'l) memory =
  mem_cells :: "'c list"
  mem_profiles :: "('m, 'u) v1Profile list"
  mem_lists :: "'l v1List list"
  mem_specs :: "'u v1Spec list"
  mem_statuses :: "v1Status list"
  mem_arrays :: "('m, 'u) v1Profile list list"

section \<open>The copy functions\<close>

type_synonym ('a, 'c) deepCopyInto = "'a \<Rightarrow> 'c list \<Rightarrow> 'a \<times> 'c list"

record ('c, 'm, 'u, 'l) copiers =
  cp_ObjectMeta :: "('m, 'c) deepCopyInto"
  cp_UpstreamSpec :: "('u, 'c) deepCopyInto"
  cp_ListMeta :: "('l, 'c) deepCopyInto"

text \<open>\<open>in.DeepCopyInto(out)\<close> gives what is written to \<open>*out\<close>.\<close>

definition Spec_DeepCopyInto :: "('c, 'm, 'u, 'l) copiers \<Rightarrow> ('u v1Spec, 'c) deepCopyInto" where
  "Spec_DeepCopyInto cp s h = (case cp_UpstreamSpec cp (v1_UpstreamSpec s) h of (u, h) \<Rightarrow> (s\<lparr>v1_UpstreamSpec := u\<rparr>, h))"

definition Status_DeepCopyInto :: "(v1Status, 'c) deepCopyInto" where
  "Status_DeepCopyInto s h = (s, h)"

definition Profile_DeepCopyInto :: "('c, 'm, 'u, 'l) copiers \<Rightarrow> (('m, 'u) v1Profile, 'c) deepCopyInto" where
  "Profile_DeepCopyInto cp p h =
     (case cp_ObjectMeta cp (v1_ObjectMeta p) h of
        (meta, h) \<Rightarrow> (case Spec_DeepCopyInto cp (v1_Spec p) h of (spec, h) \<Rightarrow> (p\<lparr>v1_ObjectMeta := meta, v1_Spec := spec\<rparr>, h)))"

text \<open>The items in order, each into its place of the new array.\<close>

fun copyItems :: "('c, 'm, 'u, 'l) copiers \<Rightarrow> (('m, 'u) v1Profile list, 'c) deepCopyInto" where
  "copyItems cp [] h = ([], h)"
| "copyItems cp (p # ps) h =
     (case Profile_DeepCopyInto cp p h of (q, h) \<Rightarrow> (case copyItems cp ps h of (qs, h) \<Rightarrow> (q # qs, h)))"

definition sliceItems :: "('m, 'u) v1Profile list list \<Rightarrow> slice \<Rightarrow> ('m, 'u) v1Profile list" where
  "sliceItems arrays sl = take (sl_len sl) (drop (sl_from sl) (arrays ! sl_array sl))"

definition List_DeepCopyInto ::
    "('c, 'm, 'u, 'l) copiers \<Rightarrow> 'l v1List \<Rightarrow> ('c, 'm, 'u, 'l) memory \<Rightarrow> 'l v1List \<times> ('c, 'm, 'u, 'l) memory" where
  "List_DeepCopyInto cp l mem =
     (case cp_ListMeta cp (v1l_ListMeta l) (mem_cells mem) of
        (meta, h) \<Rightarrow>
          (case v1l_Items l of
             None \<Rightarrow> (l\<lparr>v1l_ListMeta := meta\<rparr>, mem\<lparr>mem_cells := h\<rparr>)
           | Some sl \<Rightarrow>
               (case copyItems cp (sliceItems (mem_arrays mem) sl) h of
                  (items, h') \<Rightarrow>
                    (l\<lparr>v1l_ListMeta := meta,
                       v1l_Items := Some \<lparr>sl_array = length (mem_arrays mem), sl_from = 0, sl_len = length items\<rparr>\<rparr>,
                     mem\<lparr>mem_cells := h', mem_arrays := mem_arrays mem @ [items]\<rparr>))))"

text \<open>\<open>DeepCopy\<close> of a pointer: nil is copied to nil, and otherwise to a new struct.\<close>

definition Profile_DeepCopy ::
    "('c, 'm, 'u, 'l) copiers \<Rightarrow> nat option \<Rightarrow> ('c, 'm, 'u, 'l) memory \<Rightarrow> nat option \<times> ('c, 'm, 'u, 'l) memory" where
  "Profile_DeepCopy cp p mem = (case p of
      None \<Rightarrow> (None, mem)
    | Some a \<Rightarrow>
        (case Profile_DeepCopyInto cp (mem_profiles mem ! a) (mem_cells mem) of
           (q, h) \<Rightarrow> (Some (length (mem_profiles mem)), mem\<lparr>mem_cells := h, mem_profiles := mem_profiles mem @ [q]\<rparr>)))"

definition Spec_DeepCopy ::
    "('c, 'm, 'u, 'l) copiers \<Rightarrow> nat option \<Rightarrow> ('c, 'm, 'u, 'l) memory \<Rightarrow> nat option \<times> ('c, 'm, 'u, 'l) memory" where
  "Spec_DeepCopy cp p mem = (case p of
      None \<Rightarrow> (None, mem)
    | Some a \<Rightarrow>
        (case Spec_DeepCopyInto cp (mem_specs mem ! a) (mem_cells mem) of
           (q, h) \<Rightarrow> (Some (length (mem_specs mem)), mem\<lparr>mem_cells := h, mem_specs := mem_specs mem @ [q]\<rparr>)))"

definition Status_DeepCopy ::
    "nat option \<Rightarrow> ('c, 'm, 'u, 'l) memory \<Rightarrow> nat option \<times> ('c, 'm, 'u, 'l) memory" where
  "Status_DeepCopy p mem = (case p of
      None \<Rightarrow> (None, mem)
    | Some a \<Rightarrow>
        (case Status_DeepCopyInto (mem_statuses mem ! a) (mem_cells mem) of
           (q, h) \<Rightarrow> (Some (length (mem_statuses mem)), mem\<lparr>mem_cells := h, mem_statuses := mem_statuses mem @ [q]\<rparr>)))"

definition List_DeepCopy ::
    "('c, 'm, 'u, 'l) copiers \<Rightarrow> nat option \<Rightarrow> ('c, 'm, 'u, 'l) memory \<Rightarrow> nat option \<times> ('c, 'm, 'u, 'l) memory" where
  "List_DeepCopy cp p mem = (case p of
      None \<Rightarrow> (None, mem)
    | Some a \<Rightarrow>
        (case List_DeepCopyInto cp (mem_lists mem ! a) mem of
           (q, mem') \<Rightarrow> (Some (length (mem_lists mem)), mem'\<lparr>mem_lists := mem_lists mem @ [q]\<rparr>)))"

text \<open>\<open>DeepCopyObject\<close> gives an interface value, which is nil for a nil pointer and not a nil pointer in an interface.\<close>

datatype runtimeObject = ProfileObject nat | ListObject nat

definition Profile_DeepCopyObject ::
    "('c, 'm, 'u, 'l) copiers \<Rightarrow> nat option \<Rightarrow> ('c, 'm, 'u, 'l) memory \<Rightarrow> runtimeObject option \<times> ('c, 'm, 'u, 'l) memory" where
  "Profile_DeepCopyObject cp p mem = (case Profile_DeepCopy cp p mem of
      (Some c, mem') \<Rightarrow> (Some (ProfileObject c), mem')
    | (None, mem') \<Rightarrow> (None, mem'))"

definition List_DeepCopyObject ::
    "('c, 'm, 'u, 'l) copiers \<Rightarrow> nat option \<Rightarrow> ('c, 'm, 'u, 'l) memory \<Rightarrow> runtimeObject option \<times> ('c, 'm, 'u, 'l) memory" where
  "List_DeepCopyObject cp p mem = (case List_DeepCopy cp p mem of
      (Some c, mem') \<Rightarrow> (Some (ListObject c), mem')
    | (None, mem') \<Rightarrow> (None, mem'))"

section \<open>The contract of a deep copy\<close>

text \<open>\<open>xs\<close> and \<open>ys\<close> both have the places \<open>A\<close>, with the same contents.\<close>

definition same_at :: "nat set \<Rightarrow> 'c list \<Rightarrow> 'c list \<Rightarrow> bool" where
  "same_at A xs ys \<longleftrightarrow> (\<forall>a \<in> A. a < length xs \<and> a < length ys \<and> ys ! a = xs ! a)"

lemma same_at_extends: "extends h h' \<Longrightarrow> A \<subseteq> {..<length h} \<Longrightarrow> same_at A h h'"
  by (auto simp: same_at_def extends_append nth_append)

lemma same_at_mono: "same_at A h h' \<Longrightarrow> B \<subseteq> A \<Longrightarrow> same_at B h h'"
  by (auto simp: same_at_def)

lemma same_at_trans: "same_at A h h1 \<Longrightarrow> same_at A h1 h2 \<Longrightarrow> same_at A h h2"
  by (simp add: same_at_def)

lemma extends_length: "extends h h' \<Longrightarrow> length h \<le> length h'"
  by (auto simp: extends_append)

text \<open>
  A struct \<open>x\<close> stands for the value \<open>val h x\<close>, which depends on the cells \<open>reach h x\<close> only. Its copy has the same
  value, reaches new cells only, and nothing that was there has changed.
\<close>

definition deep_copies :: "('c list \<Rightarrow> 'a \<Rightarrow> 'v) \<Rightarrow> ('c list \<Rightarrow> 'a \<Rightarrow> nat set) \<Rightarrow> ('a, 'c) deepCopyInto \<Rightarrow> bool" where
  "deep_copies val reach copy \<longleftrightarrow>
     (\<forall>x h h'. same_at (reach h x) h h' \<longrightarrow> val h' x = val h x \<and> reach h' x = reach h x) \<and>
     (\<forall>x h y h'. reach h x \<subseteq> {..<length h} \<longrightarrow> copy x h = (y, h') \<longrightarrow>
        val h' y = val h x \<and> reach h' y \<subseteq> {length h..<length h'} \<and> extends h h')"

lemma deep_copies_local:
  "deep_copies val reach copy \<Longrightarrow> same_at (reach h x) h h' \<Longrightarrow> val h' x = val h x \<and> reach h' x = reach h x"
  by (simp add: deep_copies_def)

lemma deep_copies_copy:
  "deep_copies val reach copy \<Longrightarrow> reach h x \<subseteq> {..<length h} \<Longrightarrow> copy x h = (y, h') \<Longrightarrow>
    val h' y = val h x \<and> reach h' y \<subseteq> {length h..<length h'} \<and> extends h h'"
  by (simp add: deep_copies_def)

lemma deep_copies_keeps:
  "deep_copies val reach copy \<Longrightarrow> reach h x \<subseteq> {..<length h} \<Longrightarrow> extends h h' \<Longrightarrow>
    val h' x = val h x \<and> reach h' x = reach h x"
  by (rule deep_copies_local) (auto intro: same_at_extends)

text \<open>Copying one part after the other.\<close>

lemma deep_copies_both:
  assumes a: "deep_copies val1 reach1 copy1" and b: "deep_copies val2 reach2 copy2"
    and "reach1 h x1 \<union> reach2 h x2 \<subseteq> {..<length h}" and "copy1 x1 h = (y1, h1)" and "copy2 x2 h1 = (y2, h2)"
  shows "val1 h2 y1 = val1 h x1 \<and> val2 h2 y2 = val2 h x2 \<and> reach1 h2 y1 \<union> reach2 h2 y2 \<subseteq> {length h..<length h2} \<and> extends h h2"
proof -
  have r: "reach1 h x1 \<subseteq> {..<length h}" "reach2 h x2 \<subseteq> {..<length h}" using assms(3) by simp_all
  note c1 = deep_copies_copy [OF a r(1) assms(4)]
  then have e1: "extends h h1" by simp
  note k2 = deep_copies_keeps [OF b r(2) e1]
  have "reach2 h1 x2 \<subseteq> {..<length h1}" using k2 r(2) extends_length [OF e1] by auto
  note c2 = deep_copies_copy [OF b this assms(5)]
  then have e2: "extends h1 h2" by simp
  have "reach1 h1 y1 \<subseteq> {..<length h1}" using c1 by auto
  note k1 = deep_copies_keeps [OF a this e2]
  have "reach1 h2 y1 \<subseteq> {length h..<length h2}" using k1 c1 extends_length [OF e2] by auto
  moreover have "reach2 h2 y2 \<subseteq> {length h..<length h2}" using c2 extends_length [OF e1] by auto
  ultimately show ?thesis using k1 k2 c1 c2 extends_trans [OF e1 e2] by simp
qed

section \<open>The types of the API keep the contract\<close>

text \<open>What the structs of other packages stand for and reach.\<close>

record ('c, 'm, 'u, 'l, 'v) views =
  vw_ObjectMeta :: "'c list \<Rightarrow> 'm \<Rightarrow> 'v"
  vw_UpstreamSpec :: "'c list \<Rightarrow> 'u \<Rightarrow> 'v"
  vw_ListMeta :: "'c list \<Rightarrow> 'l \<Rightarrow> 'v"
  rc_ObjectMeta :: "'c list \<Rightarrow> 'm \<Rightarrow> nat set"
  rc_UpstreamSpec :: "'c list \<Rightarrow> 'u \<Rightarrow> nat set"
  rc_ListMeta :: "'c list \<Rightarrow> 'l \<Rightarrow> nat set"

definition copiers_ok :: "('c, 'm, 'u, 'l, 'v) views \<Rightarrow> ('c, 'm, 'u, 'l) copiers \<Rightarrow> bool" where
  "copiers_ok V cp \<longleftrightarrow> deep_copies (vw_ObjectMeta V) (rc_ObjectMeta V) (cp_ObjectMeta cp) \<and>
     deep_copies (vw_UpstreamSpec V) (rc_UpstreamSpec V) (cp_UpstreamSpec cp) \<and>
     deep_copies (vw_ListMeta V) (rc_ListMeta V) (cp_ListMeta cp)"

definition profileVal :: "('c, 'm, 'u, 'l, 'v) views \<Rightarrow> 'c list \<Rightarrow> ('m, 'u) v1Profile \<Rightarrow> TypeMeta \<times> 'v \<times> 'v \<times> v1Status" where
  "profileVal V h p = (v1_TypeMeta p, vw_ObjectMeta V h (v1_ObjectMeta p), vw_UpstreamSpec V h (v1_UpstreamSpec (v1_Spec p)), v1_Status p)"

definition profileReach :: "('c, 'm, 'u, 'l, 'v) views \<Rightarrow> 'c list \<Rightarrow> ('m, 'u) v1Profile \<Rightarrow> nat set" where
  "profileReach V h p = rc_ObjectMeta V h (v1_ObjectMeta p) \<union> rc_UpstreamSpec V h (v1_UpstreamSpec (v1_Spec p))"

lemma spec_deep_copies:
  assumes "copiers_ok V cp"
  shows "deep_copies (\<lambda>h s. vw_UpstreamSpec V h (v1_UpstreamSpec s)) (\<lambda>h s. rc_UpstreamSpec V h (v1_UpstreamSpec s)) (Spec_DeepCopyInto cp)"
proof -
  have u: "deep_copies (vw_UpstreamSpec V) (rc_UpstreamSpec V) (cp_UpstreamSpec cp)" using assms by (simp add: copiers_ok_def)
  show ?thesis unfolding deep_copies_def
  proof (intro conjI allI impI, goal_cases)
    case (1 s h h') then show ?case using deep_copies_local [OF u] by simp
  next
    case (2 s h h') then show ?case using deep_copies_local [OF u] by simp
  next
    case (3 s h t h')
    then show ?case using deep_copies_copy [OF u 3(1)] by (auto simp: Spec_DeepCopyInto_def split: prod.splits)
  next
    case (4 s h t h')
    then show ?case using deep_copies_copy [OF u 4(1)] by (auto simp: Spec_DeepCopyInto_def split: prod.splits)
  next
    case (5 s h t h')
    then show ?case using deep_copies_copy [OF u 5(1)] by (auto simp: Spec_DeepCopyInto_def split: prod.splits)
  qed
qed

lemma profile_deep_copies:
  assumes "copiers_ok V cp"
  shows "deep_copies (profileVal V) (profileReach V) (Profile_DeepCopyInto cp)"
proof -
  have m: "deep_copies (vw_ObjectMeta V) (rc_ObjectMeta V) (cp_ObjectMeta cp)" using assms by (simp add: copiers_ok_def)
  note s = spec_deep_copies [OF assms]
  have l: "profileVal V h' p = profileVal V h p \<and> profileReach V h' p = profileReach V h p"
    if "same_at (profileReach V h p) h h'" for p h h'
  proof -
    have "same_at (rc_ObjectMeta V h (v1_ObjectMeta p)) h h'" "same_at (rc_UpstreamSpec V h (v1_UpstreamSpec (v1_Spec p))) h h'"
      using that by (auto simp: profileReach_def intro: same_at_mono)
    then show ?thesis using deep_copies_local [OF m] deep_copies_local [OF s] by (simp add: profileVal_def profileReach_def)
  qed
  have c: "profileVal V h' q = profileVal V h p \<and> profileReach V h' q \<subseteq> {length h..<length h'} \<and> extends h h'"
    if r: "profileReach V h p \<subseteq> {..<length h}" and d: "Profile_DeepCopyInto cp p h = (q, h')" for p h q h'
  proof -
    obtain meta h1 spec where c: "cp_ObjectMeta cp (v1_ObjectMeta p) h = (meta, h1)" "Spec_DeepCopyInto cp (v1_Spec p) h1 = (spec, h')"
      and q: "q = p\<lparr>v1_ObjectMeta := meta, v1_Spec := spec\<rparr>"
      using d by (auto simp: Profile_DeepCopyInto_def split: prod.splits)
    show ?thesis using deep_copies_both [OF m s r [unfolded profileReach_def] c] by (simp add: profileVal_def profileReach_def q)
  qed
  show ?thesis unfolding deep_copies_def using l c by blast
qed

lemma items_deep_copies:
  assumes "copiers_ok V cp"
  shows "deep_copies (\<lambda>h. map (profileVal V h)) (\<lambda>h ps. \<Union> (set (map (profileReach V h) ps))) (copyItems cp)"
proof -
  note p = profile_deep_copies [OF assms]
  have l: "map (profileVal V h') ps = map (profileVal V h) ps \<and> map (profileReach V h') ps = map (profileReach V h) ps"
    if "same_at (\<Union> (set (map (profileReach V h) ps))) h h'" for ps h h'
    using that
  proof (induction ps)
    case (Cons q ps)
    then have "same_at (profileReach V h q) h h'" "same_at (\<Union> (set (map (profileReach V h) ps))) h h'"
      by (auto intro: same_at_mono)
    with Cons.IH deep_copies_local [OF p] show ?case by simp
  qed simp
  have c: "map (profileVal V h') qs = map (profileVal V h) ps \<and>
      \<Union> (set (map (profileReach V h') qs)) \<subseteq> {length h..<length h'} \<and> extends h h'"
    if "\<Union> (set (map (profileReach V h) ps)) \<subseteq> {..<length h}" and "copyItems cp ps h = (qs, h')" for ps h qs h'
    using that
  proof (induction ps arbitrary: h qs)
    case Nil
    then show ?case by (simp add: extends_refl)
  next
    case (Cons r ps)
    obtain q h1 qs' where c: "Profile_DeepCopyInto cp r h = (q, h1)" "copyItems cp ps h1 = (qs', h')" and qs: "qs = q # qs'"
      using Cons.prems(2) by (auto split: prod.splits)
    have r: "profileReach V h r \<subseteq> {..<length h}" "\<Union> (set (map (profileReach V h) ps)) \<subseteq> {..<length h}" using Cons.prems(1) by simp_all
    note c1 = deep_copies_copy [OF p r(1) c(1)]
    then have e1: "extends h h1" by simp
    note k = l [OF same_at_extends [OF e1 r(2)]]
    have "\<Union> (set (map (profileReach V h1) ps)) \<subseteq> {..<length h1}" using k r(2) extends_length [OF e1] by auto
    note c2 = Cons.IH [OF this c(2)]
    then have e2: "extends h1 h'" by simp
    have "profileReach V h1 q \<subseteq> {..<length h1}" using c1 by auto
    note k1 = deep_copies_keeps [OF p this e2]
    have "profileReach V h' q \<subseteq> {length h..<length h'}" using k1 c1 extends_length [OF e2] by auto
    moreover have "\<Union> (set (map (profileReach V h') qs')) \<subseteq> {length h..<length h'}" using c2 extends_length [OF e1] by auto
    ultimately show ?case using k k1 c1 c2 extends_trans [OF e1 e2] by (simp add: qs)
  qed
  have l': "map (profileVal V h') ps = map (profileVal V h) ps \<and> \<Union> (set (map (profileReach V h') ps)) = \<Union> (set (map (profileReach V h) ps))"
    if "same_at (\<Union> (set (map (profileReach V h) ps))) h h'" for ps h h'
    using l [OF that] by metis
  show ?thesis unfolding deep_copies_def using l' c by blast
qed

section \<open>Lists\<close>

definition listVal ::
    "('c, 'm, 'u, 'l, 'v) views \<Rightarrow> ('c, 'm, 'u, 'l) memory \<Rightarrow> 'l v1List
      \<Rightarrow> TypeMeta \<times> 'v \<times> (TypeMeta \<times> 'v \<times> 'v \<times> v1Status) list option" where
  "listVal V mem l =
     (v1l_TypeMeta l, vw_ListMeta V (mem_cells mem) (v1l_ListMeta l),
      map_option (\<lambda>sl. map (profileVal V (mem_cells mem)) (sliceItems (mem_arrays mem) sl)) (v1l_Items l))"

text \<open>Everything a list refers to exists.\<close>

definition list_ok :: "('c, 'm, 'u, 'l, 'v) views \<Rightarrow> ('c, 'm, 'u, 'l) memory \<Rightarrow> 'l v1List \<Rightarrow> bool" where
  "list_ok V mem l \<longleftrightarrow> rc_ListMeta V (mem_cells mem) (v1l_ListMeta l) \<subseteq> {..<length (mem_cells mem)} \<and>
     (\<forall>sl. v1l_Items l = Some sl \<longrightarrow> sl_array sl < length (mem_arrays mem) \<and>
        \<Union> (set (map (profileReach V (mem_cells mem)) (sliceItems (mem_arrays mem) sl))) \<subseteq> {..<length (mem_cells mem)})"

text \<open>
  Between \<open>mem1\<close> and \<open>mem2\<close> nothing has been written to what there was in \<open>mem\<close>, or to what was made between \<open>mem\<close> and
  \<open>mem1\<close>.
\<close>

definition old_kept :: "('c, 'm, 'u, 'l) memory \<Rightarrow> ('c, 'm, 'u, 'l) memory \<Rightarrow> ('c, 'm, 'u, 'l) memory \<Rightarrow> bool" where
  "old_kept mem mem1 mem2 \<longleftrightarrow> same_at {..<length (mem_cells mem)} (mem_cells mem1) (mem_cells mem2) \<and>
     same_at {..<length (mem_arrays mem)} (mem_arrays mem1) (mem_arrays mem2)"

definition new_kept :: "('c, 'm, 'u, 'l) memory \<Rightarrow> ('c, 'm, 'u, 'l) memory \<Rightarrow> ('c, 'm, 'u, 'l) memory \<Rightarrow> bool" where
  "new_kept mem mem1 mem2 \<longleftrightarrow> same_at {length (mem_cells mem)..<length (mem_cells mem1)} (mem_cells mem1) (mem_cells mem2) \<and>
     same_at {length (mem_arrays mem)..<length (mem_arrays mem1)} (mem_arrays mem1) (mem_arrays mem2)"

text \<open>The value of a list depends on the cells and the array it reaches.\<close>

lemma listVal_local:
  assumes "copiers_ok V cp"
    and "same_at (rc_ListMeta V (mem_cells mem) (v1l_ListMeta l)) (mem_cells mem) (mem_cells mem')"
    and "\<And>sl. v1l_Items l = Some sl \<Longrightarrow> sliceItems (mem_arrays mem') sl = sliceItems (mem_arrays mem) sl \<and>
      same_at (\<Union> (set (map (profileReach V (mem_cells mem)) (sliceItems (mem_arrays mem) sl)))) (mem_cells mem) (mem_cells mem')"
  shows "listVal V mem' l = listVal V mem l"
proof -
  have m: "deep_copies (vw_ListMeta V) (rc_ListMeta V) (cp_ListMeta cp)" using assms(1) by (simp add: copiers_ok_def)
  note i = deep_copies_local [OF items_deep_copies [OF assms(1)]]
  show ?thesis
  proof (cases "v1l_Items l")
    case (Some sl)
    note items = assms(3) [OF Some]
    have "map (profileVal V (mem_cells mem')) (sliceItems (mem_arrays mem) sl) = map (profileVal V (mem_cells mem)) (sliceItems (mem_arrays mem) sl)"
      by (rule i [OF items [THEN conjunct2], THEN conjunct1])
    with items deep_copies_local [OF m assms(2)] Some show ?thesis by (simp only: listVal_def option.map)
  qed (use deep_copies_local [OF m assms(2)] in \<open>simp add: listVal_def\<close>)
qed

lemma sliceItems_cong: "arrays' ! sl_array sl = arrays ! sl_array sl \<Longrightarrow> sliceItems arrays' sl = sliceItems arrays sl"
  by (simp add: sliceItems_def)

lemma same_at_nth: "same_at A xs ys \<Longrightarrow> a \<in> A \<Longrightarrow> ys ! a = xs ! a"
  by (simp add: same_at_def)

text \<open>What \<open>DeepCopyInto\<close> makes of a list.\<close>

lemma List_DeepCopyInto_ok:
  assumes "copiers_ok V cp" and "list_ok V mem l" and "List_DeepCopyInto cp l mem = (l', mem')"
  shows "listVal V mem' l' = listVal V mem l"
    and "extends (mem_cells mem) (mem_cells mem')" and "extends (mem_arrays mem) (mem_arrays mem')"
    and "rc_ListMeta V (mem_cells mem') (v1l_ListMeta l') \<subseteq> {length (mem_cells mem)..<length (mem_cells mem')}"
    and "\<And>sl. v1l_Items l' = Some sl \<Longrightarrow> sl_array sl \<in> {length (mem_arrays mem)..<length (mem_arrays mem')} \<and>
      \<Union> (set (map (profileReach V (mem_cells mem')) (sliceItems (mem_arrays mem') sl)))
        \<subseteq> {length (mem_cells mem)..<length (mem_cells mem')}"
    and "mem_lists mem' = mem_lists mem"
proof -
  have m: "deep_copies (vw_ListMeta V) (rc_ListMeta V) (cp_ListMeta cp)" using assms(1) by (simp add: copiers_ok_def)
  note i = items_deep_copies [OF assms(1)]
  have r: "rc_ListMeta V (mem_cells mem) (v1l_ListMeta l) \<subseteq> {..<length (mem_cells mem)}" using assms(2) by (simp add: list_ok_def)
  obtain meta h where c: "cp_ListMeta cp (v1l_ListMeta l) (mem_cells mem) = (meta, h)"
    by (cases "cp_ListMeta cp (v1l_ListMeta l) (mem_cells mem)")
  have "listVal V mem' l' = listVal V mem l \<and> extends (mem_cells mem) (mem_cells mem') \<and> extends (mem_arrays mem) (mem_arrays mem') \<and>
    rc_ListMeta V (mem_cells mem') (v1l_ListMeta l') \<subseteq> {length (mem_cells mem)..<length (mem_cells mem')} \<and>
    (\<forall>sl. v1l_Items l' = Some sl \<longrightarrow> sl_array sl \<in> {length (mem_arrays mem)..<length (mem_arrays mem')} \<and>
      \<Union> (set (map (profileReach V (mem_cells mem')) (sliceItems (mem_arrays mem') sl)))
        \<subseteq> {length (mem_cells mem)..<length (mem_cells mem')}) \<and> mem_lists mem' = mem_lists mem"
  proof (cases "v1l_Items l")
    case None
    with assms(3) c have "l' = l\<lparr>v1l_ListMeta := meta\<rparr>" "mem' = mem\<lparr>mem_cells := h\<rparr>" by (simp_all add: List_DeepCopyInto_def)
    with None deep_copies_copy [OF m r c] show ?thesis by (simp add: listVal_def extends_refl)
  next
    case (Some sl)
    let ?items = "sliceItems (mem_arrays mem) sl"
    obtain items h' where d: "copyItems cp ?items h = (items, h')" by (cases "copyItems cp ?items h")
    have l': "l' = l\<lparr>v1l_ListMeta := meta,
        v1l_Items := Some \<lparr>sl_array = length (mem_arrays mem), sl_from = 0, sl_len = length items\<rparr>\<rparr>"
      and mem': "mem' = mem\<lparr>mem_cells := h', mem_arrays := mem_arrays mem @ [items]\<rparr>"
      using assms(3) Some c d by (simp_all add: List_DeepCopyInto_def)
    have ri: "\<Union> (set (map (profileReach V (mem_cells mem)) ?items)) \<subseteq> {..<length (mem_cells mem)}"
      using assms(2) Some by (simp add: list_ok_def)
    have "rc_ListMeta V (mem_cells mem) (v1l_ListMeta l) \<union> \<Union> (set (map (profileReach V (mem_cells mem)) ?items))
        \<subseteq> {..<length (mem_cells mem)}" using r ri by blast
    note b = deep_copies_both [OF m i this c d]
    have it: "sliceItems (mem_arrays mem @ [items]) \<lparr>sl_array = length (mem_arrays mem), sl_from = 0, sl_len = length items\<rparr> = items"
      by (simp add: sliceItems_def)
    show ?thesis using b Some by (simp add: l' mem' listVal_def it) (simp add: extends_append)
  qed
  then show "listVal V mem' l' = listVal V mem l"
    and "extends (mem_cells mem) (mem_cells mem')" and "extends (mem_arrays mem) (mem_arrays mem')"
    and "rc_ListMeta V (mem_cells mem') (v1l_ListMeta l') \<subseteq> {length (mem_cells mem)..<length (mem_cells mem')}"
    and "\<And>sl. v1l_Items l' = Some sl \<Longrightarrow> sl_array sl \<in> {length (mem_arrays mem)..<length (mem_arrays mem')} \<and>
      \<Union> (set (map (profileReach V (mem_cells mem')) (sliceItems (mem_arrays mem') sl)))
        \<subseteq> {length (mem_cells mem)..<length (mem_cells mem')}"
    and "mem_lists mem' = mem_lists mem" by blast+
qed

text \<open>A list keeps its value as long as what it consists of is kept.\<close>

lemma listVal_kept:
  assumes "copiers_ok V cp" and "same_at A (mem_cells mem) (mem_cells mem2)"
    and "rc_ListMeta V (mem_cells mem) (v1l_ListMeta l) \<subseteq> A"
    and "\<And>sl. v1l_Items l = Some sl \<Longrightarrow> mem_arrays mem2 ! sl_array sl = mem_arrays mem ! sl_array sl \<and>
      \<Union> (set (map (profileReach V (mem_cells mem)) (sliceItems (mem_arrays mem) sl))) \<subseteq> A"
  shows "listVal V mem2 l = listVal V mem l"
proof (rule listVal_local [OF assms(1)])
  show "same_at (rc_ListMeta V (mem_cells mem) (v1l_ListMeta l)) (mem_cells mem) (mem_cells mem2)"
    by (rule same_at_mono [OF assms(2,3)])
  fix sl assume "v1l_Items l = Some sl"
  note k = assms(4) [OF this]
  show "sliceItems (mem_arrays mem2) sl = sliceItems (mem_arrays mem) sl \<and>
      same_at (\<Union> (set (map (profileReach V (mem_cells mem)) (sliceItems (mem_arrays mem) sl)))) (mem_cells mem) (mem_cells mem2)"
    using sliceItems_cong [OF k [THEN conjunct1]] same_at_mono [OF assms(2) k [THEN conjunct2]] by (rule conjI)
qed

lemma original_kept:
  assumes "copiers_ok V cp" and "list_ok V mem l" and "extends (mem_cells mem) (mem_cells mem')"
    and "extends (mem_arrays mem) (mem_arrays mem')" and "old_kept mem mem' mem2"
  shows "listVal V mem2 l = listVal V mem l"
proof (rule listVal_kept [OF assms(1)])
  show "same_at {..<length (mem_cells mem)} (mem_cells mem) (mem_cells mem2)"
    by (rule same_at_trans [OF same_at_extends [OF assms(3) order_refl]]) (use assms(5) in \<open>simp add: old_kept_def\<close>)
  show "rc_ListMeta V (mem_cells mem) (v1l_ListMeta l) \<subseteq> {..<length (mem_cells mem)}" using assms(2) by (simp add: list_ok_def)
  fix sl assume i: "v1l_Items l = Some sl"
  have "same_at {..<length (mem_arrays mem)} (mem_arrays mem) (mem_arrays mem2)"
    by (rule same_at_trans [OF same_at_extends [OF assms(4) order_refl]]) (use assms(5) in \<open>simp add: old_kept_def\<close>)
  from same_at_nth [OF this, of "sl_array sl"] assms(2) i
  show "mem_arrays mem2 ! sl_array sl = mem_arrays mem ! sl_array sl \<and>
      \<Union> (set (map (profileReach V (mem_cells mem)) (sliceItems (mem_arrays mem) sl))) \<subseteq> {..<length (mem_cells mem)}"
    by (simp add: list_ok_def)
qed

lemma copy_kept:
  assumes "copiers_ok V cp" and "list_ok V mem l" and "List_DeepCopyInto cp l mem = (l', mem')" and "new_kept mem mem' mem2"
  shows "listVal V mem2 l' = listVal V mem' l'"
proof (rule listVal_kept [OF assms(1)])
  note c = List_DeepCopyInto_ok [OF assms(1-3)]
  show "same_at {length (mem_cells mem)..<length (mem_cells mem')} (mem_cells mem') (mem_cells mem2)"
    using assms(4) by (simp add: new_kept_def)
  show "rc_ListMeta V (mem_cells mem') (v1l_ListMeta l') \<subseteq> {length (mem_cells mem)..<length (mem_cells mem')}" by (rule c(4))
  fix sl assume "v1l_Items l' = Some sl"
  note i = c(5) [OF this]
  have "same_at {length (mem_arrays mem)..<length (mem_arrays mem')} (mem_arrays mem') (mem_arrays mem2)"
    using assms(4) by (simp add: new_kept_def)
  from same_at_nth [OF this i [THEN conjunct1]] i [THEN conjunct2]
  show "mem_arrays mem2 ! sl_array sl = mem_arrays mem' ! sl_array sl \<and>
      \<Union> (set (map (profileReach V (mem_cells mem')) (sliceItems (mem_arrays mem') sl)))
        \<subseteq> {length (mem_cells mem)..<length (mem_cells mem')}" by simp
qed

section \<open>Properties\<close>

text \<open>
  C28: Copying a list of profiles makes a new list that stands for the same value and shares nothing with the list it was
  copied from: whatever is written afterwards to what the copy consists of, the original keeps its value, and whatever
  is written to anything that existed before, the copy keeps it. The nil pointer is copied to a nil interface.
\<close>

theorem deep_copy_independent:
  assumes "copiers_ok V cp" and "list_ok V mem (mem_lists mem ! a)" and "List_DeepCopyObject cp (Some a) mem = (r, mem')"
  shows "\<exists>copy. r = Some (ListObject (length (mem_lists mem))) \<and> mem_lists mem' = mem_lists mem @ [copy] \<and>
      listVal V mem' copy = listVal V mem (mem_lists mem ! a) \<and>
      (\<forall>mem2. old_kept mem mem' mem2 \<longrightarrow> listVal V mem2 (mem_lists mem ! a) = listVal V mem (mem_lists mem ! a)) \<and>
      (\<forall>mem2. new_kept mem mem' mem2 \<longrightarrow> listVal V mem2 copy = listVal V mem (mem_lists mem ! a)) \<and>
      List_DeepCopyObject cp None mem = (None, mem)"
proof -
  let ?l = "mem_lists mem ! a"
  obtain copy mem1 where d: "List_DeepCopyInto cp ?l mem = (copy, mem1)" by (cases "List_DeepCopyInto cp ?l mem")
  note c = List_DeepCopyInto_ok [OF assms(1,2) d]
  from assms(3) d c(6) have r: "r = Some (ListObject (length (mem_lists mem)))" and mem': "mem' = mem1\<lparr>mem_lists := mem_lists mem @ [copy]\<rparr>"
    by (simp_all add: List_DeepCopyObject_def List_DeepCopy_def)
  have v: "listVal V mem' l = listVal V mem1 l" for l by (simp add: mem' listVal_def)
  have old: "listVal V mem2 ?l = listVal V mem ?l" if "old_kept mem mem' mem2" for mem2
    using original_kept [OF assms(1,2) c(2,3), of mem2] that by (simp add: old_kept_def mem')
  have new: "listVal V mem2 copy = listVal V mem ?l" if "new_kept mem mem' mem2" for mem2
    using copy_kept [OF assms(1,2) d, of mem2] that c(1) by (simp add: new_kept_def mem')
  have "List_DeepCopyObject cp None mem = (None, mem)" by (simp add: List_DeepCopyObject_def List_DeepCopy_def)
  with r old new v c(1) show ?thesis by (intro exI [of _ copy]) (simp add: mem')
qed

section \<open>A concrete memory\<close>

text \<open>A struct of another package that refers to one cell.\<close>

definition cellVal :: "'c list \<Rightarrow> nat \<Rightarrow> 'c option" where
  "cellVal h a = (if a < length h then Some (h ! a) else None)"

definition cellReach :: "'c list \<Rightarrow> nat \<Rightarrow> nat set" where
  "cellReach h a = {a}"

definition cellCopy :: "(nat, 'c) deepCopyInto" where
  "cellCopy a h = (length h, h @ [h ! a])"

lemma cellCopy_ok: "deep_copies cellVal cellReach cellCopy"
  by (auto simp: deep_copies_def cellVal_def cellReach_def cellCopy_def same_at_def extends_append)

definition sampleViews :: "(string, nat, nat, nat, string option) views" where
  "sampleViews = \<lparr>vw_ObjectMeta = cellVal, vw_UpstreamSpec = cellVal, vw_ListMeta = cellVal,
     rc_ObjectMeta = cellReach, rc_UpstreamSpec = cellReach, rc_ListMeta = cellReach\<rparr>"

definition sampleCopiers :: "(string, nat, nat, nat) copiers" where
  "sampleCopiers = \<lparr>cp_ObjectMeta = cellCopy, cp_UpstreamSpec = cellCopy, cp_ListMeta = cellCopy\<rparr>"

lemma sampleCopiers_ok: "copiers_ok sampleViews sampleCopiers"
  by (simp add: copiers_ok_def sampleViews_def sampleCopiers_def cellCopy_ok)

definition sampleType :: "string \<Rightarrow> TypeMeta" where
  "sampleType k = \<lparr>tm_Kind = k, tm_APIVersion = ''cloudagent.appuio.io/v1''\<rparr>"

text \<open>Two profiles that share the cell of their metadata.\<close>

definition sampleMemory :: "(string, nat, nat, nat) memory" where
  "sampleMemory =
     \<lparr>mem_cells = [''list'', ''name'', ''limits''], mem_profiles = [],
      mem_lists = [\<lparr>v1l_TypeMeta = sampleType ''ZoneUsageProfileList'', v1l_ListMeta = 0,
        v1l_Items = Some \<lparr>sl_array = 0, sl_from = 0, sl_len = 2\<rparr>\<rparr>],
      mem_specs = [], mem_statuses = [],
      mem_arrays = [replicate 2 \<lparr>v1_TypeMeta = sampleType ''ZoneUsageProfile'', v1_ObjectMeta = 1,
        v1_Spec = \<lparr>v1_UpstreamSpec = 2\<rparr>, v1_Status = \<lparr>v1_nothing = ()\<rparr>\<rparr>]\<rparr>"

lemma sampleMemory_ok: "list_ok sampleViews sampleMemory (mem_lists sampleMemory ! 0)"
  by (simp add: list_ok_def sampleMemory_def sampleViews_def cellReach_def profileReach_def sliceItems_def numeral_2_eq_2)

theorem deep_copy_independent_witness:
  "\<exists>mem' copy. List_DeepCopyObject sampleCopiers (Some 0) sampleMemory = (Some (ListObject 1), mem') \<and>
     mem_lists mem' ! 1 = copy \<and> listVal sampleViews mem' copy = listVal sampleViews sampleMemory (mem_lists sampleMemory ! 0) \<and>
     listVal sampleViews (mem'\<lparr>mem_cells := (mem_cells mem')[1 := ''other'']\<rparr>) copy =
       listVal sampleViews sampleMemory (mem_lists sampleMemory ! 0)"
proof -
  obtain r mem' where d: "List_DeepCopyObject sampleCopiers (Some 0) sampleMemory = (r, mem')"
    by (cases "List_DeepCopyObject sampleCopiers (Some 0) sampleMemory")
  from deep_copy_independent [OF sampleCopiers_ok sampleMemory_ok d] obtain copy where
    c: "r = Some (ListObject (length (mem_lists sampleMemory)))" "mem_lists mem' = mem_lists sampleMemory @ [copy]"
      "listVal sampleViews mem' copy = listVal sampleViews sampleMemory (mem_lists sampleMemory ! 0)"
    and n: "\<forall>mem2. new_kept sampleMemory mem' mem2 \<longrightarrow> listVal sampleViews mem2 copy = listVal sampleViews sampleMemory (mem_lists sampleMemory ! 0)"
    by blast
  have "new_kept sampleMemory mem' (mem'\<lparr>mem_cells := (mem_cells mem')[1 := ''other'']\<rparr>)"
    by (simp add: new_kept_def same_at_def sampleMemory_def)
  with n have "listVal sampleViews (mem'\<lparr>mem_cells := (mem_cells mem')[1 := ''other'']\<rparr>) copy =
       listVal sampleViews sampleMemory (mem_lists sampleMemory ! 0)" by blast
  moreover have "length (mem_lists sampleMemory) = 1" by (simp add: sampleMemory_def)
  ultimately show ?thesis using c d by (intro exI [of _ mem'] exI [of _ copy]) (simp add: nth_append)
qed

end
