(* ===== verification/CommandLine.thy ===== *)
theory CommandLine
  imports GoStrings "HOL-Library.Log_Nat"
begin

text \<open>
  The command line of the agent: the flags that main.go defines, and package flag of the standard library, which
  parses them. Other packages define flags of their own before \<open>flag.Parse\<close> is called (zap its logging options, the
  client configuration the path of a kubeconfig); they are the parameter \<open>foreign\<close>, and \<open>'z\<close> is what they are set to.
\<close>

section \<open>Integers with a base prefix\<close>

text \<open>\<open>strconv.ParseInt(s, 0, 64)\<close>: the prefix of the digits gives the base, and underscores may separate digits.\<close>

definition baseDigit :: "char \<Rightarrow> nat option" where
  "baseDigit c = (let b = of_char c :: nat
     in if 48 \<le> b \<and> b \<le> 57 then Some (b - 48)
        else if 97 \<le> b \<and> b \<le> 122 then Some (b - 97 + 10)
        else if 65 \<le> b \<and> b \<le> 90 then Some (b - 65 + 10)
        else None)"

fun scanDigits :: "nat \<Rightarrow> nat \<Rightarrow> string \<Rightarrow> num_err + nat" where
  "scanDigits base n [] = Inr n"
| "scanDigits base n (c # s) =
     (if c = CHR ''_'' then scanDigits base n s
      else case baseDigit c of
        None \<Rightarrow> Inl ErrSyntax
      | Some d \<Rightarrow>
          if d \<ge> base then Inl ErrSyntax
          else if n \<ge> maxUint64 div base + 1 then Inl ErrRange
          else if n * base + d > maxUint64 then Inl ErrRange
          else scanDigits base (n * base + d) s)"

text \<open>The base and what follows its prefix.\<close>

definition basePrefix :: "string \<Rightarrow> nat \<times> string" where
  "basePrefix s =
     (if s = [] \<or> hd s \<noteq> CHR ''0'' then (10, s)
      else if length s \<ge> 3 \<and> s ! 1 \<in> set ''bB'' then (2, drop 2 s)
      else if length s \<ge> 3 \<and> s ! 1 \<in> set ''oO'' then (8, drop 2 s)
      else if length s \<ge> 3 \<and> s ! 1 \<in> set ''xX'' then (16, drop 2 s)
      else (8, drop 1 s))"

text \<open>An underscore must follow a digit or the prefix, and a digit must follow it. \<open>saw\<close> is the kind of the last byte.\<close>

datatype saw = SawStart | SawDigit | SawUnderscore | SawOther

fun underscoresFrom :: "bool \<Rightarrow> saw \<Rightarrow> string \<Rightarrow> bool" where
  "underscoresFrom hex saw [] = (saw \<noteq> SawUnderscore)"
| "underscoresFrom hex saw (c # s) =
     (if (case baseDigit c of None \<Rightarrow> False | Some d \<Rightarrow> d < 10 \<or> hex \<and> d < 16) then underscoresFrom hex SawDigit s
      else if c = CHR ''_'' then saw = SawDigit \<and> underscoresFrom hex SawUnderscore s
      else saw \<noteq> SawUnderscore \<and> underscoresFrom hex SawOther s)"

definition underscoreOK :: "string \<Rightarrow> bool" where
  "underscoreOK s =
     (if length s \<ge> 2 \<and> hd s = CHR ''0'' \<and> s ! 1 \<in> set ''bBoOxX''
      then underscoresFrom (s ! 1 \<in> set ''xX'') SawDigit (drop 2 s)
      else underscoresFrom False SawStart s)"

definition ParseUint0 :: "string \<Rightarrow> num_err + nat" where
  "ParseUint0 s =
     (if s = [] then Inl ErrSyntax
      else (case basePrefix s of (base, ds) \<Rightarrow>
        (case scanDigits base 0 ds of
           Inl e \<Rightarrow> Inl e
         | Inr n \<Rightarrow> if CHR ''_'' \<in> set ds \<and> \<not> underscoreOK s then Inl ErrSyntax else Inr n)))"

definition ParseInt0 :: "string \<Rightarrow> num_err + int" where
  "ParseInt0 s = (case s of
      [] \<Rightarrow> Inl ErrSyntax
    | c # t \<Rightarrow>
        (let neg = (c = CHR ''-'')
         in case ParseUint0 (if c = CHR ''+'' \<or> c = CHR ''-'' then t else s) of
              Inl e \<Rightarrow> Inl e
            | Inr un \<Rightarrow>
                if \<not> neg \<and> un \<ge> 2 ^ 63 then Inl ErrRange
                else if neg \<and> un > 2 ^ 63 then Inl ErrRange
                else Inr (if neg then - int un else int un)))"

section \<open>Package flag\<close>

text \<open>A flag of a set: its name, whether it is boolean, and \<open>Set\<close>, which fails for a value that cannot be parsed.\<close>

record 'st Flag =
  fg_Name :: string
  fg_IsBool :: bool
  fg_Set :: "string \<Rightarrow> 'st \<Rightarrow> 'st option"

text \<open>Defining a flag panics for a name that is taken, begins with a minus sign or contains an equals sign.\<close>

definition defineFlag :: "'st Flag list \<Rightarrow> 'st Flag \<Rightarrow> 'st Flag list option" where
  "defineFlag fs f =
     (if HasPrefix (fg_Name f) ''-'' then None
      else if CHR ''='' \<in> set (fg_Name f) then None
      else if fg_Name f \<in> fg_Name ` set fs then None
      else Some (fs @ [f]))"

fun defineFlags :: "'st Flag list \<Rightarrow> 'st Flag list \<Rightarrow> 'st Flag list option" where
  "defineFlags fs [] = Some fs"
| "defineFlags fs (f # rest) = (case defineFlag fs f of None \<Rightarrow> None | Some fs' \<Rightarrow> defineFlags fs' rest)"

text \<open>What \<open>parseOne\<close> makes of the next argument; \<open>StopsWith\<close> carries the exit status of \<open>ExitOnError\<close>.\<close>

datatype 'st parsedOne = Seen 'st "string list" | NoFlag "string list" | StopsWith int

definition setFlag :: "'st Flag \<Rightarrow> string \<Rightarrow> 'st \<Rightarrow> string list \<Rightarrow> 'st parsedOne" where
  "setFlag f value st args = (case fg_Set f value st of None \<Rightarrow> StopsWith 2 | Some st' \<Rightarrow> Seen st' args)"

definition parseNamed :: "'st Flag list \<Rightarrow> 'st \<Rightarrow> string \<Rightarrow> string list \<Rightarrow> 'st parsedOne" where
  "parseNamed fs st nameValue args =
     (let name = hd nameValue # takeWhile (\<lambda>c. c \<noteq> CHR ''='') (tl nameValue);
          rest = drop (length name) nameValue;
          hasValue = (rest \<noteq> [])
      in case find (\<lambda>f. fg_Name f = name) fs of
           None \<Rightarrow> StopsWith (if name = ''help'' \<or> name = ''h'' then 0 else 2)
         | Some f \<Rightarrow>
             if fg_IsBool f then setFlag f (if hasValue then tl rest else ''true'') st args
             else if hasValue then setFlag f (tl rest) st args
             else (case args of [] \<Rightarrow> StopsWith 2 | value # args' \<Rightarrow> setFlag f value st args'))"

definition parseOne :: "'st Flag list \<Rightarrow> 'st \<Rightarrow> string list \<Rightarrow> 'st parsedOne" where
  "parseOne fs st args = (case args of
      [] \<Rightarrow> NoFlag []
    | s # args' \<Rightarrow>
        if length s < 2 \<or> hd s \<noteq> CHR ''-'' then NoFlag args
        else if s = ''--'' then NoFlag args'
        else (let nameValue = (if s ! 1 = CHR ''-'' then drop 2 s else drop 1 s)
              in if nameValue = [] \<or> hd nameValue = CHR ''-'' \<or> hd nameValue = CHR ''='' then StopsWith 2
                 else parseNamed fs st nameValue args'))"

lemma setFlag_args: "setFlag f v st args = Seen st' rest \<Longrightarrow> rest = args"
  by (simp add: setFlag_def split: option.splits)

lemma parseNamed_consumes:
  assumes "parseNamed fs st nv args = Seen st' rest"
  shows "length rest \<le> length args"
proof -
  let ?name = "hd nv # takeWhile (\<lambda>c. c \<noteq> CHR ''='') (tl nv)"
  from assms obtain f where f: "find (\<lambda>f. fg_Name f = ?name) fs = Some f"
    by (cases "find (\<lambda>f. fg_Name f = ?name) fs") (simp_all only: parseNamed_def Let_def option.case parsedOne.distinct)
  with assms show ?thesis
    by (auto simp only: parseNamed_def Let_def option.case length_Cons dest!: setFlag_args split: if_splits list.splits)
qed

lemma parseOne_consumes: "parseOne fs st args = Seen st' rest \<Longrightarrow> length rest < length args"
  by (auto simp: parseOne_def Let_def dest!: parseNamed_consumes split: list.splits if_splits)

text \<open>\<open>Parse\<close> goes on until an argument is not a flag.\<close>

datatype 'st parsed = Parsed 'st "string list" | ExitStatus int

function parseFlags :: "'st Flag list \<Rightarrow> 'st \<Rightarrow> string list \<Rightarrow> 'st parsed" where
  "parseFlags fs st args = (case parseOne fs st args of
      Seen st' rest \<Rightarrow> parseFlags fs st' rest
    | NoFlag rest \<Rightarrow> Parsed st rest
    | StopsWith n \<Rightarrow> ExitStatus n)"
  by pat_completeness auto
termination
  by (relation "measure (\<lambda>(fs, st, args). length args)") (auto simp: parseOne_consumes)

declare parseFlags.simps [simp del]

section \<open>The flags of the agent\<close>

record flags =
  fl_metricsAddr :: string
  fl_enableLeaderElection :: bool
  fl_probeAddr :: string
  fl_webhookCertDir :: string
  fl_webhookPort :: int
  fl_configFilePath :: string
  fl_controlAPIKubeconfig :: string
  fl_controlAPIURL :: string
  fl_upstreamZoneIdentifier :: string
  fl_selectedUsageProfile :: string
  fl_cloudscaleLoadbalancerValidationEnabled :: bool
  fl_namespaceProjectOrganizationMutatorEnabled :: bool
  fl_namespaceMetadataValidatorEnabled :: bool
  fl_legacyNamespaceQuotaEnabled :: bool
  fl_legacyResourceQuotaEnabled :: bool
  fl_podRunOnceActiveDeadlineSecondsMutatorEnabled :: bool
  fl_qps :: int
  fl_burst :: int
  fl_disableUserAttributeSync :: bool
  fl_disableGroupSync :: bool
  fl_disableUsageProfiles :: bool

definition defaultFlags :: flags where
  "defaultFlags =
     \<lparr>fl_metricsAddr = '':8080'', fl_enableLeaderElection = False, fl_probeAddr = '':8082'', fl_webhookCertDir = [],
      fl_webhookPort = 9443, fl_configFilePath = ''./config.yaml'', fl_controlAPIKubeconfig = ''kubeconfig-control-api'',
      fl_controlAPIURL = [], fl_upstreamZoneIdentifier = [], fl_selectedUsageProfile = [],
      fl_cloudscaleLoadbalancerValidationEnabled = False, fl_namespaceProjectOrganizationMutatorEnabled = False,
      fl_namespaceMetadataValidatorEnabled = False, fl_legacyNamespaceQuotaEnabled = False,
      fl_legacyResourceQuotaEnabled = False, fl_podRunOnceActiveDeadlineSecondsMutatorEnabled = False,
      fl_qps = 20, fl_burst = 100, fl_disableUserAttributeSync = False, fl_disableGroupSync = False, fl_disableUsageProfiles = False\<rparr>"

text \<open>A variable of the agent that a flag sets, with how it is read and written.\<close>

datatype flagVar =
    StringVar "flags \<Rightarrow> string" "(string \<Rightarrow> string) \<Rightarrow> flags \<Rightarrow> flags"
  | BoolVar "flags \<Rightarrow> bool" "(bool \<Rightarrow> bool) \<Rightarrow> flags \<Rightarrow> flags"
  | IntVar "flags \<Rightarrow> int" "(int \<Rightarrow> int) \<Rightarrow> flags \<Rightarrow> flags"

fun setVar :: "flagVar \<Rightarrow> string \<Rightarrow> flags \<Rightarrow> flags option" where
  "setVar (StringVar get upd) v fl = Some (upd (\<lambda>_. v) fl)"
| "setVar (BoolVar get upd) v fl = map_option (\<lambda>b. upd (\<lambda>_. b) fl) (ParseBool v)"
| "setVar (IntVar get upd) v fl = (case ParseInt0 v of Inl e \<Rightarrow> None | Inr i \<Rightarrow> Some (upd (\<lambda>_. i) fl))"

fun isBoolVar :: "flagVar \<Rightarrow> bool" where
  "isBoolVar (BoolVar get upd) = True"
| "isBoolVar v = False"

text \<open>The flags in the order of their definitions.\<close>

definition flagVars :: "(string \<times> flagVar) list" where
  "flagVars =
     [(''metrics-bind-address'', StringVar fl_metricsAddr fl_metricsAddr_update),
      (''leader-elect'', BoolVar fl_enableLeaderElection fl_enableLeaderElection_update),
      (''health-probe-bind-address'', StringVar fl_probeAddr fl_probeAddr_update),
      (''webhook-cert-dir'', StringVar fl_webhookCertDir fl_webhookCertDir_update),
      (''webhook-port'', IntVar fl_webhookPort fl_webhookPort_update),
      (''config-file'', StringVar fl_configFilePath fl_configFilePath_update),
      (''kubeconfig-control-api'', StringVar fl_controlAPIKubeconfig fl_controlAPIKubeconfig_update),
      (''control-api-url'', StringVar fl_controlAPIURL fl_controlAPIURL_update),
      (''upstream-zone-identifier'', StringVar fl_upstreamZoneIdentifier fl_upstreamZoneIdentifier_update),
      (''usage-profile'', StringVar fl_selectedUsageProfile fl_selectedUsageProfile_update),
      (''cloudscale-loadbalancer-validation-enabled'',
         BoolVar fl_cloudscaleLoadbalancerValidationEnabled fl_cloudscaleLoadbalancerValidationEnabled_update),
      (''namespace-project-organization-mutator-enabled'',
         BoolVar fl_namespaceProjectOrganizationMutatorEnabled fl_namespaceProjectOrganizationMutatorEnabled_update),
      (''namespace-metadata-validator-enabled'',
         BoolVar fl_namespaceMetadataValidatorEnabled fl_namespaceMetadataValidatorEnabled_update),
      (''legacy-namespace-quota-enabled'', BoolVar fl_legacyNamespaceQuotaEnabled fl_legacyNamespaceQuotaEnabled_update),
      (''legacy-resource-quota-enabled'', BoolVar fl_legacyResourceQuotaEnabled fl_legacyResourceQuotaEnabled_update),
      (''pod-run-once-active-deadline-seconds-mutator-enabled'',
         BoolVar fl_podRunOnceActiveDeadlineSecondsMutatorEnabled fl_podRunOnceActiveDeadlineSecondsMutatorEnabled_update),
      (''qps'', IntVar fl_qps fl_qps_update),
      (''burst'', IntVar fl_burst fl_burst_update),
      (''disable-user-attribute-sync'', BoolVar fl_disableUserAttributeSync fl_disableUserAttributeSync_update),
      (''disable-group-sync'', BoolVar fl_disableGroupSync fl_disableGroupSync_update),
      (''disable-usage-profiles'', BoolVar fl_disableUsageProfiles fl_disableUsageProfiles_update)]"

definition ownFlag :: "string \<times> flagVar \<Rightarrow> (flags \<times> 'z) Flag" where
  "ownFlag = (\<lambda>(name, var).
     \<lparr>fg_Name = name, fg_IsBool = isBoolVar var, fg_Set = (\<lambda>v (fl, z). map_option (\<lambda>fl. (fl, z)) (setVar var v fl))\<rparr>)"

definition foreignFlag :: "'z Flag \<Rightarrow> (flags \<times> 'z) Flag" where
  "foreignFlag f = \<lparr>fg_Name = fg_Name f, fg_IsBool = fg_IsBool f, fg_Set = (\<lambda>v (fl, z). map_option (Pair fl) (fg_Set f v z))\<rparr>"

text \<open>
  The flags of the process: those that imported packages define when they are initialized, those of the agent, and
  those of \<open>zap.Options.BindFlags\<close>.
\<close>

definition flagSet :: "'z Flag list \<Rightarrow> 'z Flag list \<Rightarrow> (flags \<times> 'z) Flag list option" where
  "flagSet initFlags zapFlags = defineFlags [] (map foreignFlag initFlags @ map ownFlag flagVars @ map foreignFlag zapFlags)"

text \<open>\<open>None\<close>: a flag was defined twice, which panics.\<close>

definition commandLine :: "'z Flag list \<Rightarrow> 'z Flag list \<Rightarrow> 'z \<Rightarrow> string list \<Rightarrow> (flags \<times> 'z) parsed option" where
  "commandLine initFlags zapFlags z args =
     map_option (\<lambda>fs. parseFlags fs (defaultFlags, z) args) (flagSet initFlags zapFlags)"

section \<open>The options of the manager\<close>

text \<open>\<open>float32(i)\<close> of an integer: 24 binary digits, the nearest number and of two nearest the even one.\<close>

definition float32OfInt :: "int \<Rightarrow> int" where
  "float32OfInt i =
     (let n = nat \<bar>i\<bar>; u = 2 ^ (if n < 2 ^ 24 then 0 else floorlog 2 n - 24); q = n div u; r = n mod u;
          m = (if 2 * r > u \<or> 2 * r = u \<and> odd q then q + 1 else q)
      in sgn i * int (m * u))"

record managerOptions =
  mo_QPS :: int
  mo_Burst :: int
  mo_MetricsBindAddress :: string
  mo_HealthProbeBindAddress :: string
  mo_LeaderElection :: bool
  mo_LeaderElectionID :: string
  mo_WebhookPort :: int
  mo_WebhookCertDir :: string

definition managerOptionsOf :: "flags \<Rightarrow> managerOptions" where
  "managerOptionsOf fl =
     \<lparr>mo_QPS = float32OfInt (fl_qps fl), mo_Burst = fl_burst fl, mo_MetricsBindAddress = fl_metricsAddr fl,
      mo_HealthProbeBindAddress = fl_probeAddr fl, mo_LeaderElection = fl_enableLeaderElection fl,
      mo_LeaderElectionID = ''f2g2bc31.appuio-cloud-agent.appuio.io'', mo_WebhookPort = fl_webhookPort fl,
      mo_WebhookCertDir = fl_webhookCertDir fl\<rparr>"

section \<open>Integers are read back\<close>

lemma digit_val_baseDigit: "digit_val c = Some d \<Longrightarrow> baseDigit c = Some d \<and> d < 10 \<and> c \<noteq> CHR ''_''"
  by (auto simp: digit_val_def baseDigit_def Let_def split: if_splits)

lemma scanDigits_ten: "parseUintLoop n s = Inr m \<Longrightarrow> scanDigits 10 n s = Inr m \<and> CHR ''_'' \<notin> set s"
  by (induction n s rule: parseUintLoop.induct) (auto dest: digit_val_baseDigit split: option.splits if_splits)

lemma showNat_head_positive: "0 < n \<Longrightarrow> hd (showNat n) \<noteq> CHR ''0''"
proof (induction n rule: showNat.induct)
  case (1 n)
  show ?case
  proof (cases "n < 10")
    case True
    have "digit_val (digit_char n) \<noteq> digit_val (CHR ''0'')" using True 1 by (simp add: digit_val_def [of "CHR ''0''"])
    then have "digit_char n \<noteq> CHR ''0''" by metis
    then show ?thesis using True by (subst showNat.simps) simp
  next
    case False
    with 1 show ?thesis by (subst showNat.simps) simp
  qed
qed

lemma ParseUint0_showNat:
  assumes "n \<le> maxUint64"
  shows "ParseUint0 (showNat n) = Inr n"
proof (cases "n = 0")
  case True
  then have "showNat n = ''0''" by (subst showNat.simps) (simp add: digit_char_def char_of_def bit_Suc_0_iff)
  with True show ?thesis by (simp add: ParseUint0_def basePrefix_def)
next
  case False
  have "basePrefix (showNat n) = (10, showNat n)" using False showNat_head_positive [of n] by (simp add: basePrefix_def)
  with scanDigits_ten [OF parseUintLoop_showNat [OF assms]] show ?thesis by (simp add: ParseUint0_def)
qed

text \<open>The range of the type \<open>int\<close>.\<close>

definition goInt :: "int \<Rightarrow> bool" where
  "goInt v \<longleftrightarrow> - (2 ^ 63) \<le> v \<and> v < 2 ^ 63"

lemma ParseInt0_bounds: "ParseInt0 s = Inr v \<Longrightarrow> goInt v"
  by (auto simp: ParseInt0_def goInt_def Let_def split: list.splits sum.splits if_splits)

lemma ParseInt0_Itoa: "goInt v \<Longrightarrow> ParseInt0 (Itoa v) = Inr v"
proof (cases "v < 0")
  case True
  assume "goInt v"
  then have "- v \<le> 2 ^ 63" by (simp add: goInt_def)
  then have "nat (- v) \<le> 2 ^ 63" by (simp add: nat_le_iff)
  moreover from this have "nat (- v) \<le> maxUint64" by (simp add: maxUint64_def)
  ultimately show ?thesis using True by (simp add: ParseInt0_def Itoa_def ParseUint0_showNat)
next
  case False
  assume "goInt v"
  then have b: "nat v < 2 ^ 63" using False by (simp add: goInt_def)
  then have p: "ParseUint0 (showNat (nat v)) = Inr (nat v)" by (intro ParseUint0_showNat) (simp add: maxUint64_def)
  obtain c t where ct: "showNat (nat v) = c # t" by (cases "showNat (nat v)") auto
  have "c \<noteq> CHR ''+''" "c \<noteq> CHR ''-''" using showNat_head [of "nat v"] ct by auto
  then show ?thesis using False b p ct by (simp add: ParseInt0_def Itoa_def)
qed

section \<open>The flags of a command line\<close>

lemma defineFlags_Some:
  "defineFlags fs l = Some fs' \<Longrightarrow> distinct (map fg_Name fs) \<Longrightarrow>
    fs' = fs @ l \<and> distinct (map fg_Name fs') \<and> (\<forall>f \<in> set l. \<not> HasPrefix (fg_Name f) ''-'' \<and> CHR ''='' \<notin> set (fg_Name f))"
proof (induction fs l rule: defineFlags.induct)
  case (2 fs f rest)
  then obtain fs1 where d: "defineFlag fs f = Some fs1" and r: "defineFlags fs1 rest = Some fs'" by (auto split: option.splits)
  from d have f: "fs1 = fs @ [f]" "\<not> HasPrefix (fg_Name f) ''-''" "CHR ''='' \<notin> set (fg_Name f)" "fg_Name f \<notin> fg_Name ` set fs"
    by (auto simp: defineFlag_def split: if_splits)
  with 2(3) have "distinct (map fg_Name fs1)" by simp
  note IH = 2(1) [OF d r this]
  show ?case
  proof (intro conjI)
    show "fs' = fs @ f # rest" using IH f(1) by simp
    show "distinct (map fg_Name fs')" using IH by blast
    show "\<forall>g \<in> set (f # rest). \<not> HasPrefix (fg_Name g) ''-'' \<and> CHR ''='' \<notin> set (fg_Name g)" using IH f(2,3) by simp
  qed
qed simp

lemma find_distinct: "distinct (map k xs) \<Longrightarrow> x \<in> set xs \<Longrightarrow> find (\<lambda>y. k y = k x) xs = Some x"
  by (induction xs) auto

lemma flagVars_nonempty: "(name, var) \<in> set flagVars \<Longrightarrow> name \<noteq> []"
  by (auto simp: flagVars_def)

lemma flagSet_own:
  assumes "flagSet initFlags zapFlags = Some fs" and "(name, var) \<in> set flagVars"
  shows "find (\<lambda>f. fg_Name f = name) fs = Some (ownFlag (name, var))"
    and "name \<noteq> []" and "hd name \<noteq> CHR ''-''" and "CHR ''='' \<notin> set name"
proof -
  let ?l = "map foreignFlag initFlags @ map ownFlag flagVars @ map foreignFlag zapFlags"
  have D: "fs = [] @ ?l \<and> distinct (map fg_Name fs) \<and>
      (\<forall>f \<in> set ?l. \<not> HasPrefix (fg_Name f) ''-'' \<and> CHR ''='' \<notin> set (fg_Name f))"
    by (rule defineFlags_Some [OF assms(1) [unfolded flagSet_def]]) simp
  then have fs: "fs = ?l" "distinct (map fg_Name fs)"
    and n: "\<forall>f \<in> set ?l. \<not> HasPrefix (fg_Name f) ''-'' \<and> CHR ''='' \<notin> set (fg_Name f)"
    unfolding append_Nil by blast+
  have m: "ownFlag (name, var) \<in> set ?l" using assms(2) by force
  then have "find (\<lambda>f. fg_Name f = fg_Name (ownFlag (name, var) :: (flags \<times> 'a) Flag)) fs = Some (ownFlag (name, var))"
    using find_distinct [OF fs(2), of "ownFlag (name, var)"] fs(1) by blast
  then show "find (\<lambda>f. fg_Name f = name) fs = Some (ownFlag (name, var))" by (simp add: ownFlag_def)
  show ne: "name \<noteq> []" by (rule flagVars_nonempty [OF assms(2)])
  have "\<not> HasPrefix name ''-'' \<and> CHR ''='' \<notin> set name" using bspec [OF n m] by (simp add: ownFlag_def)
  then show "hd name \<noteq> CHR ''-''" and "CHR ''='' \<notin> set name" using ne by (cases name; simp add: HasPrefix_def)+
qed

text \<open>An argument \<open>-name=value\<close>.\<close>

definition flagArg :: "string \<Rightarrow> string \<Rightarrow> string" where
  "flagArg name v = ''-'' @ name @ ''='' @ v"

lemma parseOne_own:
  assumes "flagSet initFlags zapFlags = Some fs" and "(name, var) \<in> set flagVars"
  shows "parseOne fs st (flagArg name v # args) = setFlag (ownFlag (name, var)) v st args"
proof -
  note o = flagSet_own [OF assms]
  obtain c t where name: "name = c # t" using o(2) by (cases name) auto
  have c: "c \<noteq> CHR ''-''" "c \<noteq> CHR ''=''" "CHR ''='' \<notin> set t" using o(3,4) name by auto
  then have "takeWhile (\<lambda>c. c \<noteq> CHR ''='') (t @ CHR ''='' # v) = t"
    by (subst takeWhile_append2) auto
  then have "parseNamed fs st (name @ CHR ''='' # v) args = setFlag (ownFlag (name, var)) v st args"
    using o(1) by (simp add: parseNamed_def name Let_def)
  with c show ?thesis by (simp add: parseOne_def flagArg_def name)
qed

text \<open>The arguments that give every flag the value it has in \<open>fl\<close>.\<close>

fun printVar :: "flagVar \<Rightarrow> flags \<Rightarrow> string" where
  "printVar (StringVar get upd) fl = get fl"
| "printVar (BoolVar get upd) fl = (if get fl then ''true'' else ''false'')"
| "printVar (IntVar get upd) fl = Itoa (get fl)"

definition flagArgs :: "flags \<Rightarrow> string list" where
  "flagArgs fl = map (\<lambda>(name, var). flagArg name (printVar var fl)) flagVars"

fun copyVar :: "flags \<Rightarrow> flags \<Rightarrow> flagVar \<Rightarrow> flags" where
  "copyVar fl g (StringVar get upd) = upd (\<lambda>_. get fl) g"
| "copyVar fl g (BoolVar get upd) = upd (\<lambda>_. get fl) g"
| "copyVar fl g (IntVar get upd) = upd (\<lambda>_. get fl) g"

definition goInts :: "flags \<Rightarrow> bool" where
  "goInts fl \<longleftrightarrow> goInt (fl_webhookPort fl) \<and> goInt (fl_qps fl) \<and> goInt (fl_burst fl)"

lemma setVar_printVar:
  assumes "goInts fl" and "(name, var) \<in> set flagVars"
  shows "setVar var (printVar var fl) g = Some (copyVar fl g var)"
proof -
  have "goInt (get fl)" if "var = IntVar get upd" for get upd
    using assms that by (auto simp: flagVars_def goInts_def)
  then show ?thesis by (cases var) (auto simp: ParseBool_def ParseInt0_Itoa)
qed

lemma copyVar_flagVars: "foldl (copyVar fl) g (map snd flagVars) = fl"
  by (cases fl; cases g) (simp add: flagVars_def)

lemma parseFlags_args:
  assumes "flagSet initFlags zapFlags = Some fs" and "goInts fl"
  shows "set vars \<subseteq> set flagVars \<Longrightarrow>
    parseFlags fs (g, z) (map (\<lambda>(name, var). flagArg name (printVar var fl)) vars @ rest) =
    parseFlags fs (foldl (copyVar fl) g (map snd vars), z) rest"
proof (induction vars arbitrary: g)
  case (Cons x vars)
  obtain name var where x: "x = (name, var)" by (cases x)
  then have m: "(name, var) \<in> set flagVars" using Cons.prems by simp
  have "setFlag (ownFlag (name, var)) (printVar var fl) (g, z) args = Seen (copyVar fl g var, z) args" for args
    by (simp add: setFlag_def ownFlag_def setVar_printVar [OF assms(2) m])
  with parseOne_own [OF assms(1) m] Cons x show ?case by (subst parseFlags.simps) simp
qed simp

lemma parseFlags_flagArgs:
  assumes "flagSet initFlags zapFlags = Some fs" and "goInts fl"
  shows "parseFlags fs (g, z) (flagArgs fl @ rest) = parseFlags fs (fl, z) rest"
  using parseFlags_args [OF assms, of flagVars g z rest] by (simp add: flagArgs_def copyVar_flagVars)

lemma commandLine_flagArgs:
  assumes "flagSet initFlags zapFlags \<noteq> None" and "goInts fl"
  shows "commandLine initFlags zapFlags z (flagArgs fl @ ''--'' # rest) = Some (Parsed (fl, z) rest)"
proof -
  obtain fs where fs: "flagSet initFlags zapFlags = Some fs" using assms(1) by blast
  show ?thesis using parseFlags_flagArgs [OF fs assms(2), of defaultFlags z "''--'' # rest"]
    by (simp add: commandLine_def fs parseFlags.simps [of fs "(fl, z)"] parseOne_def)
qed

text \<open>What every flag preserves, a command line preserves.\<close>

lemma parseOne_preserves:
  assumes "\<And>f v st st'. f \<in> set fs \<Longrightarrow> fg_Set f v st = Some st' \<Longrightarrow> P st \<Longrightarrow> P st'"
    and "parseOne fs st args = Seen st' rest" and "P st"
  shows "P st'"
proof -
  from assms(2) obtain nv args' where n: "parseNamed fs st nv args' = Seen st' rest"
    by (auto simp: parseOne_def Let_def split: list.splits if_splits)
  let ?name = "hd nv # takeWhile (\<lambda>c. c \<noteq> CHR ''='') (tl nv)"
  from n obtain f where f: "find (\<lambda>f. fg_Name f = ?name) fs = Some f"
    by (cases "find (\<lambda>f. fg_Name f = ?name) fs") (simp_all only: parseNamed_def Let_def option.case parsedOne.distinct)
  with n obtain v args'' where "setFlag f v st args'' = Seen st' rest"
    by (auto simp only: parseNamed_def Let_def option.case split: if_splits list.splits)
  then have "fg_Set f v st = Some st'" by (simp add: setFlag_def split: option.splits)
  moreover have "f \<in> set fs" using f by (auto simp: find_Some_iff)
  ultimately show ?thesis using assms(1,3) by blast
qed

lemma parseFlags_preserves:
  assumes "\<And>f v st st'. f \<in> set fs \<Longrightarrow> fg_Set f v st = Some st' \<Longrightarrow> P st \<Longrightarrow> P st'"
  shows "parseFlags fs st args = Parsed st' rest \<Longrightarrow> P st \<Longrightarrow> P st'"
proof (induction args arbitrary: st rule: measure_induct_rule [of length])
  case (less args)
  show ?case
  proof (cases "parseOne fs st args")
    case (Seen st1 rest1)
    have "P st1" by (rule parseOne_preserves [of fs P st args st1 rest1]) (fact assms Seen less.prems(2))+
    moreover have "parseFlags fs st1 rest1 = Parsed st' rest" using less.prems(1) Seen by (simp add: parseFlags.simps [of fs st])
    ultimately show ?thesis using less.IH [OF parseOne_consumes [OF Seen]] by blast
  qed (use less.prems in \<open>simp_all add: parseFlags.simps [of fs st]\<close>)
qed

lemma setVar_goInts:
  assumes "(name, var) \<in> set flagVars" and "setVar var v g = Some g'" and "goInts g"
  shows "goInts g'"
proof (cases var)
  case (IntVar get upd)
  with assms(2) obtain i where i: "ParseInt0 v = Inr i" "g' = upd (\<lambda>_. i) g" by (auto split: sum.splits)
  have "goInt i" by (rule ParseInt0_bounds [OF i(1)])
  with assms(1,3) i(2) IntVar show ?thesis by (auto simp: flagVars_def goInts_def)
qed (use assms in \<open>auto simp: flagVars_def goInts_def\<close>)

lemma flagSet_goInts:
  assumes "flagSet initFlags zapFlags = Some fs" and "f \<in> set fs" and "fg_Set f v st = Some st'" and "goInts (fst st)"
  shows "goInts (fst st')"
proof -
  have "fs = [] @ map foreignFlag initFlags @ map ownFlag flagVars @ map foreignFlag zapFlags"
    by (rule defineFlags_Some [OF assms(1) [unfolded flagSet_def], THEN conjunct1]) simp
  with assms(2) consider g where "f = foreignFlag g" | name var where "f = ownFlag (name, var)" "(name, var) \<in> set flagVars" by auto
  then show ?thesis
  proof cases
    case 1
    with assms(3,4) show ?thesis by (cases st) (auto simp: foreignFlag_def)
  next
    case 2
    with assms(3,4) setVar_goInts [OF 2(2)] show ?thesis by (cases st) (auto simp: ownFlag_def)
  qed
qed

section \<open>Properties\<close>

text \<open>
  C32: Every setting of the agent's flags whose integers have 64 bits can be given on the command line, whatever flags
  other packages define, and is parsed as it was given, with the arguments that follow left over; and every command line
  that is accepted gives integers of 64 bits.
\<close>

theorem flags_roundtrip:
  assumes "flagSet initFlags zapFlags \<noteq> None"
  shows "(goInts fl \<longrightarrow> commandLine initFlags zapFlags z (flagArgs fl @ ''--'' # rest) = Some (Parsed (fl, z) rest)) \<and>
    (commandLine initFlags zapFlags z args = Some (Parsed (fl, z') rest') \<longrightarrow> goInts fl)"
proof (intro conjI impI)
  obtain fs where fs: "flagSet initFlags zapFlags = Some fs" using assms by blast
  show "commandLine initFlags zapFlags z (flagArgs fl @ ''--'' # rest) = Some (Parsed (fl, z) rest)" if "goInts fl"
    by (rule commandLine_flagArgs [OF assms that])
  assume "commandLine initFlags zapFlags z args = Some (Parsed (fl, z') rest')"
  then have "parseFlags fs (defaultFlags, z) args = Parsed (fl, z') rest'" by (simp add: commandLine_def fs)
  moreover have "goInts (fst (defaultFlags, z))" by (simp add: defaultFlags_def goInts_def goInt_def)
  ultimately have "goInts (fst (fl, z'))" by (rule parseFlags_preserves [rotated 1]) (rule flagSet_goInts [OF fs])
  then show "goInts fl" by simp
qed

text \<open>A boolean logging flag of another package, which counts how often it is given.\<close>

definition sampleZapFlags :: "nat Flag list" where
  "sampleZapFlags = [\<lparr>fg_Name = ''zap-devel'', fg_IsBool = True, fg_Set = (\<lambda>v n. Some (Suc n))\<rparr>]"

lemma defineFlags_defined:
  "(\<forall>f \<in> set l. \<not> HasPrefix (fg_Name f) ''-'' \<and> CHR ''='' \<notin> set (fg_Name f)) \<Longrightarrow> distinct (map fg_Name (fs @ l)) \<Longrightarrow>
    defineFlags fs l \<noteq> None"
  by (induction fs l rule: defineFlags.induct) (auto simp: defineFlag_def split: option.splits)

lemma sample_flagSet: "flagSet [] sampleZapFlags \<noteq> None"
proof -
  have n: "map fg_Name (map ownFlag flagVars :: (flags \<times> nat) Flag list) = map fst flagVars"
    by (auto simp: ownFlag_def)
  have d: "distinct (''zap-devel'' # map fst flagVars)" by (simp add: flagVars_def)
  have g: "\<forall>n \<in> set (map fst flagVars). \<not> HasPrefix n ''-'' \<and> CHR ''='' \<notin> set n" by (simp add: flagVars_def HasPrefix_def)
  show ?thesis unfolding flagSet_def
  proof (rule defineFlags_defined)
    show "distinct (map fg_Name ([] @ map foreignFlag ([] :: nat Flag list) @ map ownFlag flagVars @ map foreignFlag sampleZapFlags))"
      using d by (simp only: map_append n append_Nil list.map) (auto simp: foreignFlag_def sampleZapFlags_def)
    show "\<forall>f \<in> set (map foreignFlag ([] :: nat Flag list) @ map ownFlag flagVars @ map foreignFlag sampleZapFlags).
        \<not> HasPrefix (fg_Name f) ''-'' \<and> CHR ''='' \<notin> set (fg_Name f)"
      using g by (auto simp: ownFlag_def foreignFlag_def sampleZapFlags_def HasPrefix_def)
  qed
qed

theorem flags_roundtrip_witness:
  "commandLine [] sampleZapFlags 0 (flagArgs (defaultFlags\<lparr>fl_qps := - 7, fl_controlAPIURL := ''--''\<rparr>) @ [''--'', ''rest'']) =
     Some (Parsed (defaultFlags\<lparr>fl_qps := - 7, fl_controlAPIURL := ''--''\<rparr>, 0) [''rest''])"
proof -
  have "goInts (defaultFlags\<lparr>fl_qps := - 7, fl_controlAPIURL := ''--''\<rparr>)" by (simp add: defaultFlags_def goInts_def goInt_def)
  with flags_roundtrip [OF sample_flagSet, of "defaultFlags\<lparr>fl_qps := - 7, fl_controlAPIURL := ''--''\<rparr>" 0 "[''rest'']"]
  show ?thesis by simp
qed

end
