(* ===== verification/Scheme.thy ===== *)
theory Scheme
  imports Watches
begin

text \<open>
  The scheme of main.go, which tells the clients and caches the Go types of the kinds of the API, and the registration
  of the agent's own types in api/v1 (groupversion_info.go and the initializer in zoneusageprofile_types.go). A
  scheme is a parameter \<open>'sch\<close>; other packages add their types to it.
\<close>

section \<open>Registration\<close>

text \<open>\<open>GroupVersion\<close> of api/v1, and the types that \<open>SchemeBuilder.Register\<close> is called with.\<close>

definition GroupVersion :: "string \<Rightarrow> GroupVersionKind" where
  "GroupVersion kind = gvk ''cloudagent.appuio.io'' ''v1'' kind"

definition registeredTypes :: "GroupVersionKind list" where
  "registeredTypes = [GroupVersion ''ZoneUsageProfile'', GroupVersion ''ZoneUsageProfileList'']"

text \<open>The functions \<open>AddToScheme\<close> of other packages; \<open>tp_Builder\<close> is that of a \<open>scheme.Builder\<close> with the types registered.\<close>

record 'sch typePackages =
  tp_clientgo :: "'sch \<Rightarrow> err + 'sch"
  tp_userv1 :: "'sch \<Rightarrow> err + 'sch"
  tp_projectv1 :: "'sch \<Rightarrow> err + 'sch"
  tp_controlv1 :: "'sch \<Rightarrow> err + 'sch"
  tp_configv1 :: "'sch \<Rightarrow> err + 'sch"
  tp_Builder :: "GroupVersionKind list \<Rightarrow> 'sch \<Rightarrow> err + 'sch"

definition agentv1_AddToScheme :: "'sch typePackages \<Rightarrow> 'sch \<Rightarrow> err + 'sch" where
  "agentv1_AddToScheme tp = tp_Builder tp registeredTypes"

text \<open>The initializer of package main. \<open>utilruntime.Must\<close> panics on an error, which is \<open>None\<close>.\<close>

fun addAll :: "('sch \<Rightarrow> err + 'sch) list \<Rightarrow> 'sch \<Rightarrow> 'sch option" where
  "addAll [] sch = Some sch"
| "addAll (add # rest) sch = (case add sch of Inl err \<Rightarrow> None | Inr sch' \<Rightarrow> addAll rest sch')"

definition initScheme :: "'sch typePackages \<Rightarrow> 'sch \<Rightarrow> 'sch option" where
  "initScheme tp sch =
     addAll [tp_clientgo tp, tp_userv1 tp, tp_projectv1 tp, agentv1_AddToScheme tp, tp_controlv1 tp, tp_configv1 tp] sch"

section \<open>Known kinds\<close>

text \<open>Adding types makes their kinds known and forgets none.\<close>

definition adds :: "('sch \<Rightarrow> GroupVersionKind \<Rightarrow> bool) \<Rightarrow> GroupVersionKind set \<Rightarrow> ('sch \<Rightarrow> err + 'sch) \<Rightarrow> bool" where
  "adds knows kinds add \<longleftrightarrow>
     (\<forall>sch sch' k. add sch = Inr sch' \<longrightarrow> knows sch k \<or> k \<in> kinds \<longrightarrow> knows sch' k)"

definition packages_ok :: "('sch \<Rightarrow> GroupVersionKind \<Rightarrow> bool) \<Rightarrow> 'sch typePackages \<Rightarrow> bool" where
  "packages_ok knows tp \<longleftrightarrow>
     adds knows {namespaceKind, podKind, quotaKind, limitRangeKind, roleBindingKind} (tp_clientgo tp) \<and>
     adds knows {userKind, groupKind} (tp_userv1 tp) \<and> adds knows {} (tp_projectv1 tp) \<and>
     adds knows {teamKind, membersKind, controlUserKind, upstreamProfileKind} (tp_controlv1 tp) \<and>
     adds knows {clusterVersionKind} (tp_configv1 tp) \<and> (\<forall>ks. adds knows (set ks) (tp_Builder tp ks))"

lemma addAll_knows:
  "addAll addList sch = Some sch' \<Longrightarrow> (\<And>add. add \<in> set addList \<Longrightarrow> \<exists>ks. adds knows ks add) \<Longrightarrow> knows sch k \<Longrightarrow> knows sch' k"
proof (induction addList arbitrary: sch)
  case (Cons a rest)
  obtain sch1 where a: "a sch = Inr sch1" and r: "addAll rest sch1 = Some sch'" using Cons.prems(1) by (auto split: sum.splits)
  obtain ks where "adds knows ks a" using Cons.prems(2) by force
  with a Cons.prems(3) have "knows sch1 k" by (simp add: adds_def)
  with Cons.IH [OF r] Cons.prems(2) show ?case by simp
qed simp

lemma addAll_adds:
  "addAll addList sch = Some sch' \<Longrightarrow> (\<And>add. add \<in> set addList \<Longrightarrow> \<exists>ks. adds knows ks add) \<Longrightarrow>
    add \<in> set addList \<Longrightarrow> adds knows kinds add \<Longrightarrow> k \<in> kinds \<Longrightarrow> knows sch' k"
proof (induction addList arbitrary: sch)
  case (Cons a rest)
  obtain sch1 where a: "a sch = Inr sch1" and r: "addAll rest sch1 = Some sch'" using Cons.prems(1) by (auto split: sum.splits)
  have m: "\<exists>ks. adds knows ks b" if "b \<in> set rest" for b using Cons.prems(2) that by simp
  show ?case
  proof (cases "add \<in> set rest")
    case True
    show ?thesis by (rule Cons.IH [OF r m True Cons.prems(4,5)])
  next
    case False
    with Cons.prems(3,4,5) a have "knows sch1 k" by (auto simp: adds_def)
    with addAll_knows [of rest sch1 sch' knows k] r m show ?thesis by blast
  qed
qed simp

text \<open>The kinds that the agent knows.\<close>

definition knownKinds :: "GroupVersionKind set" where
  "knownKinds = {namespaceKind, podKind, quotaKind, limitRangeKind, roleBindingKind, userKind, groupKind, teamKind, membersKind,
     controlUserKind, upstreamProfileKind, clusterVersionKind, zoneProfileKind}"

lemma zoneProfile_registered: "zoneProfileKind \<in> set registeredTypes"
  by (simp add: registeredTypes_def GroupVersion_def zoneProfileKind_def)

lemma initScheme_knows:
  assumes "packages_ok knows tp" and "initScheme tp sch = Some sch'" and "k \<in> knownKinds"
  shows "knows sch' k"
proof -
  let ?l = "[tp_clientgo tp, tp_userv1 tp, tp_projectv1 tp, agentv1_AddToScheme tp, tp_controlv1 tp, tp_configv1 tp]"
  have p: "adds knows {namespaceKind, podKind, quotaKind, limitRangeKind, roleBindingKind} (tp_clientgo tp)"
    "adds knows {userKind, groupKind} (tp_userv1 tp)" "adds knows {} (tp_projectv1 tp)"
    "adds knows (set registeredTypes) (agentv1_AddToScheme tp)"
    "adds knows {teamKind, membersKind, controlUserKind, upstreamProfileKind} (tp_controlv1 tp)"
    "adds knows {clusterVersionKind} (tp_configv1 tp)"
    using assms(1) unfolding packages_ok_def agentv1_AddToScheme_def by blast+
  then have m: "\<exists>ks. adds knows ks add" if "add \<in> set ?l" for add using that by auto
  note a = addAll_adds [OF assms(2) [unfolded initScheme_def] m]
  have l: "tp_clientgo tp \<in> set ?l" "tp_userv1 tp \<in> set ?l" "agentv1_AddToScheme tp \<in> set ?l" "tp_controlv1 tp \<in> set ?l"
    "tp_configv1 tp \<in> set ?l" by simp_all
  from assms(3) consider "k \<in> {namespaceKind, podKind, quotaKind, limitRangeKind, roleBindingKind}" | "k \<in> {userKind, groupKind}"
    | "k \<in> set registeredTypes" | "k \<in> {teamKind, membersKind, controlUserKind, upstreamProfileKind}" | "k \<in> {clusterVersionKind}"
    unfolding knownKinds_def using zoneProfile_registered by blast
  then show ?thesis
  proof cases
    case 1 show ?thesis by (rule a [OF _ l(1) p(1) 1])
  next
    case 2 show ?thesis by (rule a [OF _ l(2) p(2) 2])
  next
    case 3 show ?thesis by (rule a [OF _ l(3) p(4) 3])
  next
    case 4 show ?thesis by (rule a [OF _ l(4) p(5) 4])
  next
    case 5 show ?thesis by (rule a [OF _ l(5) p(6) 5])
  qed
qed

text \<open>Every watch of the controllers is of such a kind.\<close>

lemma static_kinds:
  "x \<in> set rc_SetupWithManager \<union> set or_SetupWithManager \<union> set gs_SetupWithManager \<union> set ua_SetupWithManager \<union>
    set ups_SetupWithManager \<union> set zv_SetupWithManager \<Longrightarrow> wa_GVK x \<in> knownKinds"
  by (auto simp: rc_SetupWithManager_def or_SetupWithManager_def gs_SetupWithManager_def ua_SetupWithManager_def
      ups_SetupWithManager_def zv_SetupWithManager_def For_def Owns_def foreignKind_def knownKinds_def)

lemma upa_kinds: "upa_SetupWithManager ex ps build r = Inr ws \<Longrightarrow> x \<in> set ws \<Longrightarrow> wa_GVK x \<in> knownKinds"
  by (auto simp: upa_SetupWithManager_def For_def knownKinds_def Let_def split: sum.splits option.splits)

lemma lq_kinds: "lq_SetupWithManager ex r = Inr ws \<Longrightarrow> x \<in> set ws \<Longrightarrow> wa_GVK x \<in> knownKinds"
  by (auto simp: lq_SetupWithManager_def For_def Owns_def knownKinds_def split: sum.splits)

section \<open>The test utilities\<close>

text \<open>
  testutils/testutils.go: the kind of an object of a test, from the scheme unless the object has one. \<open>ObjectKinds\<close> and the
  name of the Go type are parameters; \<open>None\<close> is a failed test.
\<close>

definition APIVersionInternal :: string where
  "APIVersionInternal = ''__internal''"

definition validGVK :: "GroupVersionKind \<Rightarrow> bool" where
  "validGVK g \<longleftrightarrow> gvk_Kind g \<noteq> [] \<and> gvk_Version g \<noteq> [] \<and> gvk_Version g \<noteq> APIVersionInternal"

fun firstValid :: "GroupVersionKind list \<Rightarrow> GroupVersionKind option" where
  "firstValid [] = None"
| "firstValid (g # gvks) =
     (if gvk_Kind g = [] then firstValid gvks
      else if gvk_Version g = [] \<or> gvk_Version g = APIVersionInternal then firstValid gvks
      else Some g)"

definition findGVKForObject ::
    "('o \<Rightarrow> err + GroupVersionKind list) \<Rightarrow> ('o \<Rightarrow> string) \<Rightarrow> 'o \<Rightarrow> err + GroupVersionKind" where
  "findGVKForObject objectKinds typeName obj = (case objectKinds obj of
      Inl err \<Rightarrow> Inl err
    | Inr gvks \<Rightarrow>
        (case firstValid gvks of
           Some g \<Rightarrow> Inr g
         | None \<Rightarrow> Inl (NewErr (''no valid GVK found for object '' @ typeName obj))))"

definition EnsureGroupVersionKind ::
    "('o \<Rightarrow> err + GroupVersionKind list) \<Rightarrow> ('o \<Rightarrow> string) \<Rightarrow> ('o \<Rightarrow> GroupVersionKind)
      \<Rightarrow> (GroupVersionKind \<Rightarrow> 'o \<Rightarrow> 'o) \<Rightarrow> 'o \<Rightarrow> 'o option" where
  "EnsureGroupVersionKind objectKinds typeName getGVK setGVK obj =
     (if getGVK obj \<noteq> gvk [] [] [] then Some obj
      else (case findGVKForObject objectKinds typeName obj of
        Inl err \<Rightarrow> None
      | Inr g \<Rightarrow> Some (setGVK g obj)))"

lemma firstValid_find: "firstValid gvks = find validGVK gvks"
  by (induction gvks) (auto simp: validGVK_def)

text \<open>An object that had no kind gets a valid one that the scheme has for it, and the test fails only if there is none.\<close>

lemma EnsureGroupVersionKind_valid:
  assumes "getGVK obj = gvk [] [] []" and "objectKinds obj = Inr gvks" and "\<And>g. getGVK (setGVK g obj) = g"
  shows "case EnsureGroupVersionKind objectKinds typeName getGVK setGVK obj of
      None \<Rightarrow> \<forall>g \<in> set gvks. \<not> validGVK g
    | Some obj' \<Rightarrow> getGVK obj' \<in> set gvks \<and> validGVK (getGVK obj')"
  using assms
  by (auto simp: EnsureGroupVersionKind_def findGVKForObject_def firstValid_find find_Some_iff find_None_iff split: option.splits)

end
