(* ===== verification/Agent.thy ===== *)
theory Agent
  imports CommandLine Config Access Scheme NamespaceQuota PodNodeSelector OrgMutator ObjectGuards
begin

text \<open>
  main.go: how the agent is put together. \<open>flags\<close> is the parsed command line, \<open>environment\<close> the outcomes of the set-up
  calls into other packages, \<open>manager\<close> what the webhooks get from the controller manager (decoding and reads of
  the client), and \<open>clients\<close> the reconcilers with their clients, which the set-up completes with the
  configuration. A set-up step that fails ends the process.
\<close>

section \<open>Inputs of the set-up\<close>

record ('s, 'q) manager =
  mg_Decode :: "Request \<Rightarrow> err + json"
  mg_DecodeRaw :: "string \<Rightarrow> err + json"
  mg_DecodePod :: "Request \<Rightarrow> err + 'q Pod"
  mg_DecodeDeployment :: "Request \<Rightarrow> err + 'q Workload"
  mg_DecodeStatefulSet :: "Request \<Rightarrow> err + 'q Workload"
  mg_DecodeService :: "Request \<Rightarrow> err + Service"
  mg_DecodeRawService :: "string \<Rightarrow> err + Service"
  mg_getNamespace :: "string \<Rightarrow> err + Namespace"
  mg_getUser :: "string \<Rightarrow> err + User"
  mg_getGroup :: "string \<Rightarrow> err + Group"
  mg_getProfile :: "string \<Rightarrow> err + ZoneUsageProfile"
  mg_getConfigMap :: "string \<Rightarrow> string \<Rightarrow> err + string gomap"
  mg_listNamespaces :: "string \<Rightarrow> string \<Rightarrow> err + Namespace list"
  mg_listPods :: "string \<Rightarrow> err + 'q Pod list"
  mg_listClusterRoleBindings :: "err + ClusterRoleBinding list"
  mg_asSelector :: "'s asSelector"

type_synonym ('s, 'd, 'q, 'l) conf = "('s, 'd, 'q, 'q ResourceQuotaSpec, 'l) Config"

record ('s, 'd, 'q, 'l, 'rc) environment =
  env_zeroSelector :: 's
  env_ReadFile :: "string \<Rightarrow> err + string"
  env_Unmarshal :: "string \<Rightarrow> err + ('s, 'd, 'q, 'l) conf"
  env_bearerToken :: string
  env_clusters :: "'rc clusters"
  env_newCluster :: "'rc \<Rightarrow> err + unit"
  env_GetConfig :: "err option"
  env_NewManager :: "managerOptions \<Rightarrow> err option"
  env_NewClientset :: "err option"
  env_Complete :: "string \<Rightarrow> watch list \<Rightarrow> err option"
  env_existsSelector :: "string \<Rightarrow> err + (string gomap \<Rightarrow> bool)"
  env_listProfiles :: "err + ZoneUsageProfile list"
  env_selfSubjectReviews :: "err + (err + UserInfo)"
  env_AddHealthzCheck :: "err option"
  env_AddReadyzCheck :: "err option"

record ('w, 'q, 'l) clients =
  cl_OrgRBAC :: "'w OrganizationRBACReconciler"
  cl_ZoneVersion :: "'w ZoneK8sVersionReconciler"
  cl_UserSync :: "'w UserAttributeSyncReconciler"
  cl_GroupSync :: "'w GroupSyncReconciler"
  cl_ProfileSync :: "'w ZoneUsageProfileSyncReconciler"
  cl_ProfileApply :: "'w ZoneUsageProfileApplyReconciler"
  cl_LegacyQuota :: "('w, 'q, 'l) LegacyResourceQuotaReconciler"
  cl_getPod :: "string \<Rightarrow> string \<Rightarrow> err + 'q Pod"

section \<open>The controllers\<close>

text \<open>The fetcher of the webhook has no organization label, that of the controller has it.\<close>

definition fetcherFor :: "('s, 'q) manager \<Rightarrow> string \<Rightarrow> 'q Fetcher" where
  "fetcherFor mgr orgLabel = \<lparr>ft_getNamespace = mg_getNamespace mgr, ft_listPods = mg_listPods mgr, ft_OrganizationLabel = orgLabel\<rparr>"

definition ratioController ::
    "ext \<Rightarrow> ('d, 'q) decimals \<Rightarrow> ('s, 'd, 'q, 'l) conf \<Rightarrow> ('s, 'q) manager \<Rightarrow> ('w, 'q, 'l) clients \<Rightarrow> ('s, 'd, 'q) RatioReconciler" where
  "ratioController E D conf mgr cl =
     \<lparr>rc_getPod = cl_getPod cl, rc_getNamespace = mg_getNamespace mgr,
      rc_FetchRatios = FetchRatios E D (fetcherFor mgr (cf_OrganizationLabel conf)), rc_asSelector = mg_asSelector mgr,
      rc_RatioLimits = cf_limits conf, rc_RatioWarnThreshold = cf_MemoryPerCoreWarnThreshold conf\<rparr>"

definition orgRBACController :: "('s, 'd, 'q, 'l) conf \<Rightarrow> ('w, 'q, 'l) clients \<Rightarrow> 'w OrganizationRBACReconciler" where
  "orgRBACController conf cl = (cl_OrgRBAC cl)\<lparr>or_OrganizationLabel := cf_OrganizationLabel conf,
     or_DefaultClusterRoles := cf_DefaultOrganizationClusterRoles conf\<rparr>"

definition zoneVersionController :: "flags \<Rightarrow> ('w, 'q, 'l) clients \<Rightarrow> 'w ZoneK8sVersionReconciler" where
  "zoneVersionController fl cl = (cl_ZoneVersion cl)\<lparr>ZoneID := fl_upstreamZoneIdentifier fl\<rparr>"

definition groupSyncController :: "flags \<Rightarrow> ('w, 'q, 'l) clients \<Rightarrow> 'w GroupSyncReconciler" where
  "groupSyncController fl cl = (cl_GroupSync cl)\<lparr>ControlAPIFinalizerZoneName := fl_upstreamZoneIdentifier fl\<rparr>"

definition profileApplyController ::
    "ext \<Rightarrow> unstr \<Rightarrow> string order \<Rightarrow> string order \<Rightarrow> flags \<Rightarrow> ('s, 'd, 'q, 'l) conf \<Rightarrow> ('w, 'q, 'l) clients
      \<Rightarrow> 'w ZoneUsageProfileApplyReconciler" where
  "profileApplyController E U ord ord' fl conf cl = (cl_ProfileApply cl)\<lparr>upa_OrganizationLabel := cf_OrganizationLabel conf,
     upa_Transformers := [Transform E U ord ord' (NewResourceQuotaTransformer ''resourcequota.appuio.io'')],
     upa_SelectedProfile := fl_selectedUsageProfile fl\<rparr>"

definition legacyQuotaController :: "('s, 'd, 'q, 'l) conf \<Rightarrow> ('w, 'q, 'l) clients \<Rightarrow> ('w, 'q, 'l) LegacyResourceQuotaReconciler" where
  "legacyQuotaController conf cl = (cl_LegacyQuota cl)\<lparr>lq_OrganizationLabel := cf_OrganizationLabel conf,
     ResourceQuotaAnnotationBase := cf_LegacyResourceQuotaAnnotationBase conf,
     DefaultResourceQuotas := cf_LegacyDefaultResourceQuotas conf,
     LimitRangeName := cf_LegacyLimitRangeName conf, DefaultLimitRange := cf_LegacyDefaultLimitRange conf\<rparr>"

section \<open>The webhooks\<close>

definition psk :: "('s, 'd, 'q, 'l) conf \<Rightarrow> ('s, 'q) manager \<Rightarrow> UserInfo \<Rightarrow> PrivilegedUserSkipper" where
  "psk conf mgr self =
     \<lparr>pus_Client = mg_listClusterRoleBindings mgr, PrivilegedGroups = cf_PrivilegedGroups conf,
      PrivilegedUsers = cf_PrivilegedUsers conf @ [Username self], PrivilegedClusterRoles = cf_PrivilegedClusterRoles conf\<rparr>"

text \<open>A feature switch in front of the privileged users.\<close>

definition switchedSkipper ::
    "ext \<Rightarrow> ('s, 'd, 'q, 'l) conf \<Rightarrow> ('s, 'q) manager \<Rightarrow> UserInfo \<Rightarrow> bool \<Rightarrow> Skipper" where
  "switchedSkipper E conf mgr self enabled =
     NewMultiSkipper [StaticSkipper_Skip \<lparr>ShouldSkip = \<not> enabled\<rparr>, PrivilegedUserSkipper_Skip E (psk conf mgr self)]"

definition quotaWebhook ::
    "ext \<Rightarrow> flags \<Rightarrow> ('s, 'd, 'q, 'l) conf \<Rightarrow> ('s, 'q) manager \<Rightarrow> UserInfo \<Rightarrow> NamespaceQuotaValidator" where
  "quotaWebhook E fl conf mgr self =
     \<lparr>nqv_Decode = mg_Decode mgr, nqv_getUser = mg_getUser mgr, nqv_getProfile = mg_getProfile mgr,
      nqv_getConfigMap = mg_getConfigMap mgr, nqv_listNamespaces = mg_listNamespaces mgr,
      nqv_Skipper = PrivilegedUserSkipper_Skip E (psk conf mgr self),
      SkipValidateQuota = (fl_disableUsageProfiles fl \<and> \<not> fl_legacyNamespaceQuotaEnabled fl),
      nqv_OrganizationLabel = cf_OrganizationLabel conf,
      nqv_UserDefaultOrganizationAnnotation = cf_UserDefaultOrganizationAnnotation conf,
      nqv_SelectedProfile = fl_selectedUsageProfile fl, QuotaOverrideNamespace = cf_QuotaOverrideNamespace conf,
      EnableLegacyNamespaceQuota = fl_legacyNamespaceQuotaEnabled fl, LegacyNamespaceQuota = cf_LegacyNamespaceQuota conf\<rparr>"

definition cloudscaleWebhook ::
    "ext \<Rightarrow> flags \<Rightarrow> ('s, 'd, 'q, 'l) conf \<Rightarrow> ('s, 'q) manager \<Rightarrow> UserInfo \<Rightarrow> ServiceCloudscaleLBValidator" where
  "cloudscaleWebhook E fl conf mgr self =
     \<lparr>slb_Decode = mg_DecodeService mgr, slb_DecodeRaw = mg_DecodeRawService mgr,
      slb_Skipper = switchedSkipper E conf mgr self (fl_cloudscaleLoadbalancerValidationEnabled fl)\<rparr>"

definition reservedWebhook ::
    "ext \<Rightarrow> flags \<Rightarrow> ('s, 'd, 'q, 'l) conf \<Rightarrow> ('s, 'q) manager \<Rightarrow> UserInfo \<Rightarrow> ReservedResourceQuotaLimitRangeValidator" where
  "reservedWebhook E fl conf mgr self =
     \<lparr>rrl_Skipper = switchedSkipper E conf mgr self (fl_legacyResourceQuotaEnabled fl),
      ReservedResourceQuotaNames = map fst (entries (cf_LegacyDefaultResourceQuotas conf)),
      ReservedLimitRangeNames = [cf_LegacyLimitRangeName conf]\<rparr>"

definition orgWebhook ::
    "ext \<Rightarrow> flags \<Rightarrow> ('s, 'd, 'q, 'l) conf \<Rightarrow> ('s, 'q) manager \<Rightarrow> UserInfo \<Rightarrow> NamespaceProjectOrganizationMutator" where
  "orgWebhook E fl conf mgr self =
     \<lparr>npo_Decode = mg_Decode mgr, npo_getUser = mg_getUser mgr, npo_getGroup = mg_getGroup mgr,
      npo_getNamespace = mg_getNamespace mgr,
      npo_Skipper = switchedSkipper E conf mgr self (fl_namespaceProjectOrganizationMutatorEnabled fl),
      npo_OrganizationLabel = cf_OrganizationLabel conf,
      npo_UserDefaultOrganizationAnnotation = cf_UserDefaultOrganizationAnnotation conf\<rparr>"

definition metadataWebhook ::
    "ext \<Rightarrow> flags \<Rightarrow> ('s, 'd, 'q, 'l) conf \<Rightarrow> ('s, 'q) manager \<Rightarrow> UserInfo \<Rightarrow> NamespaceMetadataValidator" where
  "metadataWebhook E fl conf mgr self =
     \<lparr>nmv_Decode = mg_Decode mgr, nmv_DecodeRaw = mg_DecodeRaw mgr,
      nmv_Skipper = switchedSkipper E conf mgr self (fl_namespaceMetadataValidatorEnabled fl),
      ReservedNamespaces = cf_ReservedNamespaces conf, AllowedAnnotations = cf_AllowedAnnotations conf,
      AllowedLabels = cf_AllowedLabels conf\<rparr>"

definition deadlineWebhook ::
    "flags \<Rightarrow> ('s, 'd, 'q, 'l) conf \<Rightarrow> ('s, 'q) manager \<Rightarrow> 'q PodRunOnceActiveDeadlineSecondsMutator" where
  "deadlineWebhook fl conf mgr =
     \<lparr>rda_Decode = mg_DecodePod mgr, rda_getNamespace = mg_getNamespace mgr,
      OverrideAnnotation = cf_PodRunOnceActiveDeadlineSecondsOverrideAnnotation conf,
      DefaultActiveDeadlineSeconds = cf_PodRunOnceActiveDeadlineSecondsDefault conf,
      rda_Skipper = StaticSkipper_Skip \<lparr>ShouldSkip = \<not> fl_podRunOnceActiveDeadlineSecondsMutatorEnabled fl\<rparr>\<rparr>"

definition nodeSelectorWebhook ::
    "('s, 'd, 'q, 'l) conf \<Rightarrow> ('s, 'q) manager \<Rightarrow> PodNodeSelectorMutator" where
  "nodeSelectorWebhook conf mgr =
     \<lparr>pns_Decode = mg_Decode mgr, pns_getNamespace = mg_getNamespace mgr, DefaultNodeSelector = cf_DefaultNodeSelector conf,
      DefaultNamespaceNodeSelectorAnnotation = cf_DefaultNamespaceNodeSelectorAnnotation conf,
      pns_Skipper = StaticSkipper_Skip \<lparr>ShouldSkip = False\<rparr>\<rparr>"

definition ratioWebhook ::
    "ext \<Rightarrow> ('d, 'q) decimals \<Rightarrow> ('s, 'd, 'q, 'l) conf \<Rightarrow> ('s, 'q) manager \<Rightarrow> ('s, 'd, 'q) RatioValidator" where
  "ratioWebhook E D conf mgr =
     \<lparr>rv_DecodePod = mg_DecodePod mgr, rv_DecodeDeployment = mg_DecodeDeployment mgr,
      rv_DecodeStatefulSet = mg_DecodeStatefulSet mgr, rv_getNamespace = mg_getNamespace mgr,
      rv_FetchRatios = FetchRatios E D (fetcherFor mgr []), rv_asSelector = mg_asSelector mgr,
      rv_RatioLimits = cf_limits conf, rv_RatioWarnThreshold = cf_MemoryPerCoreWarnThreshold conf,
      rv_DefaultNodeSelector = cf_DefaultNodeSelector conf,
      rv_DefaultNamespaceNodeSelectorAnnotation = cf_DefaultNamespaceNodeSelectorAnnotation conf\<rparr>"

text \<open>The handlers by path, in the order in which they are registered.\<close>

definition registrations ::
    "ext \<Rightarrow> ('d, 'q) decimals \<Rightarrow> 'd Ratio order \<Rightarrow> 'd Ratio order \<Rightarrow> flags \<Rightarrow> ('s, 'd, 'q, 'l) conf
      \<Rightarrow> ('s, 'q) manager \<Rightarrow> UserInfo \<Rightarrow> (string \<times> (Request \<Rightarrow> Response outcome)) list" where
  "registrations E D ord ord' fl conf mgr self =
     [(''/validate-request-ratio'', rv_Handle E D ord ord' (ratioWebhook E D conf mgr)),
      (''/mutate-pod-node-selector'', Returns \<circ> pns_Handle E (nodeSelectorWebhook conf mgr)),
      (''/validate-namespace-quota'', Returns \<circ> nqv_Handle E (quotaWebhook E fl conf mgr self)),
      (''/validate-service-cloudscale-lb'', Returns \<circ> slb_Handle E (cloudscaleWebhook E fl conf mgr self)),
      (''/validate-reserved-resourcequota-limitrange'', Returns \<circ> rrl_Handle E (reservedWebhook E fl conf mgr self)),
      (''/mutate-namespace-project-organization'', Returns \<circ> npo_Handle E (orgWebhook E fl conf mgr self)),
      (''/validate-namespace-metadata'', Returns \<circ> nmv_Handle E (metadataWebhook E fl conf mgr self)),
      (''/mutate-pod-run-once-active-deadline'', Returns \<circ> rda_Handle E (deadlineWebhook fl conf mgr))]"

section \<open>The process\<close>

text \<open>The set-ups of the controllers in order, each with its watches or its error.\<close>

definition complete :: "('s, 'd, 'q, 'l, 'rc) environment \<Rightarrow> string \<Rightarrow> watch list \<Rightarrow> err + watch list" where
  "complete env name ws = (case env_Complete env name ws of Some err \<Rightarrow> Inl err | None \<Rightarrow> Inr ws)"

definition legacySetup ::
    "('s, 'd, 'q, 'l, 'rc) environment \<Rightarrow> ('s, 'd, 'q, 'l) conf \<Rightarrow> ('w, 'q, 'l) clients \<Rightarrow> err + watch list" where
  "legacySetup env conf cl = (case lq_SetupWithManager (env_existsSelector env) (legacyQuotaController conf cl) of
      Inl err \<Rightarrow> Inl err | Inr ws \<Rightarrow> complete env ''legacy-resource-quota'' ws)"

definition controllerSetups ::
    "ext \<Rightarrow> unstr \<Rightarrow> string order \<Rightarrow> string order \<Rightarrow> flags \<Rightarrow> ('s, 'd, 'q, 'l, 'rc) environment \<Rightarrow> ('s, 'd, 'q, 'l) conf
      \<Rightarrow> ('w, 'q, 'l) clients \<Rightarrow> (string \<times> (err + watch list)) list" where
  "controllerSetups E U ord ord' fl env conf cl =
     [(''ratio'', complete env ''ratio'' rc_SetupWithManager),
      (''organization-rbac'', complete env ''organization-rbac'' or_SetupWithManager),
      (''zone-k8s-version'', case env_NewClientset env of Some err \<Rightarrow> Inl err
         | None \<Rightarrow> complete env ''zone-k8s-version'' zv_SetupWithManager)] @
     (if \<not> fl_disableUserAttributeSync fl then [(''user-attribute-sync'', complete env ''user-attribute-sync'' ua_SetupWithManager)] else []) @
     (if \<not> fl_disableGroupSync fl then [(''group-sync'', complete env ''group-sync'' gs_SetupWithManager)] else []) @
     (if \<not> fl_disableUsageProfiles fl
      then [(''usage-profile-sync'', complete env ''usage-profile-sync'' ups_SetupWithManager),
            (''usage-profile-apply'', upa_SetupWithManager (env_existsSelector env) (env_listProfiles env)
               (env_Complete env ''usage-profile-apply'') (profileApplyController E U ord ord' fl conf cl))] else []) @
     (if fl_legacyResourceQuotaEnabled fl then [(''legacy-resource-quota'', legacySetup env conf cl)] else [])"

text \<open>The first error ends the process.\<close>

fun setUpAll :: "(string \<times> (err + watch list)) list \<Rightarrow> (string \<times> watch list) list option" where
  "setUpAll [] = Some []"
| "setUpAll ((name, res) # rest) = (case res of
      Inl err \<Rightarrow> None
    | Inr ws \<Rightarrow> map_option (\<lambda>r. (name, ws) # r) (setUpAll rest))"

text \<open>The cluster of the control API, or the error that ends the process.\<close>

definition controlAPICluster :: "flags \<Rightarrow> ('s, 'd, 'q, 'l, 'rc) environment \<Rightarrow> err + unit" where
  "controlAPICluster fl env =
     (if fl_controlAPIURL fl \<noteq> [] then
        (if env_bearerToken env = [] then Inl (NewErr ''CONTROL_API_BEARER_TOKEN env var not set'')
         else FromURLAndBearerToken (env_clusters env) (env_newCluster env) (fl_controlAPIURL fl) (env_bearerToken env))
      else (case env_ReadFile env (fl_controlAPIKubeconfig fl) of
          Inl err \<Rightarrow> Inl err
        | Inr cac \<Rightarrow> FromKubeConfig (env_clusters env) (env_newCluster env) cac))"

definition whoami :: "('s, 'd, 'q, 'l, 'rc) environment \<Rightarrow> err + UserInfo" where
  "whoami env = (case WhoamiForConfigAndClient (env_selfSubjectReviews env) of
      Inl err \<Rightarrow> Inl err
    | Inr wc \<Rightarrow> Whoami_Whoami wc)"

record agent =
  ag_Watches :: "(string \<times> watch list) list"
  ag_Webhooks :: "(string \<times> (Request \<Rightarrow> Response outcome)) list"

text \<open>The set-up up to the start of the managers; \<open>None\<close> is \<open>os.Exit(1)\<close>.\<close>

definition main ::
    "ext \<Rightarrow> ('d, 'q) decimals \<Rightarrow> unstr \<Rightarrow> string order \<Rightarrow> string order \<Rightarrow> 'd Ratio order \<Rightarrow> 'd Ratio order \<Rightarrow> flags
      \<Rightarrow> ('s, 'd, 'q, 'l, 'rc) environment \<Rightarrow> ('s, 'q) manager \<Rightarrow> ('w, 'q, 'l) clients \<Rightarrow> agent option" where
  "main E D U sord sord' ord ord' fl env mgr cl =
     (case ConfigFromFile (env_zeroSelector env) (env_ReadFile env) (env_Unmarshal env) (fl_configFilePath fl) of
        Inl err \<Rightarrow> None
      | Inr (conf, warnings) \<Rightarrow>
          if Config_Validate E conf \<noteq> None then None
          else (case controlAPICluster fl env of
            Inl err \<Rightarrow> None
          | Inr controlAPI \<Rightarrow>
              if env_GetConfig env \<noteq> None then None
              else if env_NewManager env (managerOptionsOf fl) \<noteq> None then None
              else if fl_upstreamZoneIdentifier fl = [] then None
              else (case setUpAll (controllerSetups E U sord sord' fl env conf cl) of
                None \<Rightarrow> None
              | Some watches \<Rightarrow>
                  (case whoami env of
                     Inl err \<Rightarrow> None
                   | Inr self \<Rightarrow>
                       if env_AddHealthzCheck env \<noteq> None then None
                       else if env_AddReadyzCheck env \<noteq> None then None
                       else Some \<lparr>ag_Watches = watches, ag_Webhooks = registrations E D ord ord' fl conf mgr self\<rparr>))))"

text \<open>
  The two managers run until both have returned; \<open>shutdown\<close> are their errors in the order in which the channel
  delivers them. The exit status of the process.
\<close>

definition exitStatus :: "ext \<Rightarrow> agent option \<Rightarrow> err option list \<Rightarrow> int" where
  "exitStatus E agent shutdown = (case agent of
      None \<Rightarrow> 1
    | Some _ \<Rightarrow> if multierr_Combine E shutdown \<noteq> None then 1 else 0)"

text \<open>
  The whole process. A package that cannot be added to the scheme makes the initializer panic, and so does a flag that is
  defined twice. Both end the process with status 2.
\<close>

definition process ::
    "ext \<Rightarrow> ('d, 'q) decimals \<Rightarrow> unstr \<Rightarrow> string order \<Rightarrow> string order \<Rightarrow> 'd Ratio order \<Rightarrow> 'd Ratio order
      \<Rightarrow> 'sch typePackages \<Rightarrow> 'sch \<Rightarrow> 'z Flag list \<Rightarrow> 'z Flag list \<Rightarrow> 'z \<Rightarrow> string list
      \<Rightarrow> ('sch \<Rightarrow> ('s, 'd, 'q, 'l, 'rc) environment) \<Rightarrow> ('s, 'q) manager \<Rightarrow> ('w, 'q, 'l) clients \<Rightarrow> err option list \<Rightarrow> int" where
  "process E D U sord sord' ord ord' tp sch initFlags zapFlags z args env mgr cl shutdown =
     (case initScheme tp sch of
        None \<Rightarrow> 2
      | Some sch' \<Rightarrow>
          (case commandLine initFlags zapFlags z args of
             None \<Rightarrow> 2
           | Some (ExitStatus n) \<Rightarrow> n
           | Some (Parsed (fl, z') rest) \<Rightarrow> exitStatus E (main E D U sord sord' ord ord' fl (env sch') mgr cl) shutdown))"

text \<open>The controllers that the flags leave enabled.\<close>

definition controllersFor :: "flags \<Rightarrow> string list" where
  "controllersFor fl =
     [''ratio'', ''organization-rbac'', ''zone-k8s-version''] @
     (if fl_disableUserAttributeSync fl then [] else [''user-attribute-sync'']) @
     (if fl_disableGroupSync fl then [] else [''group-sync'']) @
     (if fl_disableUsageProfiles fl then [] else [''usage-profile-sync'', ''usage-profile-apply'']) @
     (if fl_legacyResourceQuotaEnabled fl then [''legacy-resource-quota''] else [])"

section \<open>Properties\<close>

lemma switchedSkipper_eq:
  "switchedSkipper E conf mgr self enabled req =
     (if enabled then (case PrivilegedUserSkipper_Skip E (psk conf mgr self) req of
          (skip, Some err) \<Rightarrow> (skip, Some err) | (skip, None) \<Rightarrow> (skip, None))
      else (True, None))"
  by (simp add: switchedSkipper_def NewMultiSkipper_def StaticSkipper_Skip_def split: prod.splits option.splits)

lemma psk_self:
  assumes "wildcard_Match E (Username self) (Username self)" and "Username (rq_UserInfo req) = Username self"
  shows "PrivilegedUserSkipper_Skip E (psk conf mgr self) req = (True, None)"
  using assms by (simp add: PrivilegedUserSkipper_Skip_def psk_def list_ex_iff)

lemma map_fst_setUpAll: "setUpAll l = Some ws \<Longrightarrow> map fst ws = map fst l"
  by (induction l arbitrary: ws rule: setUpAll.induct) (auto split: sum.splits)

lemma setUpAll_Some: "setUpAll l = None \<longleftrightarrow> (\<exists>x \<in> set l. \<exists>err. snd x = Inl err)"
  by (induction l rule: setUpAll.induct) (auto split: sum.splits)

lemma map_fst_controllerSetups: "map fst (controllerSetups E U ord ord' fl env conf cl) = controllersFor fl"
  by (simp add: controllerSetups_def controllersFor_def)

lemma main_starts:
  assumes "combine_ok E"
  shows "main E D U sord sord' ord ord' fl env mgr cl \<noteq> None \<longleftrightarrow>
     (\<exists>raw c self. env_ReadFile env (fl_configFilePath fl) = Inr raw \<and> env_Unmarshal env raw = Inr c \<and>
       cf_OrganizationLabel c \<noteq> [] \<and> fl_upstreamZoneIdentifier fl \<noteq> [] \<and> controlAPICluster fl env = Inr () \<and>
       env_GetConfig env = None \<and> env_NewManager env (managerOptionsOf fl) = None \<and>
       (\<forall>x \<in> set (controllerSetups E U sord sord' fl env (fst (migrateConfig (env_zeroSelector env) c)) cl). \<forall>err. snd x \<noteq> Inl err) \<and>
       env_selfSubjectReviews env = Inr (Inr self) \<and> env_AddHealthzCheck env = None \<and> env_AddReadyzCheck env = None)"
proof -
  have v: "Config_Validate E (fst (migrateConfig z c)) = None \<longleftrightarrow> cf_OrganizationLabel c \<noteq> []" for z c
    by (simp add: migrateConfig_def Config_Validate_ok [OF assms])
  have w: "whoami env = Inr self \<longleftrightarrow> env_selfSubjectReviews env = Inr (Inr self)" for self
    using Whoami_Inr [of "env_selfSubjectReviews env" self] by (auto simp: whoami_def split: sum.splits)
  show ?thesis
  proof (cases "\<exists>raw c. env_ReadFile env (fl_configFilePath fl) = Inr raw \<and> env_Unmarshal env raw = Inr c")
    case False
    then show ?thesis by (auto simp: main_def ConfigFromFile_def split: sum.splits)
  next
    case True
    then obtain raw c where rc: "env_ReadFile env (fl_configFilePath fl) = Inr raw" "env_Unmarshal env raw = Inr c" by blast
    obtain conf warnings where m: "migrateConfig (env_zeroSelector env) c = (conf, warnings)"
      by (cases "migrateConfig (env_zeroSelector env) c")
    let ?setups = "controllerSetups E U sord sord' fl env conf cl"
    have "main E D U sord sord' ord ord' fl env mgr cl \<noteq> None \<longleftrightarrow>
       cf_OrganizationLabel c \<noteq> [] \<and> fl_upstreamZoneIdentifier fl \<noteq> [] \<and> controlAPICluster fl env = Inr () \<and>
       env_GetConfig env = None \<and> env_NewManager env (managerOptionsOf fl) = None \<and> setUpAll ?setups \<noteq> None \<and>
       (\<exists>self. whoami env = Inr self) \<and> env_AddHealthzCheck env = None \<and> env_AddReadyzCheck env = None"
      using v [of "env_zeroSelector env" c] rc m
      by (auto simp: main_def ConfigFromFile_def split: sum.splits option.splits if_splits)
    then show ?thesis using rc m by (auto simp: setUpAll_Some w)
  qed
qed

text \<open>
  C31: The agent runs exactly if its configuration can be read and names an organization label, the flags name the
  zone, and no set-up step fails; it then has exactly the controllers that its flags leave enabled. Every setting of
  the flags can be given to the process on its command line, and the
  process ends with status 0 exactly if the agent ran and neither of its two managers returned an error.
\<close>

theorem main_runs:
  assumes "combine_ok E"
  shows "(\<forall>agent. main E D U sord sord' ord ord' fl env mgr cl = Some agent \<longrightarrow> map fst (ag_Watches agent) = controllersFor fl) \<and>
    (main E D U sord sord' ord ord' fl env mgr cl \<noteq> None \<longleftrightarrow>
     (\<exists>raw c self. env_ReadFile env (fl_configFilePath fl) = Inr raw \<and> env_Unmarshal env raw = Inr c \<and>
       cf_OrganizationLabel c \<noteq> [] \<and> fl_upstreamZoneIdentifier fl \<noteq> [] \<and> controlAPICluster fl env = Inr () \<and>
       env_GetConfig env = None \<and> env_NewManager env (managerOptionsOf fl) = None \<and>
       (\<forall>x \<in> set (controllerSetups E U sord sord' fl env (fst (migrateConfig (env_zeroSelector env) c)) cl). \<forall>err. snd x \<noteq> Inl err) \<and>
       env_selfSubjectReviews env = Inr (Inr self) \<and> env_AddHealthzCheck env = None \<and> env_AddReadyzCheck env = None)) \<and>
    (initScheme tp sch = Some sch' \<and> env' sch' = env \<and> flagSet initFlags zapFlags \<noteq> None \<and> goInts fl \<longrightarrow>
      (process E D U sord sord' ord ord' tp sch initFlags zapFlags z (flagArgs fl @ ''--'' # rest) env' mgr cl [e1, e2] = 0 \<longleftrightarrow>
       main E D U sord sord' ord ord' fl env mgr cl \<noteq> None \<and> e1 = None \<and> e2 = None))"
proof (intro conjI allI impI)
  fix agent
  assume "main E D U sord sord' ord ord' fl env mgr cl = Some agent"
  then show "map fst (ag_Watches agent) = controllersFor fl"
    by (auto simp: main_def map_fst_controllerSetups dest!: map_fst_setUpAll split: sum.splits prod.splits if_splits option.splits)
next
  assume p: "initScheme tp sch = Some sch' \<and> env' sch' = env \<and> flagSet initFlags zapFlags \<noteq> None \<and> goInts fl"
  have e: "exitStatus E agent [e1, e2] = 0 \<longleftrightarrow> agent \<noteq> None \<and> e1 = None \<and> e2 = None" for agent
    using assms by (auto simp: exitStatus_def combine_ok_def split: option.split)
  show "process E D U sord sord' ord ord' tp sch initFlags zapFlags z (flagArgs fl @ ''--'' # rest) env' mgr cl [e1, e2] = 0 \<longleftrightarrow>
       main E D U sord sord' ord ord' fl env mgr cl \<noteq> None \<and> e1 = None \<and> e2 = None"
    using p commandLine_flagArgs [of initFlags zapFlags fl z rest] by (simp add: process_def e)
qed (rule main_starts [OF assms])

lemma setUpAll_members: "setUpAll l = Some ws \<Longrightarrow> (name, w) \<in> set ws \<longleftrightarrow> (name, Inr w) \<in> set l"
proof (induction l arbitrary: ws)
  case (Cons x l)
  obtain n res where x: "x = (n, res)" by (cases x)
  with Cons.prems obtain w1 ws1 where "res = Inr w1" "setUpAll l = Some ws1" "ws = (n, w1) # ws1" by (auto split: sum.splits)
  with Cons.IH x show ?case by auto
qed simp

text \<open>A set-up that watches known kinds only.\<close>

definition kindsKnown :: "err + watch list \<Rightarrow> bool" where
  "kindsKnown res \<longleftrightarrow> (\<forall>ws x. res = Inr ws \<longrightarrow> x \<in> set ws \<longrightarrow> wa_GVK x \<in> knownKinds)"

lemma complete_kinds:
  assumes "set ws \<subseteq> set rc_SetupWithManager \<union> set or_SetupWithManager \<union> set gs_SetupWithManager \<union> set ua_SetupWithManager \<union>
    set ups_SetupWithManager \<union> set zv_SetupWithManager"
  shows "kindsKnown (complete env name ws)"
  using assms static_kinds by (auto simp: kindsKnown_def complete_def split: option.splits)

lemma legacySetup_kinds: "kindsKnown (legacySetup env conf cl)"
  using lq_kinds by (fastforce simp: kindsKnown_def legacySetup_def complete_def split: sum.splits option.splits)

lemma profileSetup_kinds: "kindsKnown (upa_SetupWithManager ex ps build r)"
  using upa_kinds by (fastforce simp: kindsKnown_def)

lemma controllerSetups_kinds: "y \<in> set (controllerSetups E U ord ord' fl env conf cl) \<Longrightarrow> kindsKnown (snd y)"
proof -
  have c: "kindsKnown (complete env n rc_SetupWithManager)" "kindsKnown (complete env n or_SetupWithManager)"
    "kindsKnown (complete env n gs_SetupWithManager)" "kindsKnown (complete env n ua_SetupWithManager)"
    "kindsKnown (complete env n ups_SetupWithManager)" "kindsKnown (complete env n zv_SetupWithManager)" for n
    by (rule complete_kinds, blast)+
  have "kindsKnown (Inl err)" for err by (simp add: kindsKnown_def)
  then have "\<forall>y \<in> set (controllerSetups E U ord ord' fl env conf cl). kindsKnown (snd y)"
    by (auto simp: controllerSetups_def c profileSetup_kinds legacySetup_kinds split: option.split)
  then show "y \<in> set (controllerSetups E U ord ord' fl env conf cl) \<Longrightarrow> kindsKnown (snd y)" by blast
qed

text \<open>
  C38: Every kind that a controller of a running agent watches, in either cluster, is one that the scheme knows: the
  initializer has registered the types of each of them, the agent's own profiles included.
\<close>

theorem watched_kinds_registered:
  assumes "packages_ok knows tp" and "initScheme tp sch = Some sch'"
    and "main E D U sord sord' ord ord' fl env mgr cl = Some agent"
    and "(name, ws) \<in> set (ag_Watches agent)" and "x \<in> set ws"
  shows "knows sch' (wa_GVK x)"
proof (rule initScheme_knows [OF assms(1,2)])
  from assms(3) obtain conf where "setUpAll (controllerSetups E U sord sord' fl env conf cl) = Some (ag_Watches agent)"
    by (auto simp: main_def split: sum.splits prod.splits if_splits option.splits)
  from controllerSetups_kinds [OF setUpAll_members [OF this, THEN iffD1, OF assms(4)]] assms(5)
  show "wa_GVK x \<in> knownKinds" by (simp add: kindsKnown_def)
qed

text \<open>
  A request of the agent itself is never stopped by the webhooks that privileged users bypass: the quota,
  load balancer, reserved objects and metadata webhooks skip it, and so does the organization webhook
  unless it is about a Project.
\<close>

theorem agent_not_blocked:
  assumes "wildcard_Match E (Username self) (Username self)" and "Username (rq_UserInfo req) = Username self"
  shows "nqv_Handle E (quotaWebhook E fl conf mgr self) req = Allowed ''skipped'' \<and>
    slb_Handle E (cloudscaleWebhook E fl conf mgr self) req = Allowed ''skipped'' \<and>
    rrl_Handle E (reservedWebhook E fl conf mgr self) req = Allowed ''skipped'' \<and>
    nmv_Handle E (metadataWebhook E fl conf mgr self) req = Allowed ''skipped'' \<and>
    (gvk_Kind (rq_Kind req) \<noteq> ''Project'' \<longrightarrow> npo_Handle E (orgWebhook E fl conf mgr self) req = Allowed ''skipped'')"
proof (intro conjI impI)
  note s = psk_self [OF assms, of conf mgr]
  have sw: "switchedSkipper E conf mgr self b req = (True, None)" for b
    using s by (simp add: switchedSkipper_eq)
  show "nqv_Handle E (quotaWebhook E fl conf mgr self) req = Allowed ''skipped''"
    by (rule nqv.skipped_allows) (simp add: quotaWebhook_def s)
  show "slb_Handle E (cloudscaleWebhook E fl conf mgr self) req = Allowed ''skipped''"
    by (rule slb.skipped_allows) (simp add: cloudscaleWebhook_def sw)
  show "rrl_Handle E (reservedWebhook E fl conf mgr self) req = Allowed ''skipped''"
    by (rule rrl.skipped_allows) (simp add: reservedWebhook_def sw)
  show "nmv_Handle E (metadataWebhook E fl conf mgr self) req = Allowed ''skipped''"
    by (rule nmv.skipped_allows) (simp add: metadataWebhook_def sw)
  show "npo_Handle E (orgWebhook E fl conf mgr self) req = Allowed ''skipped''" if "gvk_Kind (rq_Kind req) \<noteq> ''Project''"
    by (rule npo.skipped_allows) (use that in \<open>simp add: orgWebhook_def sw unless_project_def\<close>)
qed

text \<open>
  A webhook that is switched off lets every request through unchanged; the organization webhook only
  does so for requests that are not about a Project, which it goes on to check.
\<close>

theorem disabled_webhooks_skip:
  assumes "\<not> fl_cloudscaleLoadbalancerValidationEnabled fl" and "\<not> fl_legacyResourceQuotaEnabled fl"
    and "\<not> fl_namespaceMetadataValidatorEnabled fl" and "\<not> fl_podRunOnceActiveDeadlineSecondsMutatorEnabled fl"
    and "\<not> fl_namespaceProjectOrganizationMutatorEnabled fl"
  shows "slb_Handle E (cloudscaleWebhook E fl conf mgr self) req = Allowed ''skipped'' \<and>
    rrl_Handle E (reservedWebhook E fl conf mgr self) req = Allowed ''skipped'' \<and>
    nmv_Handle E (metadataWebhook E fl conf mgr self) req = Allowed ''skipped'' \<and>
    rda_Handle E (deadlineWebhook fl conf mgr) req = Allowed ''skipped'' \<and>
    npo_Handle E (orgWebhook E fl conf mgr self) req =
      (if gvk_Kind (rq_Kind req) = ''Project'' then npo_check E (orgWebhook E fl conf mgr self) req else Allowed ''skipped'')"
proof (intro conjI)
  have sw: "switchedSkipper E conf mgr self False req = (True, None)" by (simp add: switchedSkipper_eq)
  show "slb_Handle E (cloudscaleWebhook E fl conf mgr self) req = Allowed ''skipped''"
    by (rule slb.skipped_allows) (simp add: cloudscaleWebhook_def assms(1) sw)
  show "rrl_Handle E (reservedWebhook E fl conf mgr self) req = Allowed ''skipped''"
    by (rule rrl.skipped_allows) (simp add: reservedWebhook_def assms(2) sw)
  show "nmv_Handle E (metadataWebhook E fl conf mgr self) req = Allowed ''skipped''"
    by (rule nmv.skipped_allows) (simp add: metadataWebhook_def assms(3) sw)
  show "rda_Handle E (deadlineWebhook fl conf mgr) req = Allowed ''skipped''"
    by (rule rda.skipped_allows) (simp add: deadlineWebhook_def StaticSkipper_Skip_def assms(4))
  have s: "npo_Skipper (orgWebhook E fl conf mgr self) req = (True, None)" by (simp add: orgWebhook_def assms(5) sw)
  show "npo_Handle E (orgWebhook E fl conf mgr self) req =
      (if gvk_Kind (rq_Kind req) = ''Project'' then npo_check E (orgWebhook E fl conf mgr self) req else Allowed ''skipped'')"
  proof (cases "gvk_Kind (rq_Kind req) = ''Project''")
    case True
    then have "unless_project (npo_Skipper (orgWebhook E fl conf mgr self)) req = (False, None)" using s by (simp add: unless_project_def)
    from npo.unskipped_checks [OF this] True show ?thesis by simp
  next
    case False
    then have "unless_project (npo_Skipper (orgWebhook E fl conf mgr self)) req = (True, None)" using s by (simp add: unless_project_def)
    from npo.skipped_allows [OF this] False show ?thesis by simp
  qed
qed

text \<open>
  C30: With legacy quotas not enabled and usage profiles not disabled, as is the default, an agent for which no profile is selected
  lets nobody but privileged users create a namespace, whatever override the organization has: the quota webhook then has no profile to
  take a limit from, and the legacy quota does not step in for it. When the legacy quota is enabled, it is the limit whether
  a profile \<open>p\<close> is selected or not. The help of the flag says that all profiles are applied if it is empty, and comments say that the legacy
  quota is used if no profile is selected.
\<close>

theorem no_profile_no_namespaces:
  assumes "fl_selectedUsageProfile fl = []" and "\<not> fl_legacyNamespaceQuotaEnabled fl" and "\<not> fl_disableUsageProfiles fl"
    and "\<not> fst (PrivilegedUserSkipper_Skip E (psk conf mgr self) req)"
  shows "\<not> resp_allowed (nqv_Handle E (quotaWebhook E fl conf mgr self) req) \<and>
    nqv_baseLimit (quotaWebhook E (fl\<lparr>fl_legacyNamespaceQuotaEnabled := True, fl_selectedUsageProfile := p\<rparr>) conf mgr self) =
      Inr (cf_LegacyNamespaceQuota conf)"
proof
  let ?v = "quotaWebhook E fl conf mgr self"
  show "\<not> resp_allowed (nqv_Handle E ?v req)"
  proof
    assume a: "resp_allowed (nqv_Handle E ?v req)"
    have s: "\<not> fst (nqv_Skipper ?v req)" using assms(4) by (simp add: quotaWebhook_def)
    from a have c: "resp_allowed (nqv_check E ?v req)" by (rule nqv.allowed_cases) (use s in simp_all)
    have "\<not> SkipValidateQuota ?v" and "nqv_limit E ?v org = Inl (Denied ''No ZoneUsageProfile selected'')" for org
      using assms(1-3) by (simp_all add: quotaWebhook_def nqv_limit_def nqv_baseLimit_def)
    with c show False by (simp add: nqv_check_allowed)
  qed
qed (simp add: quotaWebhook_def nqv_baseLimit_def)

text \<open>
  C29: While the legacy resource quotas are enabled, nobody but a privileged user can create, change or delete
  the objects that the agent's controller manages: its default quotas and its limit range.
\<close>

theorem managed_quotas_protected:
  assumes "fl_legacyResourceQuotaEnabled fl" and "\<not> fst (PrivilegedUserSkipper_Skip E (psk conf mgr self) req)"
    and "gvk_Kind (rq_Kind req) = ''ResourceQuota'' \<and> mget (DefaultResourceQuotas (legacyQuotaController conf cl)) (rq_Name req) \<noteq> None \<or>
      gvk_Kind (rq_Kind req) = ''LimitRange'' \<and> rq_Name req = LimitRangeName (legacyQuotaController conf cl)"
  shows "\<not> resp_allowed (rrl_Handle E (reservedWebhook E fl conf mgr self) req)"
proof
  let ?v = "reservedWebhook E fl conf mgr self"
  assume a: "resp_allowed (rrl_Handle E ?v req)"
  have "fst (rrl_Skipper ?v req) = fst (PrivilegedUserSkipper_Skip E (psk conf mgr self) req)"
    using assms(1) by (simp add: reservedWebhook_def switchedSkipper_eq split: prod.splits option.splits)
  with assms(2) have s: "\<not> fst (rrl_Skipper ?v req)" by simp
  from a have "resp_allowed (rrl_check ?v req)" by (rule rrl.allowed_cases) (use s in simp_all)
  moreover have "rq_Name req \<in> set (ReservedResourceQuotaNames ?v) \<longleftrightarrow> mget (cf_LegacyDefaultResourceQuotas conf) (rq_Name req) \<noteq> None"
    by (simp add: reservedWebhook_def mget_def map_of_eq_None_iff)
  moreover have "ReservedLimitRangeNames ?v = [cf_LegacyLimitRangeName conf]" by (simp add: reservedWebhook_def)
  ultimately show False using assms(3) by (auto simp: rrl_check_def legacyQuotaController_def split: if_splits)
qed

lemma FetchRatios_label:
  assumes "mg_getNamespace mgr name = Inr ns"
  shows "FetchRatios E D (fetcherFor mgr l) name =
    (if l = [] \<or> mget (ns_Labels ns) l \<noteq> None then FetchRatios E D (fetcherFor mgr []) name else Inl ErrDisabled)"
  using assms by (auto simp: FetchRatios_def fetcherFor_def Let_def)

text \<open>The warnings that a set of ratios deserves.\<close>

definition ratioWarnings :: "ext \<Rightarrow> ('d, 'q) decimals \<Rightarrow> ('s, 'd, 'q) RatioValidator \<Rightarrow> 'd Ratio gomap \<Rightarrow> string set" where
  "ratioWarnings E D v ratios = warning E D v ` {x \<in> set (entries ratios). unfair E D v x}"

lemma ratio_events:
  assumes "is_order ord" and "mg_getNamespace mgr (req_Namespace creq) = Inr ns"
    and "rc_loop E D (ratioController E D conf mgr cl) creq (ord (entries ratios)) = (events, None)"
  shows "ev_Message ` set events = ratioWarnings E D (ratioWebhook E D conf mgr) ratios"
proof -
  let ?v = "ratioWebhook E D conf mgr" and ?r = "ratioController E D conf mgr cl"
  have fields: "rc_RatioWarnThreshold ?r = rv_RatioWarnThreshold ?v" "rc_RatioLimits ?r = rv_RatioLimits ?v"
    "rc_asSelector ?r = rv_asSelector ?v" by (simp_all add: ratioController_def ratioWebhook_def)
  have u: "rc_unfair E D ?r = unfair E D ?v" "rc_message E D ?r = warning E D ?v"
    by (simp_all only: fun_eq_iff rc_unfair_def unfair_def rc_message_def warning_def fields simp_thms)
  have m: "ev_Message ` set (rc_events ?r creq msg) = {msg}" for msg
    using assms(2) by (auto simp: rc_events_def warnEvent_def ratioController_def split: sum.splits)
  have "ev_Message ` set events = (\<Union>x \<in> {x \<in> set (entries ratios). unfair E D ?v x}. ev_Message ` set (rc_events ?r creq (warning E D ?v x)))"
    using rc_loop_events [OF assms(3)] is_order_set [OF assms(1)] by (auto simp: u image_UN)
  then show ?thesis by (simp add: m ratioWarnings_def) blast
qed

text \<open>
  C11: How the webhook and the controller of the agent compare. The webhook warns about the ratios of the namespace, with those of
  the created object recorded if the request is a creation; the messages of the events that a successful reconciliation records
  are the warnings about the ratios of the namespace, so that the two agree on requests other than creations. They do so in namespaces
  of organizations only: the set-up gives the label of organizations to the fetcher of the controller and not to that of the
  webhook, so in any other namespace the controller records nothing while the webhook warns all the same. All this holds in
  whatever order the two visit the ratios.
\<close>

theorem ratio_warnings_agree:
  assumes "is_order ord'" and "is_order ord2"
    and "mg_getNamespace mgr (rq_Namespace req) = Inr ns" and "req_Namespace creq = rq_Namespace req"
    and "rv_Handle E D ord ord' (ratioWebhook E D conf mgr) req = Returns (RawResponse True None ws)"
    and "rc_Reconcile E D ord2 (ratioController E D conf mgr cl) creq = (events, None)"
  shows "\<exists>ratios judged nodeSel. rv_FetchRatios (ratioWebhook E D conf mgr) (rq_Namespace req) = Inr ratios \<and>
    (if rq_Operation req = Create
     then recordCreate E D ord (ratioWebhook E D conf mgr) req nodeSel ratios = Returns (Inr judged) else judged = ratios) \<and>
    set ws = ratioWarnings E D (ratioWebhook E D conf mgr) judged \<and>
    ev_Message ` set events =
      (if cf_OrganizationLabel conf = [] \<or> mget (ns_Labels ns) (cf_OrganizationLabel conf) \<noteq> None
       then ratioWarnings E D (ratioWebhook E D conf mgr) ratios else {})"
proof -
  let ?v = "ratioWebhook E D conf mgr" and ?r = "ratioController E D conf mgr cl"
  from assms(5) obtain ratios nodeSel judged where r: "rv_FetchRatios ?v (rq_Namespace req) = Inr ratios"
    and c: "if rq_Operation req = Create then recordCreate E D ord ?v req nodeSel ratios = Returns (Inr judged) else judged = ratios"
    and w: "warnLoop E D ?v (ord' (entries judged)) = Inr ws"
    by (auto simp: rv_Handle_def rv_warn_def errored_def split: sum.splits if_splits outcome.splits)
  have "set ws = ratioWarnings E D ?v judged"
    using warnLoop_ok [OF w] is_order_set [OF assms(1)] by (simp add: ratioWarnings_def)
  moreover have f: "rc_FetchRatios ?r (req_Namespace creq) =
      (if cf_OrganizationLabel conf = [] \<or> mget (ns_Labels ns) (cf_OrganizationLabel conf) \<noteq> None then Inr ratios else Inl ErrDisabled)"
    using r assms(4) FetchRatios_label [OF assms(3), of E D "cf_OrganizationLabel conf"] by (simp add: ratioController_def ratioWebhook_def)
  have "ev_Message ` set events =
      (if cf_OrganizationLabel conf = [] \<or> mget (ns_Labels ns) (cf_OrganizationLabel conf) \<noteq> None then ratioWarnings E D ?v ratios else {})"
  proof (cases "cf_OrganizationLabel conf = [] \<or> mget (ns_Labels ns) (cf_OrganizationLabel conf) \<noteq> None")
    case True
    with assms(6) f have e: "rc_loop E D ?r creq (ord2 (entries ratios)) = (events, None)" by (simp add: rc_Reconcile_def)
    have "mg_getNamespace mgr (req_Namespace creq) = Inr ns" using assms(3,4) by simp
    from ratio_events [OF assms(2) this e] True show ?thesis by simp
  next
    case False
    with assms(6) f show ?thesis by (auto simp: rc_Reconcile_def split: if_splits)
  qed
  ultimately show ?thesis using r c by blast
qed

section \<open>A concrete agent\<close>

definition sample_flags :: flags where
  "sample_flags = defaultFlags\<lparr>fl_upstreamZoneIdentifier := ''zone'', fl_legacyNamespaceQuotaEnabled := True, fl_disableGroupSync := True\<rparr>"

lemma sample_flags_simps [simp]:
  "fl_configFilePath sample_flags = ''./config.yaml''" "fl_controlAPIKubeconfig sample_flags = ''kubeconfig-control-api''"
  "fl_controlAPIURL sample_flags = []" "fl_upstreamZoneIdentifier sample_flags = ''zone''" "fl_selectedUsageProfile sample_flags = []"
  "\<not> fl_cloudscaleLoadbalancerValidationEnabled sample_flags" "\<not> fl_namespaceProjectOrganizationMutatorEnabled sample_flags"
  "\<not> fl_namespaceMetadataValidatorEnabled sample_flags" "fl_legacyNamespaceQuotaEnabled sample_flags"
  "\<not> fl_legacyResourceQuotaEnabled sample_flags" "\<not> fl_podRunOnceActiveDeadlineSecondsMutatorEnabled sample_flags"
  "\<not> fl_disableUserAttributeSync sample_flags" "fl_disableGroupSync sample_flags" "\<not> fl_disableUsageProfiles sample_flags" "goInts sample_flags"
  by (simp_all add: sample_flags_def defaultFlags_def goInts_def goInt_def)

definition sample_conf :: "(unit, rat, rat, nat) conf" where
  "sample_conf =
     \<lparr>cf_OrganizationLabel = ''org'', cf_UserDefaultOrganizationAnnotation = ''default-org'', cf_QuotaOverrideNamespace = ''quotas'',
      cf_MemoryPerCoreLimit = None, cf_MemoryPerCoreLimits = Some [\<lparr>lim_NodeSelector = (), lim_Limit = Some (of_int (4 * mib))\<rparr>],
      cf_MemoryPerCoreWarnThreshold = None, cf_PrivilegedGroups = [], cf_PrivilegedUsers = [''root''],
      cf_PrivilegedClusterRoles = [], cf_DefaultNodeSelector = None, cf_DefaultNamespaceNodeSelectorAnnotation = ''sel'',
      cf_DefaultOrganizationClusterRoles = Some [(''admin'', ''admin'')], cf_ReservedNamespaces = [''default''], cf_AllowedAnnotations = [],
      cf_AllowedLabels = [], cf_LegacyNamespaceQuota = 3, cf_PodRunOnceActiveDeadlineSecondsOverrideAnnotation = ''deadline'',
      cf_PodRunOnceActiveDeadlineSecondsDefault = 60, cf_LegacyResourceQuotaAnnotationBase = ''b'',
      cf_LegacyDefaultResourceQuotas = Some [(''q'', \<lparr>rqs_Hard = Some [(''pods'', 1)], rqs_Scopes = [], rqs_ScopeSelector = None\<rparr>)], cf_LegacyLimitRangeName = ''lr'', cf_LegacyDefaultLimitRange = 0\<rparr>"

definition sample_manager :: "(unit, rat) manager" where
  "sample_manager =
     \<lparr>mg_Decode = (\<lambda>r. Inr JNull), mg_DecodeRaw = (\<lambda>r. Inr JNull), mg_DecodePod = (\<lambda>r. Inr (sample_pod None [] 1 1)),
      mg_DecodeDeployment = (\<lambda>r. Inl (NewErr ''no'')), mg_DecodeStatefulSet = (\<lambda>r. Inl (NewErr ''no'')),
      mg_DecodeService = (\<lambda>r. Inl (NewErr ''no'')), mg_DecodeRawService = (\<lambda>r. Inl (NewErr ''no'')),
      mg_getNamespace = ft_getNamespace sample_fetcher, mg_getUser = (\<lambda>n. Inl (NotFound n)), mg_getGroup = (\<lambda>n. Inl (NotFound n)),
      mg_getProfile = (\<lambda>n. Inl (NotFound n)), mg_getConfigMap = (\<lambda>n m. Inl (NotFound m)), mg_listNamespaces = (\<lambda>l v. Inr []),
      mg_listPods = ft_listPods sample_fetcher, mg_listClusterRoleBindings = Inr [], mg_asSelector = (\<lambda>_. Inr (\<lambda>_. True))\<rparr>"

definition sample_self :: UserInfo where
  "sample_self = \<lparr>Username = ''agent'', Groups = []\<rparr>"

definition sample_env :: "(unit, rat, rat, nat, string) environment" where
  "sample_env =
     \<lparr>env_zeroSelector = (), env_ReadFile = (\<lambda>p. Inr p), env_Unmarshal = (\<lambda>r. Inr sample_conf), env_bearerToken = [],
      env_clusters = \<lparr>cs_RESTConfigFromKubeConfig = Inr, cs_RESTConfig = (\<lambda>u t. u)\<rparr>, env_newCluster = (\<lambda>rc. Inr ()),
      env_GetConfig = None, env_NewManager = (\<lambda>opts. None), env_NewClientset = None, env_Complete = (\<lambda>c ws. None), env_existsSelector = sample_exists,
      env_listProfiles = Inr [], env_selfSubjectReviews = Inr (Inr sample_self), env_AddHealthzCheck = None, env_AddReadyzCheck = None\<rparr>"

text \<open>Clients that find nothing, apart from those of the role binding controller.\<close>

definition sample_clients :: "'w OrganizationRBACReconciler \<Rightarrow> ('w, rat, nat) clients" where
  "sample_clients r =
     \<lparr>cl_OrgRBAC = r,
      cl_ZoneVersion = \<lparr>zv_Get = (\<lambda>n w. Inl (NotFound n)), zv_getVersion = (\<lambda>w. Inl (NewErr ''no'')), zv_Unmarshal = (\<lambda>s. Inl (NewErr ''no'')),
        zv_ListZones = (\<lambda>l v w. Inr []), zv_Update = (\<lambda>z w. (w, None)), ZoneID = []\<rparr>,
      cl_UserSync = \<lparr>ua_ForeignGet = (\<lambda>n w. Inl (NotFound n)), ua_Get = (\<lambda>n w. Inl (NotFound n)), ua_Marshal = (\<lambda>j. Inl (NewErr ''no'')),
        ua_Patch = (\<lambda>u p w. (w, None))\<rparr>,
      cl_GroupSync = \<lparr>gs_ForeignGet = (\<lambda>k n m w. Inl (NotFound m)), gs_ForeignUpdate = (\<lambda>u w. (w, None)), gs_Delete = (\<lambda>g w. (w, None)),
        gs_CreateOrUpdate = (\<lambda>obj f s w. (w, obj, s, [], Some (NewErr ''no''))), ControlAPIFinalizerZoneName = []\<rparr>,
      cl_ProfileSync = \<lparr>ups_ForeignGet = (\<lambda>n w. Inl (NotFound n)), ups_CreateOrUpdate = (\<lambda>obj f s w. (w, obj, s, [], Some (NewErr ''no''))),
        ups_Get = (\<lambda>n w. Inl (NotFound n))\<rparr>,
      cl_ProfileApply = \<lparr>upa_Get = (\<lambda>n w. Inl (NotFound n)), upa_ListHasLabel = (\<lambda>l w. Inr []),
        upa_CreateOrUpdate = (\<lambda>obj f s w. (w, obj, s, [], Some (NewErr ''no''))), upa_ToUnstructured = Inr,
        upa_SetControllerReference = (\<lambda>p j. (j, None)), upa_watcher = \<lparr>wt_available = True, wt_Watch = (\<lambda>g w. (w, None))\<rparr>,
        upa_OrganizationLabel = [], upa_Transformers = [], upa_SelectedProfile = []\<rparr>,
      cl_LegacyQuota = \<lparr>lq_getNamespace = (\<lambda>n w. Inl (NotFound n)), lq_CreateOrUpdateQuota = (\<lambda>obj f s w. (w, obj, s, [], Some (NewErr ''no''))),
        lq_CreateOrUpdateLimitRange = (\<lambda>obj f s w. (w, obj, s, [], Some (NewErr ''no''))), lq_ControlQuota = (\<lambda>ns q. (q, None)),
        lq_ControlLimitRange = (\<lambda>ns q. (q, None)), lq_ParseQuantity = (\<lambda>s. Inr 0), lq_unmarshalResourceList = (\<lambda>s. Inr None),
        lq_zeroLimits = 0, lq_OrganizationLabel = [], ResourceQuotaAnnotationBase = [], DefaultResourceQuotas = None, LimitRangeName = [],
        DefaultLimitRange = 0\<rparr>,
      cl_getPod = (\<lambda>ns n. Inl (NotFound n))\<rparr>"

lemma sample_setups:
  "\<forall>x \<in> set (controllerSetups E U ord ord' fl sample_env conf cl). \<forall>err. snd x \<noteq> Inl err"
  by (auto simp: controllerSetups_def complete_def legacySetup_def sample_env_def upa_SetupWithManager_def lq_SetupWithManager_def
      labelExistsPredicate_def sample_exists_def Let_def split: if_splits)

definition sample_packages :: "GroupVersionKind list typePackages" where
  "sample_packages =
     \<lparr>tp_clientgo = (\<lambda>s. Inr ([namespaceKind, podKind, quotaKind, limitRangeKind, roleBindingKind] @ s)),
      tp_userv1 = (\<lambda>s. Inr ([userKind, groupKind] @ s)), tp_projectv1 = Inr,
      tp_controlv1 = (\<lambda>s. Inr ([teamKind, membersKind, controlUserKind, upstreamProfileKind] @ s)),
      tp_configv1 = (\<lambda>s. Inr (clusterVersionKind # s)), tp_Builder = (\<lambda>ks s. Inr (ks @ s))\<rparr>"

lemma sample_packages_ok: "packages_ok (\<lambda>s k. k \<in> set s) sample_packages"
  by (auto simp: packages_ok_def adds_def sample_packages_def)

lemma sample_initScheme: "\<exists>sch. initScheme sample_packages [] = Some sch"
  by (simp add: initScheme_def agentv1_AddToScheme_def sample_packages_def)

lemma sample_env_simps:
  "env_ReadFile sample_env p = Inr p" "env_Unmarshal sample_env p = Inr sample_conf" "cf_OrganizationLabel sample_conf \<noteq> []"
  "env_GetConfig sample_env = None" "env_NewManager sample_env opts = None" "env_zeroSelector sample_env = ()"
  "env_selfSubjectReviews sample_env = Inr (Inr sample_self)" "env_AddHealthzCheck sample_env = None" "env_AddReadyzCheck sample_env = None"
  "controlAPICluster sample_flags sample_env = Inr ()"
  by (simp_all add: sample_env_def sample_conf_def controlAPICluster_def FromKubeConfig_def)

lemma sample_main:
  "main sample_ext rat_decimals sample_unstr (\<lambda>al. al) (\<lambda>al. al) (\<lambda>al. al) (\<lambda>al. al) sample_flags sample_env sample_manager
     (sample_clients (sample_or None)) \<noteq> None"
proof -
  obtain conf warnings where m: "migrateConfig () sample_conf = (conf, warnings)" by (cases "migrateConfig () sample_conf")
  have "cf_OrganizationLabel conf \<noteq> []" using m by (auto simp: migrateConfig_def sample_conf_def split: if_splits option.splits)
  then have v: "Config_Validate sample_ext conf = None" by (simp add: Config_Validate_ok [OF sample_ext_laws(1)])
  have s: "setUpAll (controllerSetups sample_ext sample_unstr (\<lambda>al. al) (\<lambda>al. al) sample_flags sample_env conf (sample_clients (sample_or None))) \<noteq> None"
    using sample_setups setUpAll_Some by fastforce
  have w: "whoami sample_env = Inr sample_self" using Whoami_Inr [of "Inr (Inr sample_self)" sample_self] by (auto simp: whoami_def sample_env_simps)
  show ?thesis using s by (auto simp: main_def ConfigFromFile_def sample_env_simps m v w)
qed

theorem main_runs_witness:
  "process sample_ext rat_decimals sample_unstr (\<lambda>al. al) (\<lambda>al. al) (\<lambda>al. al) (\<lambda>al. al) sample_packages [] [] sampleZapFlags 0
     (flagArgs sample_flags @ [''--'']) (\<lambda>sch. sample_env) sample_manager (sample_clients (sample_or None)) [None, None] = 0"
proof -
  obtain sch where "initScheme sample_packages [] = Some sch" using sample_initScheme by blast
  then have "initScheme sample_packages [] = Some sch \<and> (\<lambda>sch. sample_env) sch = sample_env \<and> flagSet [] sampleZapFlags \<noteq> None \<and>
      goInts sample_flags"
    using sample_flagSet by simp
  from main_runs [OF sample_ext_laws(1), THEN conjunct2, THEN conjunct2, THEN mp, OF this] sample_main show ?thesis by blast
qed

theorem watched_kinds_registered_witness:
  "\<exists>sch. initScheme sample_packages [] = Some sch \<and> zoneProfileKind \<in> set sch"
proof -
  obtain sch where i: "initScheme sample_packages [] = Some sch" using sample_initScheme by blast
  obtain agent where a: "main sample_ext rat_decimals sample_unstr (\<lambda>al. al) (\<lambda>al. al) (\<lambda>al. al) (\<lambda>al. al) sample_flags sample_env
      sample_manager (sample_clients (sample_or None)) = Some agent" using sample_main by blast
  obtain conf where s: "setUpAll (controllerSetups sample_ext sample_unstr (\<lambda>al. al) (\<lambda>al. al) sample_flags sample_env conf
      (sample_clients (sample_or None))) = Some (ag_Watches agent)"
    using a by (auto simp: main_def split: sum.splits prod.splits if_splits option.splits)
  have "(''usage-profile-sync'', ups_SetupWithManager) \<in> set (ag_Watches agent)"
    by (rule setUpAll_members [OF s, THEN iffD2]) (simp add: controllerSetups_def complete_def sample_env_def)
  from watched_kinds_registered [OF sample_packages_ok i a this, of "For zoneProfileKind everything"] i show ?thesis
    by (simp add: ups_SetupWithManager_def For_def)
qed

theorem agent_not_blocked_witness:
  "slb_Handle sample_ext (cloudscaleWebhook sample_ext (sample_flags\<lparr>fl_cloudscaleLoadbalancerValidationEnabled := True\<rparr>) sample_conf
     sample_manager sample_self) (sample_request ''Service'' ''s'' ''agent'') = Allowed ''skipped''"
proof -
  have "Username (rq_UserInfo (sample_request ''Service'' ''s'' ''agent'')) = Username sample_self"
    by (simp add: sample_request_def sample_self_def)
  from agent_not_blocked [OF _ this, of sample_ext "sample_flags\<lparr>fl_cloudscaleLoadbalancerValidationEnabled := True\<rparr>" sample_conf sample_manager]
  show ?thesis by (simp add: sample_ext_simps)
qed

theorem disabled_webhooks_skip_witness:
  "nmv_Handle sample_ext (metadataWebhook sample_ext sample_flags sample_conf sample_manager sample_self)
     (sample_request ''Namespace'' ''n'' ''alice'') = Allowed ''skipped''"
proof -
  have "\<not> fl_cloudscaleLoadbalancerValidationEnabled sample_flags" "\<not> fl_legacyResourceQuotaEnabled sample_flags"
    "\<not> fl_namespaceMetadataValidatorEnabled sample_flags" "\<not> fl_podRunOnceActiveDeadlineSecondsMutatorEnabled sample_flags"
    "\<not> fl_namespaceProjectOrganizationMutatorEnabled sample_flags" by simp_all
  from disabled_webhooks_skip [OF this] show ?thesis by blast
qed

lemma sample_unprivileged:
  "\<not> fst (PrivilegedUserSkipper_Skip sample_ext (psk sample_conf sample_manager sample_self) (sample_request kind n ''alice''))"
  by (simp add: PrivilegedUserSkipper_Skip_def psk_def sample_conf_def sample_manager_def sample_self_def sample_request_def
      sample_ext_simps ClusterRoleRefsForUser_def listClusterRoleBindings_def clusterRoleRefs_def)

theorem no_profile_no_namespaces_witness:
  "\<not> resp_allowed (nqv_Handle sample_ext (quotaWebhook sample_ext defaultFlags sample_conf sample_manager sample_self)
     (sample_request ''Namespace'' ''n'' ''alice''))"
proof (rule no_profile_no_namespaces [where p = "''p''", THEN conjunct1, OF _ _ _ sample_unprivileged])
  show "fl_selectedUsageProfile defaultFlags = []" "\<not> fl_legacyNamespaceQuotaEnabled defaultFlags" "\<not> fl_disableUsageProfiles defaultFlags"
    by (simp_all add: defaultFlags_def)
qed

theorem managed_quotas_protected_witness:
  "\<not> resp_allowed (rrl_Handle sample_ext (reservedWebhook sample_ext (sample_flags\<lparr>fl_legacyResourceQuotaEnabled := True\<rparr>)
     sample_conf sample_manager sample_self) (sample_request ''ResourceQuota'' ''q'' ''alice''))"
proof (rule managed_quotas_protected)
  show "\<not> fst (PrivilegedUserSkipper_Skip sample_ext (psk sample_conf sample_manager sample_self) (sample_request ''ResourceQuota'' ''q'' ''alice''))"
    by (rule sample_unprivileged)
  show "gvk_Kind (rq_Kind (sample_request ''ResourceQuota'' ''q'' ''alice'')) = ''ResourceQuota'' \<and>
      mget (DefaultResourceQuotas (legacyQuotaController sample_conf (sample_clients (sample_or None)))) (rq_Name (sample_request ''ResourceQuota'' ''q'' ''alice'')) \<noteq> None \<or>
    gvk_Kind (rq_Kind (sample_request ''ResourceQuota'' ''q'' ''alice'')) = ''LimitRange'' \<and>
      rq_Name (sample_request ''ResourceQuota'' ''q'' ''alice'') = LimitRangeName (legacyQuotaController sample_conf (sample_clients (sample_or None)))"
    by (simp add: sample_conf_def sample_request_def legacyQuotaController_def)
qed simp

lemma sample_warnLoop:
  "\<exists>ws. warnLoop sample_ext rat_decimals (ratioWebhook sample_ext rat_decimals sample_conf sample_manager) [([], r)] = Inr ws"
  by (simp add: sample_ext_simps Cut_def split: option.splits)

lemma sample_rc_loop:
  "\<exists>ev. rc_loop sample_ext rat_decimals (ratioController sample_ext rat_decimals sample_conf sample_manager cl) creq [([], r)] = (ev, None)"
  by (simp add: sample_ext_simps Cut_def split: option.splits)

theorem ratio_warnings_agree_witness:
  "\<exists>ws events. rc_Reconcile sample_ext rat_decimals (\<lambda>al. al) (ratioController sample_ext rat_decimals sample_conf sample_manager
       (sample_clients (sample_or None))) \<lparr>req_Namespace = ''ns'', req_Name = ''pod''\<rparr> = (events, None) \<and> set ws = ev_Message ` set events \<and>
   rv_Handle sample_ext rat_decimals (\<lambda>al. al) (\<lambda>al. al) (ratioWebhook sample_ext rat_decimals sample_conf sample_manager)
     ((sample_request ''ConfigMap'' ''ns'' ''alice'')\<lparr>rq_Operation := Update\<rparr>) = Returns (RawResponse True None ws)"
proof -
  let ?v = "ratioWebhook sample_ext rat_decimals sample_conf sample_manager"
  let ?r = "ratioController sample_ext rat_decimals sample_conf sample_manager (sample_clients (sample_or None))"
  let ?req = "(sample_request ''ConfigMap'' ''ns'' ''alice'')\<lparr>rq_Operation := Update\<rparr>" and ?creq = "\<lparr>req_Namespace = ''ns'', req_Name = ''pod''\<rparr>"
  let ?m = "Some [([], \<lparr>CPU = 2, Memory = 5\<rparr>)] :: rat Ratio gomap"
  have n: "mg_getNamespace sample_manager (rq_Namespace ?req) =
      Inr \<lparr>ns_Name = ''ns'', ns_Labels = Some [(''org'', ''acme'')], ns_Annotations = None, ns_DeletionTimestamp = None\<rparr>"
    by (simp add: sample_manager_def sample_fetcher_def sample_request_def)
  have f: "fetcherFor sample_manager ''org'' = sample_fetcher" by (simp add: fetcherFor_def sample_manager_def sample_fetcher_def)
  have f0: "FetchRatios sample_ext rat_decimals (fetcherFor sample_manager []) ''ns'' = Inr ?m"
    using FetchRatios_label [OF n, of sample_ext rat_decimals "''org''"] sample_FetchRatios f by (simp add: sample_request_def)
  obtain ws where w: "warnLoop sample_ext rat_decimals ?v [([], \<lparr>CPU = 2, Memory = 5\<rparr>)] = Inr ws" using sample_warnLoop by blast
  obtain ev where e: "rc_loop sample_ext rat_decimals ?r ?creq [([], \<lparr>CPU = 2, Memory = 5\<rparr>)] = (ev, None)" using sample_rc_loop by blast
  have "rv_FetchRatios ?v ''ns'' = Inr ?m" using f0 by (simp add: ratioWebhook_def)
  moreover have "\<exists>sel. rv_nodeSel sample_ext ?v ?req = Inr sel"
    by (simp add: rv_nodeSel_def getNodeSelector_def sample_request_def Let_def)
  ultimately have h: "rv_Handle sample_ext rat_decimals (\<lambda>al. al) (\<lambda>al. al) ?v ?req = Returns (RawResponse True None ws)"
    using w by (auto simp: rv_Handle_def rv_warn_def sample_request_def HasPrefix_def)
  have "rc_FetchRatios ?r ''ns'' = Inr ?m" using sample_FetchRatios f by (simp add: ratioController_def sample_conf_def)
  with e have c: "rc_Reconcile sample_ext rat_decimals (\<lambda>al. al) ?r ?creq = (ev, None)" by (simp add: rc_Reconcile_def)
  have q: "req_Namespace ?creq = rq_Namespace ?req" by (simp add: sample_request_def)
  from ratio_warnings_agree [OF is_order_id is_order_id n q h c] have "set ws = ev_Message ` set ev"
    by (auto simp: sample_conf_def sample_request_def)
  with c h show ?thesis by blast
qed

end
