(* ===== verification/Tenancy.thy ===== *)
theory Tenancy
  imports Agent
begin

text \<open>
  How the parts of the agent work together when a user creates a namespace. The API server first calls the
  mutating organization webhook and goes on with the object that it makes, which it submits to the quota
  webhook; the namespace that is stored has the labels of that object, and the role binding controller
  reconciles it.
\<close>

section \<open>Documents\<close>

text \<open>\<open>unstructured.NestedString\<close> finds the string at a path.\<close>

definition nested_string_ok :: "ext \<Rightarrow> bool" where
  "nested_string_ok E \<longleftrightarrow> (\<forall>j path s. jget path j = Some (JStr s) \<longrightarrow> NestedString E j path = (s, True, None))"

lemma jstrings_member: "jstrings m = Some al \<Longrightarrow> map_of al k = Some s \<Longrightarrow> map_of m k = Some (JStr s)"
proof (induction m arbitrary: al)
  case (Cons x m)
  obtain k' j where x: "x = (k', j)" by (cases x)
  with Cons.prems(1) obtain v where j: "j = JStr v" by (cases j) auto
  with Cons.prems(1) x obtain al' where "jstrings m = Some al'" "al = (k', v) # al'" by auto
  with Cons x j show ?case by (auto split: if_splits)
qed simp

lemma jget_append: "jget (p @ q) j = (case jget p j of None \<Rightarrow> None | Some j' \<Rightarrow> jget q j')"
  by (induction p j rule: jget.induct) (auto split: option.splits)

lemma string_map_member:
  assumes "mget (string_map_at path j) k = Some s"
  shows "jget (path @ [k]) j = Some (JStr s)"
proof -
  from assms obtain al where al: "string_map_at path j = Some al" "map_of al k = Some s"
    by (cases "string_map_at path j") auto
  then obtain m where m: "jget path j = Some (JObj m)" "jstrings m = Some al"
    by (auto simp: string_map_at_def split: option.splits elim: string_map.elims)
  from jstrings_member [OF m(2) al(2)] m(1) show ?thesis by (simp add: jget_append)
qed

lemma resp_object_allowed: "resp_object r j = Some obj \<Longrightarrow> resp_allowed r"
  by (cases r) (auto split: if_splits)

section \<open>The admission of a namespace\<close>

text \<open>
  A namespace of the user of \<open>req\<close> passes both webhooks of the agent: the organization webhook turns the
  submitted object \<open>raw\<close> into \<open>obj\<close>, and the quota webhook lets \<open>obj\<close> pass in the request \<open>req'\<close>.
\<close>

definition admitted ::
    "ext \<Rightarrow> flags \<Rightarrow> ('s, 'd, 'q, 'l) conf \<Rightarrow> ('s, 'q) manager \<Rightarrow> UserInfo \<Rightarrow> Request \<Rightarrow> Request \<Rightarrow> json \<Rightarrow> json \<Rightarrow> bool" where
  "admitted E fl conf mgr self req req' raw obj \<longleftrightarrow>
     gvk_Kind (rq_Kind req) = ''Namespace'' \<and> GetKind E obj = ''Namespace'' \<and> rq_UserInfo req' = rq_UserInfo req \<and>
     mg_Decode mgr req = Inr raw \<and> mg_Decode mgr req' = Inr obj \<and>
     resp_object (npo_Handle E (orgWebhook E fl conf mgr self) req) raw = Some obj \<and>
     resp_allowed (nqv_Handle E (quotaWebhook E fl conf mgr self) req')"

text \<open>A user who is neither privileged nor a service account.\<close>

definition tenant :: "ext \<Rightarrow> ('s, 'd, 'q, 'l) conf \<Rightarrow> ('s, 'q) manager \<Rightarrow> UserInfo \<Rightarrow> Request \<Rightarrow> bool" where
  "tenant E conf mgr self req \<longleftrightarrow> \<not> fst (PrivilegedUserSkipper_Skip E (psk conf mgr self) req) \<and>
     \<not> HasPrefix (Username (rq_UserInfo req)) ''system:serviceaccount:''"

text \<open>The laws of the functions that read documents.\<close>

definition documents_ok :: "ext \<Rightarrow> bool" where
  "documents_ok E \<longleftrightarrow> nested_map_ok E \<and> getters_ok E \<and> nested_string_ok E"

lemma privileged_by_user:
  "rq_UserInfo req' = rq_UserInfo req \<Longrightarrow> PrivilegedUserSkipper_Skip E s req' = PrivilegedUserSkipper_Skip E s req"
  by (simp add: PrivilegedUserSkipper_Skip_def)

lemma admitted_organization:
  assumes "documents_ok E" and "fl_namespaceProjectOrganizationMutatorEnabled fl" and "tenant E conf mgr self req"
    and "admitted E fl conf mgr self req req' raw obj" and "jget [''metadata''] raw = Some (JObj md)"
  obtains org g where "org \<noteq> []" and "mg_getGroup mgr org = Inr g" and "Username (rq_UserInfo req) \<in> set (grp_Users g)"
    and "mget (string_map_at labelsPath obj) (cf_OrganizationLabel conf) = Some org"
proof -
  let ?m = "orgWebhook E fl conf mgr self"
  have f: "npo_Decode ?m = mg_Decode mgr" "npo_getGroup ?m = mg_getGroup mgr" "npo_OrganizationLabel ?m = cf_OrganizationLabel conf"
    by (simp_all add: orgWebhook_def)
  have k: "gvk_Kind (rq_Kind req) \<noteq> ''Project''" and d: "npo_Decode ?m req = Inr raw"
    and o: "resp_object (npo_Handle E ?m req) raw = Some obj"
    using assms(4) by (simp_all add: admitted_def f)
  have s: "\<not> fst (unless_project (npo_Skipper ?m) req)"
    using assms(2,3) by (auto simp: unless_project_def orgWebhook_def switchedSkipper_eq tenant_def split: prod.splits option.splits)
  note allowed = resp_object_allowed [OF o]
  have h: "npo_Handle E ?m req = handleUserRequested E ?m (Username (rq_UserInfo req)) raw"
    using npo_Handle_check [OF allowed s] d k assms(3) by (simp add: npo_check_def handleNamespace_def tenant_def)
  have laws: "nested_map_ok E" "getters_ok E" using assms(1) by (simp_all add: documents_ok_def)
  from handleUserRequested_allowed [OF laws assms(5), of ?m "Username (rq_UserInfo req)"] allowed obtain org g where
    "org \<noteq> []" "mg_getGroup mgr org = Inr g" "Username (rq_UserInfo req) \<in> set (grp_Users g)"
    and a: "admitted_with E ?m raw (npo_Handle E ?m req) org" by (auto simp: h f)
  moreover have "mget (string_map_at labelsPath obj) (cf_OrganizationLabel conf) = Some org"
    using a o by (auto simp: admitted_with_def f)
  ultimately show ?thesis using that by blast
qed

section \<open>Properties\<close>

text \<open>
  C6: A namespace that an unprivileged user creates goes on with the label of an organization of which the user is a
  member, and it is this organization whose namespaces the quota webhook has counted: unless quotas are
  switched off, the organization had fewer namespaces than its limit.
\<close>

theorem namespace_belongs_and_counts:
  assumes "documents_ok E" and "fl_namespaceProjectOrganizationMutatorEnabled fl" and "tenant E conf mgr self req"
    and "admitted E fl conf mgr self req req' raw obj" and "jget [''metadata''] raw = Some (JObj md)"
  shows "\<exists>org g. org \<noteq> [] \<and> mg_getGroup mgr org = Inr g \<and> Username (rq_UserInfo req) \<in> set (grp_Users g) \<and>
    mget (string_map_at labelsPath obj) (cf_OrganizationLabel conf) = Some org \<and>
    (SkipValidateQuota (quotaWebhook E fl conf mgr self) \<or>
     (\<exists>limit nss. nqv_limit E (quotaWebhook E fl conf mgr self) org = Inr limit \<and>
        mg_listNamespaces mgr (cf_OrganizationLabel conf) org = Inr nss \<and> int (length nss) < limit))"
proof -
  let ?v = "quotaWebhook E fl conf mgr self"
  have f: "nqv_Decode ?v = mg_Decode mgr" "nqv_OrganizationLabel ?v = cf_OrganizationLabel conf" "nqv_listNamespaces ?v = mg_listNamespaces mgr"
    by (simp_all add: quotaWebhook_def)
  obtain org g where og: "org \<noteq> []" "mg_getGroup mgr org = Inr g" "Username (rq_UserInfo req) \<in> set (grp_Users g)"
    and l: "mget (string_map_at labelsPath obj) (cf_OrganizationLabel conf) = Some org"
    using admitted_organization [OF assms] by blast
  have "jget [''metadata'', ''labels'', cf_OrganizationLabel conf] obj = Some (JStr org)"
    using string_map_member [OF l] by (simp add: labelsPath_def)
  with assms(1,4) og(1) have c: "nqv_organization E ?v req' obj = Inr org"
    by (simp add: nqv_organization_def documents_ok_def nested_string_ok_def admitted_def f)
  have s: "\<not> fst (nqv_Skipper ?v req')"
    using assms(3,4) privileged_by_user [of req' req E "psk conf mgr self"] by (simp add: quotaWebhook_def tenant_def admitted_def)
  have "resp_allowed (nqv_Handle E ?v req')" "nqv_Decode ?v req' = Inr obj" using assms(4) by (simp_all add: admitted_def f)
  with s have "resp_allowed (nqv_check E ?v req')" by (auto elim: nqv.allowed_cases)
  with c \<open>nqv_Decode ?v req' = Inr obj\<close> have "SkipValidateQuota ?v \<or> (\<exists>limit nss. nqv_limit E ?v org = Inr limit \<and>
      mg_listNamespaces mgr (cf_OrganizationLabel conf) org = Inr nss \<and> int (length nss) < limit)"
    by (auto simp: nqv_check_allowed f)
  with og l show ?thesis by blast
qed

text \<open>
  C5: The creator of a namespace gets the default roles in it: after a successful reconciliation of the stored
  namespace, every default role that had no binding yet is bound to a group of which the creator is a member,
  the group of the organization that the namespace is labelled with.
\<close>

theorem creator_gets_roles:
  assumes "documents_ok E" and "fl_namespaceProjectOrganizationMutatorEnabled fl" and "tenant E conf mgr self req"
    and "admitted E fl conf mgr self req req' raw obj" and "jget [''metadata''] raw = Some (JObj md)"
    and "combine_ok E" and "is_order ord" and "or_client_ok objs (orgRBACController conf cl)"
    and "or_getNamespace (orgRBACController conf cl) (req_Name creq) w = Inr ns"
    and "\<And>k. mget (ns_Labels ns) k = mget (string_map_at labelsPath obj) k"
    and "manages (orgRBACController conf cl) ns" and "mwf (cf_DefaultOrganizationClusterRoles conf)"
    and "or_Reconcile E ord (orgRBACController conf cl) creq w = (w', events, None)"
    and "mget (cf_DefaultOrganizationClusterRoles conf) name = Some cr" and "objs w (ns_Name ns, name) = None"
  shows "\<exists>org g rb. mg_getGroup mgr org = Inr g \<and> Username (rq_UserInfo req) \<in> set (grp_Users g) \<and>
    objs w' (ns_Name ns, name) = Some rb \<and> rb_Subjects rb = [orgSubject org] \<and> rr_Name (rb_RoleRef rb) = cr"
proof -
  let ?r = "orgRBACController conf cl"
  have f: "or_OrganizationLabel ?r = cf_OrganizationLabel conf" "or_DefaultClusterRoles ?r = cf_DefaultOrganizationClusterRoles conf"
    by (simp_all add: orgRBACController_def)
  obtain org g where og: "mg_getGroup mgr org = Inr g" "Username (rq_UserInfo req) \<in> set (grp_Users g)"
    and l: "mget (string_map_at labelsPath obj) (cf_OrganizationLabel conf) = Some org"
    using admitted_organization [OF assms(1-5)] by blast
  have "mstr (ns_Labels ns) (or_OrganizationLabel ?r) = org" using assms(10) l by (simp add: mstr_def f)
  with or_Reconcile_wanted(1) [OF assms(6-9,11) _ assms(13), of name cr] assms(12,14,15) have
    "objs w' (ns_Name ns, name) = Some (desired ns name cr org None)" by (simp add: f)
  with og show ?thesis by (auto simp: desired_def)
qed

section \<open>A concrete namespace\<close>

definition sample_submitted :: json where
  "sample_submitted = JObj [(''kind'', JStr ''Namespace''), (''metadata'', JObj [])]"

definition sample_labelled :: json where
  "sample_labelled = JObj [(''kind'', JStr ''Namespace''), (''metadata'', JObj [(''labels'', JObj [(''org'', JStr ''acme'')])])]"

definition tenant_flags :: flags where
  "tenant_flags = sample_flags\<lparr>fl_namespaceProjectOrganizationMutatorEnabled := True\<rparr>"

definition tenant_manager :: "(unit, rat) manager" where
  "tenant_manager = sample_manager\<lparr>mg_Decode := \<lambda>r. Inr (if rq_Operation r = Create then sample_submitted else sample_labelled),
     mg_getUser := \<lambda>n. Inr \<lparr>usr_Name = n, usr_Annotations = Some [(''default-org'', ''acme'')]\<rparr>,
     mg_getGroup := \<lambda>n. Inr \<lparr>grp_Name = n, grp_Users = [''alice'']\<rparr>\<rparr>"

definition tenant_request :: Request where
  "tenant_request = (sample_request ''Namespace'' ''ns'' ''alice'')\<lparr>rq_Operation := Create\<rparr>"

definition quota_request :: Request where
  "quota_request = (sample_request ''Namespace'' ''ns'' ''alice'')\<lparr>rq_Operation := Update\<rparr>"

lemma sample_documents: "documents_ok sample_ext"
  using sample_ext_laws by (simp add: documents_ok_def nested_string_ok_def sample_ext_simps)

lemma sample_not_privileged:
  assumes "rq_UserInfo req = \<lparr>Username = ''alice'', Groups = []\<rparr>"
  shows "PrivilegedUserSkipper_Skip sample_ext (psk sample_conf tenant_manager sample_self) req = (False, None)"
  using assms by (simp add: PrivilegedUserSkipper_Skip_def psk_def sample_conf_def tenant_manager_def sample_manager_def sample_self_def
      sample_ext_simps ClusterRoleRefsForUser_def listClusterRoleBindings_def clusterRoleRefs_def)

lemma sample_user: "rq_UserInfo tenant_request = \<lparr>Username = ''alice'', Groups = []\<rparr>"
  "rq_UserInfo quota_request = \<lparr>Username = ''alice'', Groups = []\<rparr>"
  by (simp_all add: tenant_request_def quota_request_def sample_request_def)

lemma sample_tenant: "tenant sample_ext sample_conf tenant_manager sample_self tenant_request"
  by (simp add: tenant_def sample_not_privileged sample_user HasPrefix_def)

lemma sample_mutated:
  "resp_object (npo_Handle sample_ext (orgWebhook sample_ext tenant_flags sample_conf tenant_manager sample_self) tenant_request) sample_submitted =
     Some sample_labelled"
proof -
  let ?m = "orgWebhook sample_ext tenant_flags sample_conf tenant_manager sample_self"
  have s: "npo_Skipper ?m tenant_request = (False, None)"
    by (simp add: orgWebhook_def switchedSkipper_eq sample_not_privileged sample_user tenant_flags_def)
  have k: "gvk_Kind (rq_Kind tenant_request) = ''Namespace''" by (simp add: tenant_request_def sample_request_def)
  have f: "npo_Decode ?m tenant_request = Inr sample_submitted" "npo_getUser ?m n = Inr \<lparr>usr_Name = n, usr_Annotations = Some [(''default-org'', ''acme'')]\<rparr>"
    "npo_getGroup ?m n = Inr \<lparr>grp_Name = n, grp_Users = [''alice'']\<rparr>" "npo_OrganizationLabel ?m = ''org''"
    "npo_UserDefaultOrganizationAnnotation ?m = ''default-org''" for n
    by (simp_all add: orgWebhook_def tenant_manager_def tenant_request_def sample_conf_def)
  have "npo_handle sample_ext ?m tenant_request = Patched ''added default organization'' [\<lparr>op_Operation = ''add'', op_Path = ''/metadata/labels'',
      op_Value = json_of_map [(''org'', ''acme'')]\<rparr>]"
    by (simp add: npo_handle_def s k f npo_check_def handleNamespace_def handleUserRequested_def sample_user HasPrefix_def sample_ext_simps
        sample_submitted_def string_map_at_def mstr_def Let_def orgLabelPatch_def)
  then show ?thesis
    by (simp add: npo_Handle_def snd_logAdmissionResponse apply_op_def pointer_tokens_def sample_submitted_def sample_labelled_def json_of_map_def)
qed

lemma sample_counted:
  "resp_allowed (nqv_Handle sample_ext (quotaWebhook sample_ext tenant_flags sample_conf tenant_manager sample_self) quota_request)"
proof -
  let ?v = "quotaWebhook sample_ext tenant_flags sample_conf tenant_manager sample_self"
  have s: "nqv_Skipper ?v quota_request = (False, None)" by (simp add: quotaWebhook_def sample_not_privileged sample_user)
  have f: "nqv_Decode ?v quota_request = Inr sample_labelled" "nqv_OrganizationLabel ?v = ''org''" "EnableLegacyNamespaceQuota ?v"
    "LegacyNamespaceQuota ?v = 3" "nqv_getConfigMap ?v = (\<lambda>n m. Inl (NotFound m))" "nqv_listNamespaces ?v = (\<lambda>l v. Inr [])"
    by (simp_all add: quotaWebhook_def tenant_manager_def quota_request_def sample_manager_def tenant_flags_def sample_conf_def)
  have "resp_allowed (nqv_check sample_ext ?v quota_request)"
    by (simp add: nqv_check_allowed f nqv_organization_def sample_labelled_def sample_ext_simps nqv_limit_def nqv_baseLimit_def)
  with nqv.unskipped_checks [OF s] show ?thesis by simp
qed

lemma sample_admitted:
  "admitted sample_ext tenant_flags sample_conf tenant_manager sample_self tenant_request quota_request sample_submitted sample_labelled"
proof -
  have "gvk_Kind (rq_Kind tenant_request) = ''Namespace''" "GetKind sample_ext sample_labelled = ''Namespace''"
    "mg_Decode tenant_manager tenant_request = Inr sample_submitted" "mg_Decode tenant_manager quota_request = Inr sample_labelled"
    by (simp_all add: tenant_request_def quota_request_def sample_request_def sample_ext_simps sample_labelled_def tenant_manager_def)
  with sample_mutated sample_counted show ?thesis by (simp add: admitted_def sample_user)
qed

lemma sample_metadata: "jget [''metadata''] sample_submitted = Some (JObj [])"
  by (simp add: sample_submitted_def)

lemma tenant_flags_on: "fl_namespaceProjectOrganizationMutatorEnabled tenant_flags"
  by (simp add: tenant_flags_def)

theorem namespace_belongs_and_counts_witness:
  "\<exists>org g. org \<noteq> [] \<and> mg_getGroup tenant_manager org = Inr g \<and> ''alice'' \<in> set (grp_Users g) \<and>
     mget (string_map_at labelsPath sample_labelled) ''org'' = Some org"
proof -
  have "Username (rq_UserInfo tenant_request) = ''alice''" "cf_OrganizationLabel sample_conf = ''org''" by (simp_all add: sample_user sample_conf_def)
  with namespace_belongs_and_counts [OF sample_documents tenant_flags_on sample_tenant sample_admitted sample_metadata]
  show ?thesis by auto
qed

lemma sample_controller: "orgRBACController sample_conf (sample_clients (sample_or l)) = sample_or l"
  by (simp add: orgRBACController_def sample_clients_def sample_or_def sample_conf_def)

theorem creator_gets_roles_witness:
  "\<exists>w' g org rb. or_Reconcile sample_ext (\<lambda>al. al) (orgRBACController sample_conf (sample_clients (sample_or (Some [(''org'', ''acme'')]))))
       \<lparr>req_Namespace = [], req_Name = ''ns''\<rparr> Map.empty = (w', [], None) \<and>
     mg_getGroup tenant_manager org = Inr g \<and> ''alice'' \<in> set (grp_Users g) \<and>
     w' (''ns'', ''admin'') = Some rb \<and> rb_Subjects rb = [orgSubject org]"
proof -
  let ?l = "Some [(''org'', ''acme'')]" and ?req = "\<lparr>req_Namespace = [], req_Name = ''ns''\<rparr>"
  let ?r = "orgRBACController sample_conf (sample_clients (sample_or ?l))"
  obtain w' where r: "or_Reconcile sample_ext (\<lambda>al. al) ?r ?req Map.empty = (w', [], None)"
    using sample_or_Reconcile by (auto simp: sample_controller)
  have c: "or_client_ok (\<lambda>w. w) ?r" "or_getNamespace ?r (req_Name ?req) Map.empty = Inr (sample_orgns ?l)" "manages ?r (sample_orgns ?l)"
    using sample_or_ok sample_or_managed by (simp_all add: sample_controller sample_or_fields)
  have m: "mget (ns_Labels (sample_orgns ?l)) k = mget (string_map_at labelsPath sample_labelled) k" for k
    by (simp add: sample_orgns_def labelsPath_def sample_labelled_def string_map_at_def)
  have d: "mwf (cf_DefaultOrganizationClusterRoles sample_conf)" "mget (cf_DefaultOrganizationClusterRoles sample_conf) ''admin'' = Some ''admin''"
    by (simp_all add: sample_conf_def)
  have u: "Username (rq_UserInfo tenant_request) = ''alice''" "ns_Name (sample_orgns ?l) = ''ns''" by (simp_all add: sample_user sample_orgns_def)
  have e: "\<exists>org g rb. mg_getGroup tenant_manager org = Inr g \<and> Username (rq_UserInfo tenant_request) \<in> set (grp_Users g) \<and>
    w' (ns_Name (sample_orgns ?l), ''admin'') = Some rb \<and> rb_Subjects rb = [orgSubject org] \<and> rr_Name (rb_RoleRef rb) = ''admin''"
    by (rule creator_gets_roles [where objs = "\<lambda>w. w", OF sample_documents tenant_flags_on sample_tenant sample_admitted sample_metadata
      sample_ext_laws(1) is_order_id c(1,2) m c(3) d(1) r d(2)]) simp
  with r show ?thesis unfolding u by blast
qed

end
