(* ===== verification/ControlPlane.thy ===== *)
theory ControlPlane
  imports Tenancy GroupLifecycle
begin

text \<open>
  How the zone follows the control API. The controllers copy organizations, users and usage profiles of the control
  API into the cluster, and the webhooks decide on what is in the cluster. Each theorem joins a reconciliation
  with the decision or the object that depends on it, for the agent as main.go puts it together.
\<close>

section \<open>What the webhooks read\<close>

text \<open>A read of the client finds the object of the view, or gives the error NotFound if there is none.\<close>

definition reads :: "(string \<Rightarrow> err + 'a) \<Rightarrow> (string \<Rightarrow> 'a option) \<Rightarrow> bool" where
  "reads get objs \<longleftrightarrow> (\<forall>n. case objs n of Some obj \<Rightarrow> get n = Inr obj | None \<Rightarrow> \<exists>err. get n = Inl err \<and> IsNotFound err)"

lemma reads_Inr: "reads get objs \<Longrightarrow> get n = Inr obj \<longleftrightarrow> objs n = Some obj"
  unfolding reads_def by (drule spec [of _ n]) (auto split: option.splits)

text \<open>The request of a tenant for a namespace, which the organization webhook decides on.\<close>

definition tenant_request_ok ::
    "ext \<Rightarrow> flags \<Rightarrow> ('s, 'd, 'q, 'l) conf \<Rightarrow> ('s, 'q) manager \<Rightarrow> UserInfo \<Rightarrow> Request \<Rightarrow> json \<Rightarrow> bool" where
  "tenant_request_ok E fl conf mgr self req raw \<longleftrightarrow>
     fl_namespaceProjectOrganizationMutatorEnabled fl \<and>
     PrivilegedUserSkipper_Skip E (psk conf mgr self) req = (False, None) \<and>
     \<not> HasPrefix (Username (rq_UserInfo req)) ''system:serviceaccount:'' \<and>
     gvk_Kind (rq_Kind req) \<noteq> ''Project'' \<and> mg_Decode mgr req = Inr raw"

lemma orgWebhook_fields:
  "npo_Decode (orgWebhook E fl conf mgr self) = mg_Decode mgr" "npo_getUser (orgWebhook E fl conf mgr self) = mg_getUser mgr"
  "npo_getGroup (orgWebhook E fl conf mgr self) = mg_getGroup mgr"
  "npo_OrganizationLabel (orgWebhook E fl conf mgr self) = cf_OrganizationLabel conf"
  "npo_UserDefaultOrganizationAnnotation (orgWebhook E fl conf mgr self) = cf_UserDefaultOrganizationAnnotation conf"
  by (simp_all add: orgWebhook_def)

lemma tenant_decided:
  assumes "tenant_request_ok E fl conf mgr self req raw"
  shows "npo_Handle E (orgWebhook E fl conf mgr self) req =
    handleUserRequested E (orgWebhook E fl conf mgr self) (Username (rq_UserInfo req)) raw"
proof -
  let ?m = "orgWebhook E fl conf mgr self"
  have "npo_Skipper ?m req = (False, None)"
    using assms by (simp add: tenant_request_ok_def orgWebhook_def switchedSkipper_eq)
  then have "unless_project (npo_Skipper ?m) req = (False, None)" by (simp add: unless_project_def)
  from npo.unskipped_checks [OF this] assms show ?thesis
    by (simp add: tenant_request_ok_def npo_check_def handleNamespace_def orgWebhook_fields)
qed

section \<open>Membership\<close>

text \<open>The organization that a request is for: the one in its label, else the default of the user.\<close>

definition organizationFor :: "ext \<Rightarrow> ('s, 'd, 'q, 'l) conf \<Rightarrow> json \<Rightarrow> User \<Rightarrow> string" where
  "organizationFor E conf raw user =
     (if mstr (GetLabels E raw) (cf_OrganizationLabel conf) \<noteq> [] then mstr (GetLabels E raw) (cf_OrganizationLabel conf)
      else mstr (usr_Annotations user) (cf_UserDefaultOrganizationAnnotation conf))"

lemma organizationFor_requested:
  "requestedOrganization E (orgWebhook E fl conf mgr self) raw user = organizationFor E conf raw user"
  by (simp add: requestedOrganization_def organizationFor_def orgWebhook_fields)

lemma tenant_allowed_iff:
  assumes "tenant_request_ok E fl conf mgr self req raw" and "mg_getUser mgr (Username (rq_UserInfo req)) = Inr user"
  shows "resp_allowed (npo_Handle E (orgWebhook E fl conf mgr self) req) \<longleftrightarrow> organizationFor E conf raw user \<noteq> [] \<and>
    (\<exists>g. mg_getGroup mgr (organizationFor E conf raw user) = Inr g \<and> Username (rq_UserInfo req) \<in> set (grp_Users g))"
  unfolding tenant_decided [OF assms(1)]
  using handleUserRequested_iff [of "orgWebhook E fl conf mgr self" "Username (rq_UserInfo req)" user E raw] assms(2)
  by (simp add: orgWebhook_fields organizationFor_requested)

text \<open>
  C7: Who may create namespaces in an organization is decided in the control API: once the group of the
  organization has been reconciled without an error, a tenant's request for a namespace of the organization, be it by
  label or by default, is let through exactly if the upstream object of the group is not being deleted and resolves the
  tenant as a member. Who loses the membership, or whose organization is deleted, cannot create namespaces any more.
\<close>

theorem membership_follows_control_api:
  assumes "finalizers_ok F" and "gs_client_ok groups ups (groupSyncController fl cl)"
    and "gs_Reconcile F (groupSyncController fl cl) \<lparr>req_Namespace = m, req_Name = organizationFor E conf raw user\<rparr> w = (w', None)"
    and "upstreamOf (organizationFor E conf raw user) = (kind, ns, name)"
    and "gs_ForeignGet (groupSyncController fl cl) kind ns name w = Inr u"
    and "reads (mg_getGroup mgr) (groups w')" and "mg_getUser mgr (Username (rq_UserInfo req)) = Inr user"
    and "tenant_request_ok E fl conf mgr self req raw" and "organizationFor E conf raw user \<noteq> []"
  shows "resp_allowed (npo_Handle E (orgWebhook E fl conf mgr self) req) \<longleftrightarrow>
    up_DeletionTimestamp u = None \<and> Username (rq_UserInfo req) \<in> ur_Name ` set (up_ResolvedUserRefs u)"
proof -
  let ?org = "organizationFor E conf raw user" and ?r = "groupSyncController fl cl"
  have allowed: "resp_allowed (npo_Handle E (orgWebhook E fl conf mgr self) req) \<longleftrightarrow>
      (\<exists>g. groups w' ?org = Some g \<and> Username (rq_UserInfo req) \<in> set (grp_Users g))"
    using tenant_allowed_iff [OF assms(8,7)] assms(9) reads_Inr [OF assms(6)] by simp
  show ?thesis
  proof (cases "up_DeletionTimestamp u")
    case None
    then have "gs_sync F ?r (gs_finalizer ?r) \<lparr>grp_Name = ?org, grp_Users = []\<rparr> u w = (w', None)"
      using assms(3,4,5) by (simp add: gs_Reconcile_def gs_finalizer_def Let_def)
    from gs_sync_ok(1) [OF assms(1,2,5) None this] obtain g where
      "groups w' ?org = Some g" "grp_Users g = sort (map ur_Name (up_ResolvedUserRefs u))" by auto
    with allowed None show ?thesis by simp
  next
    case (Some t)
    then have "groups w' ?org = None" using gs_Reconcile_ok [OF assms(1,2,3) _ assms(5)] assms(4) by simp
    with allowed Some show ?thesis by simp
  qed
qed

section \<open>The default organization\<close>

text \<open>
  C19: A tenant who asks for a namespace without naming an organization gets the one that is set as the tenant's default
  in the control API, once the user has been reconciled without an error, and gets it only as a member of its group. The
  controller writes a fixed annotation, so this needs the configuration of the webhooks to name that annotation.
\<close>

theorem default_organization_follows_control_api:
  assumes "ua_ok users (cl_UserSync cl)" and "ua_ForeignGet (cl_UserSync cl) userName w = Inr upstream"
    and "ua_Get (cl_UserSync cl) userName w = Inr user"
    and "ua_Reconcile (cl_UserSync cl) \<lparr>req_Namespace = m, req_Name = userName\<rparr> w = (w', events, None)"
    and "reads (mg_getUser mgr) (users w')" and "cf_UserDefaultOrganizationAnnotation conf = DefaultOrganizationAnnotation"
    and "tenant_request_ok E fl conf mgr self req raw" and "Username (rq_UserInfo req) = userName"
    and "mstr (GetLabels E raw) (cf_OrganizationLabel conf) = []" and "cu_DefaultOrganizationRef upstream \<noteq> []"
    and "nested_map_ok E" and "jget [''metadata''] raw = Some (JObj md)"
  shows "if \<exists>g. mg_getGroup mgr (cu_DefaultOrganizationRef upstream) = Inr g \<and> userName \<in> set (grp_Users g)
    then admitted_with E (orgWebhook E fl conf mgr self) raw (npo_Handle E (orgWebhook E fl conf mgr self) req)
      (cu_DefaultOrganizationRef upstream)
    else \<not> resp_allowed (npo_Handle E (orgWebhook E fl conf mgr self) req)"
proof -
  let ?m = "orgWebhook E fl conf mgr self" and ?org = "cu_DefaultOrganizationRef upstream"
  have f: "ua_ForeignGet (cl_UserSync cl) (req_Name \<lparr>req_Namespace = m, req_Name = userName\<rparr>) w = Inr upstream"
    "ua_Get (cl_UserSync cl) (req_Name \<lparr>req_Namespace = m, req_Name = userName\<rparr>) w = Inr user" using assms(2,3) by simp_all
  from ua_Reconcile_syncs [OF assms(1) f assms(4), THEN conjunct1] obtain u where
    u: "users w' userName = Some u" "mstr (usr_Annotations u) DefaultOrganizationAnnotation = ?org" by auto
  have g: "mg_getUser mgr (Username (rq_UserInfo req)) = Inr u" using reads_Inr [OF assms(5)] u(1) assms(8) by simp
  have org: "organizationFor E conf raw u = ?org" using u(2) assms(6,9) by (simp add: organizationFor_def)
  show ?thesis
  proof (cases "\<exists>g. mg_getGroup mgr ?org = Inr g \<and> userName \<in> set (grp_Users g)")
    case True
    then obtain grp where "mg_getGroup mgr ?org = Inr grp" "userName \<in> set (grp_Users grp)" by blast
    with g u(2) assms(6,8,9,10) have "npo_Handle E ?m req = Patched ''added default organization'' [orgLabelPatch E ?m raw ?org]"
      unfolding tenant_decided [OF assms(7)] by (simp add: handleUserRequested_def orgWebhook_fields)
    with True admitted_with_patch [OF assms(11,12)] show ?thesis by simp
  next
    case False
    with tenant_allowed_iff [OF assms(7) g] assms(8) show ?thesis by (simp only: org) simp
  qed
qed

section \<open>The number of namespaces\<close>


section \<open>The quotas of namespaces\<close>

text \<open>\<open>SetControllerReference\<close> sets nothing but the owner references.\<close>

definition owner_ref_names :: "unstr \<Rightarrow> (ZoneUsageProfile \<Rightarrow> json \<Rightarrow> json \<times> err option) \<Rightarrow> bool" where
  "owner_ref_names U scr \<longleftrightarrow>
     (\<forall>p j j'. has_meta j \<longrightarrow> scr p j = (j', None) \<longrightarrow> us_GetName U j' = us_GetName U j \<and> us_GVK U j' = us_GVK U j)"

text \<open>The hard limits of a quota with those that the annotations of its namespace ask for.\<close>

definition overridden ::
    "unstr \<Rightarrow> resourceQuotaTransformer \<Rightarrow> Namespace \<Rightarrow> string \<Rightarrow> (string \<times> json) list \<Rightarrow> (string \<times> json) list \<Rightarrow> bool" where
  "overridden U l ns name hard hard' \<longleftrightarrow>
     (\<forall>k. if asked U l ns name k = {} then map_of hard' k = map_of hard k
          else \<exists>v \<in> asked U l ns name k. map_of hard' k = Some (JStr v))"

lemma apply_mutate_quota:
  assumes "upa_ok E U objs r" and "owner_ref_names U (upa_SetControllerReference r)" and "is_order ord" and "is_order ord'"
    and "upa_Transformers r = [Transform E U ord ord' l]" and "apply_mutate E U r profile ns name raw u = (u', None)"
    and "can_meta raw" and "us_GVK U raw = resourceQuotaV1gvk" and "jget resourceQuotaSpecHardPath raw = Some (JObj hard)"
  shows "\<exists>hard'. jget resourceQuotaSpecHardPath u' = Some (JObj hard') \<and> overridden U l ns name hard hard'"
proof -
  have ok: "unstr_ok E U" "nested_ok U" using assms(1) by (simp_all add: upa_ok_def)
  have d: "diverge [''metadata''] resourceQuotaSpecHardPath" by (simp add: resourceQuotaSpecHardPath_def)
  note n = named_facts [OF ok(1) assms(7), where n = "ns_Name ns" and name = name]
  from apply_mutate_stages [OF assms(1,7,6)] obtain u2 u3 lbls where
    s: "upa_SetControllerReference r profile (us_SetName U (us_SetNamespace U raw (ns_Name ns)) name) = (u2, None)"
    and r2: "\<And>q. diverge [''metadata''] q \<Longrightarrow> jget q u2 = jget q raw"
    and u3: "u3 = foldl (\<lambda>u t. fst (t u ns)) u2 (upa_Transformers r)" and c3: "can_meta u3" and u': "u' = us_SetLabels U u3 (Some lbls)"
    by metis
  from assms(2) s n(1) have u2: "us_GetName U u2 = name" "us_GVK U u2 = resourceQuotaV1gvk"
    using n(2,3) assms(8) unfolding owner_ref_names_def by metis+
  have "jget resourceQuotaSpecHardPath u2 = Some (JObj hard)" using r2 [OF d] assms(9) by simp
  from Transform_hard(1) [OF assms(3,4) ok(2) surjective_pairing u2(2) this]
  have "\<exists>hard'. jget resourceQuotaSpecHardPath u3 = Some (JObj hard') \<and> overridden U l ns name hard hard'"
    unfolding overridden_def u3 assms(5) u2(1) by (simp only: foldl.simps)
  moreover have "jget resourceQuotaSpecHardPath u' = jget resourceQuotaSpecHardPath u3"
    unfolding u' by (rule meta_setterD(3) [OF unstr_settersD(3) [OF ok(1)] c3 d])
  ultimately show ?thesis by simp
qed

lemma profileApplyController_ok:
  assumes "upa_ok E U objs (cl_ProfileApply cl)"
  shows "upa_ok E U objs (profileApplyController E U ord ord' fl conf cl)"
  using assms quota.transformer_axioms by (simp add: upa_ok_def profileApplyController_def)

text \<open>
  C9: A usage profile of the control API reaches the namespaces: once the profile of the control API has been copied and then
  applied without an error, every namespace of an organization that is not being deleted has every resource quota of the
  profile, owned by the profile, with the hard limits that the control API gives, except those that annotations of the
  namespace ask for, which have a value that they ask for.
\<close>

theorem profile_quota_follows_control_api:
  fixes ord1 ord2 :: "string order"
  assumes "cou_ok profiles zup_Name (ups_CreateOrUpdate (cl_ProfileSync cl))"
    and "ups_ForeignGet (cl_ProfileSync cl) profile w = Inr upstream" and "upr_Name upstream = profile"
    and "sync_Reconcile (cl_ProfileSync cl) \<lparr>req_Namespace = m, req_Name = profile\<rparr> w = (w1, events1, None)"
    and "reads (\<lambda>n. upa_Get (cl_ProfileApply cl) n w1) (profiles w1)" and "\<And>p n. profiles w1 n = Some p \<Longrightarrow> zup_Name p = n"
    and "upa_ok E U objs (cl_ProfileApply cl)" and "owner_ref_names U (upa_SetControllerReference (cl_ProfileApply cl))"
    and "combine_ok E" and "is_order ord1" and "is_order ord2" and "\<And>n. is_order (ord n)"
    and "fl_selectedUsageProfile fl = [] \<or> fl_selectedUsageProfile fl = profile"
    and "upa_ListHasLabel (cl_ProfileApply cl) (cf_OrganizationLabel conf) w1 = Inr nss" and "distinct (map ns_Name nss)"
    and "mwf (ups_Resources (upr_Spec upstream))"
    and "\<forall>x \<in> set (entries (ups_Resources (upr_Spec upstream))). convertible (cl_ProfileApply cl) (snd x)"
    and "apply_Reconcile E U now ord (profileApplyController E U ord1 ord2 fl conf cl) \<lparr>req_Namespace = m, req_Name = profile\<rparr>
       (w1, tracker) = ((w2, tracker'), events2, None)"
    and "ns \<in> set nss" and "\<not> deletion_passed now ns"
    and "mget (ups_Resources (upr_Spec upstream)) name = Some res" and "upa_ToUnstructured (cl_ProfileApply cl) res = Inr raw"
    and "us_GVK U raw = resourceQuotaV1gvk" and "jget resourceQuotaSpecHardPath raw = Some (JObj hard)"
  shows "\<exists>u hard'. objs w2 (resourceQuotaV1gvk, ns_Name ns, name) = Some u \<and> owner_of E u = Some profile \<and>
    jget resourceQuotaSpecHardPath u = Some (JObj hard') \<and>
    overridden U (NewResourceQuotaTransformer ''resourcequota.appuio.io'') ns name hard hard'"
proof -
  let ?r = "profileApplyController E U ord1 ord2 fl conf cl" and ?req = "\<lparr>req_Namespace = m, req_Name = profile\<rparr>"
  note ok = profileApplyController_ok [OF assms(7), of ord1 ord2 fl conf]
  have f: "upa_SelectedProfile ?r = fl_selectedUsageProfile fl" "upa_ToUnstructured ?r = upa_ToUnstructured (cl_ProfileApply cl)"
    "upa_SetControllerReference ?r = upa_SetControllerReference (cl_ProfileApply cl)" "upa_Get ?r = upa_Get (cl_ProfileApply cl)"
    "upa_ListHasLabel ?r (upa_OrganizationLabel ?r) w1 = Inr nss" "convertible ?r = convertible (cl_ProfileApply cl)"
    "upa_Transformers ?r = [Transform E U ord1 ord2 (NewResourceQuotaTransformer ''resourcequota.appuio.io'')]"
    using assms(14) by (simp_all add: profileApplyController_def convertible_def fun_eq_iff)
  have "ups_ForeignGet (cl_ProfileSync cl) (req_Name ?req) w = Inr upstream" using assms(2) by simp
  from sync_Reconcile_copies [OF assms(1) this assms(4)] obtain p where
    p: "profiles w1 profile = Some p" "zups_UpstreamSpec (zup_Spec p) = upr_Spec upstream" using assms(3) by auto
  have g: "upa_Get ?r (req_Name ?req) w1 = Inr p" using reads_Inr [OF assms(5)] p(1) by (simp add: f(4))
  have s: "upa_SelectedProfile ?r = [] \<or> upa_SelectedProfile ?r = req_Name ?req" using assms(13) by (simp add: f(1))
  have res: "profile_resources p = ups_Resources (upr_Spec upstream)" by (simp add: profile_resources_def p(2))
  have c: "\<forall>x \<in> set (entries (profile_resources p)). convertible ?r (snd x)" using assms(17) by (simp only: res f(6))
  have cm: "can_meta raw" using assms(17,22) map_of_SomeD [OF assms(21) [unfolded mget_def]] by (auto simp: convertible_def)
  from apply_Reconcile_made [OF ok assms(9,12) s g f(5) assms(15) assms(16) [folded res] c assms(18), THEN conjunct2,
      rule_format, OF assms(19,20) assms(21) [folded res] assms(22) [folded f(2)]]
  obtain u where u: "objs w2 (us_GVK U raw, ns_Name ns, name) = Some u"
    and made: "made E U ?r p ns name raw (objs w1 (us_GVK U raw, ns_Name ns, name)) u" by blast
  have "owner_of E u = Some profile"
    using made_applied [OF ok cm made] assms(6) [OF p(1)] by (simp add: applied_def)
  moreover from apply_mutate_quota [OF ok assms(8) [folded f(3)] assms(10,11) f(7) made [unfolded made_def] cm assms(23,24)]
  obtain hard' where "jget resourceQuotaSpecHardPath u = Some (JObj hard')"
    "overridden U (NewResourceQuotaTransformer ''resourcequota.appuio.io'') ns name hard hard'" by blast
  ultimately show ?thesis using u assms(23) by auto
qed

section \<open>A concrete zone\<close>

text \<open>A role binding controller that finds nothing, whatever the state is.\<close>

definition idle_or :: "'w OrganizationRBACReconciler" where
  "idle_or = \<lparr>or_getNamespace = (\<lambda>n w. Inl (NotFound n)), or_CreateOrUpdate = (\<lambda>obj f s w. (w, obj, s, [], Some (NewErr ''no''))),
     or_SetControllerReference = (\<lambda>ns rb. (rb, None)), or_OrganizationLabel = [], or_DefaultClusterRoles = None\<rparr>"

definition zone_flags :: flags where
  "zone_flags = tenant_flags\<lparr>fl_selectedUsageProfile := ''p'', fl_legacyNamespaceQuotaEnabled := False\<rparr>"

definition zone_conf :: "(unit, rat, rat, nat) conf" where
  "zone_conf = sample_conf\<lparr>cf_UserDefaultOrganizationAnnotation := DefaultOrganizationAnnotation\<rparr>"

definition lookup :: "(string \<Rightarrow> 'a option) \<Rightarrow> string \<Rightarrow> err + 'a" where
  "lookup objs n = (case objs n of None \<Rightarrow> Inl (NotFound n) | Some obj \<Rightarrow> Inr obj)"

lemma reads_lookup: "reads (lookup objs) objs"
  by (simp add: reads_def lookup_def split: option.split)

definition zone_user :: User where
  "zone_user = \<lparr>usr_Name = ''alice'', usr_Annotations = Some [(DefaultOrganizationAnnotation, ''acme'')]\<rparr>"

definition zone_manager ::
    "(string \<Rightarrow> User option) \<Rightarrow> (string \<Rightarrow> Group option) \<Rightarrow> (string \<Rightarrow> ZoneUsageProfile option) \<Rightarrow> (unit, rat) manager" where
  "zone_manager users groups profiles = tenant_manager\<lparr>mg_getUser := lookup users, mg_getGroup := lookup groups, mg_getProfile := lookup profiles\<rparr>"

lemma zone_tenant:
  "PrivilegedUserSkipper_Skip sample_ext (psk zone_conf (zone_manager us gs ps) sample_self) tenant_request = (False, None)"
  "tenant_request_ok sample_ext zone_flags zone_conf (zone_manager us gs ps) sample_self tenant_request sample_submitted"
proof -
  have "psk zone_conf (zone_manager us gs ps) sample_self = psk sample_conf tenant_manager sample_self"
    by (simp add: psk_def zone_conf_def zone_manager_def)
  with sample_not_privileged [OF sample_user(1)]
  show s: "PrivilegedUserSkipper_Skip sample_ext (psk zone_conf (zone_manager us gs ps) sample_self) tenant_request = (False, None)" by simp
  show "tenant_request_ok sample_ext zone_flags zone_conf (zone_manager us gs ps) sample_self tenant_request sample_submitted"
    unfolding tenant_request_ok_def s
    by (simp add: sample_user HasPrefix_def zone_flags_def tenant_flags_def zone_manager_def tenant_manager_def tenant_request_def
        sample_request_def)
qed

lemma zone_organization: "organizationFor sample_ext zone_conf sample_submitted zone_user = ''acme''"
  "mstr (GetLabels sample_ext sample_submitted) (cf_OrganizationLabel zone_conf) = []"
  by (simp_all add: organizationFor_def zone_conf_def zone_user_def sample_submitted_def sample_ext_simps string_map_at_def mstr_def)

text \<open>An organization of the control API with two members.\<close>

definition acme_members :: Upstream where
  "acme_members = \<lparr>up_Kind = OrganizationMembersKind, up_Namespace = ''acme'', up_Name = OrganizationMembersManifestName,
     up_DeletionTimestamp = None, up_Finalizers = [], up_ResolvedUserRefs = [\<lparr>ur_Name = ''bob''\<rparr>, \<lparr>ur_Name = ''alice''\<rparr>]\<rparr>"

definition acme_world :: gs_world where
  "acme_world = (Map.empty, [(OrganizationMembersKind, ''acme'', OrganizationMembersManifestName) \<mapsto> acme_members])"

definition group_clients :: "(gs_world, rat, nat) clients" where
  "group_clients = (sample_clients idle_or)\<lparr>cl_GroupSync := sample_gs\<rparr>"

lemma group_clients_ok: "gs_client_ok fst snd (groupSyncController fl group_clients)"
  using sample_gs_ok by (simp add: groupSyncController_def group_clients_def gs_client_ok_def gs_get_ok_def gs_delete_ok_def gs_update_ok_def)

lemma acme_upstream: "upstreamOf ''acme'' = (OrganizationMembersKind, ''acme'', OrganizationMembersManifestName)"
  "gs_ForeignGet (groupSyncController fl group_clients) OrganizationMembersKind ''acme'' OrganizationMembersManifestName acme_world = Inr acme_members"
  by (simp_all add: upstreamOf_def groupSyncController_def group_clients_def sample_gs_def acme_world_def acme_members_def up_key_def)

lemma acme_synced:
  "\<exists>w'. gs_Reconcile sample_finalizers (groupSyncController fl group_clients) \<lparr>req_Namespace = [], req_Name = ''acme''\<rparr> acme_world = (w', None)"
  unfolding gs_Reconcile_def Let_def CtrlRequest.simps acme_upstream prod.case sum.case
  by (simp add: acme_members_def gs_sync_def, simp add: groupSyncController_def group_clients_def sample_gs_def store_cou_def
      capturing_none_def group_mutate_def sample_finalizers_def)

theorem membership_follows_control_api_witness:
  "\<exists>w'. gs_Reconcile sample_finalizers (groupSyncController zone_flags group_clients) \<lparr>req_Namespace = [], req_Name = ''acme''\<rparr> acme_world =
     (w', None) \<and>
   resp_allowed (npo_Handle sample_ext (orgWebhook sample_ext zone_flags zone_conf
     (zone_manager [''alice'' \<mapsto> zone_user] (fst w') Map.empty) sample_self) tenant_request)"
proof -
  obtain w' where r: "gs_Reconcile sample_finalizers (groupSyncController zone_flags group_clients)
      \<lparr>req_Namespace = [], req_Name = organizationFor sample_ext zone_conf sample_submitted zone_user\<rparr> acme_world = (w', None)"
    using acme_synced unfolding zone_organization by blast
  let ?mgr = "zone_manager [''alice'' \<mapsto> zone_user] (fst w') Map.empty"
  have g: "reads (mg_getGroup ?mgr) (fst w')" "mg_getUser ?mgr (Username (rq_UserInfo tenant_request)) = Inr zone_user"
    "organizationFor sample_ext zone_conf sample_submitted zone_user \<noteq> []"
    by (simp_all add: zone_manager_def reads_lookup sample_user zone_organization) (simp add: lookup_def)
  from membership_follows_control_api [OF sample_finalizers_ok group_clients_ok r acme_upstream [folded zone_organization(1)] g(1,2)
      zone_tenant(2) g(3)] r show ?thesis
    by (auto simp: acme_members_def sample_user zone_organization)
qed

definition user_clients :: "(string \<Rightarrow> User option, rat, nat) clients" where
  "user_clients = (sample_clients idle_or)\<lparr>cl_UserSync := sample_ua\<rparr>"

lemma alice_synced:
  "\<exists>w' events. ua_Reconcile (cl_UserSync user_clients) \<lparr>req_Namespace = [], req_Name = ''alice''\<rparr> [''alice'' \<mapsto> sample_user] = (w', events, None)"
  by (simp add: ua_Reconcile_def user_clients_def sample_ua_def sample_user_def userPatch_def mstr_def DefaultOrganizationAnnotation_def)

theorem default_organization_follows_control_api_witness:
  "\<exists>w' events. ua_Reconcile (cl_UserSync user_clients) \<lparr>req_Namespace = [], req_Name = ''alice''\<rparr> [''alice'' \<mapsto> sample_user] = (w', events, None) \<and>
   admitted_with sample_ext (orgWebhook sample_ext zone_flags zone_conf (zone_manager w' [''acme'' \<mapsto> \<lparr>grp_Name = ''acme'', grp_Users = [''alice'']\<rparr>] Map.empty) sample_self)
     sample_submitted (npo_Handle sample_ext (orgWebhook sample_ext zone_flags zone_conf
       (zone_manager w' [''acme'' \<mapsto> \<lparr>grp_Name = ''acme'', grp_Users = [''alice'']\<rparr>] Map.empty) sample_self) tenant_request) ''acme''"
proof -
  obtain w' events where r: "ua_Reconcile (cl_UserSync user_clients) \<lparr>req_Namespace = [], req_Name = ''alice''\<rparr> [''alice'' \<mapsto> sample_user] =
      (w', events, None)" using alice_synced by blast
  let ?mgr = "zone_manager w' [''acme'' \<mapsto> \<lparr>grp_Name = ''acme'', grp_Users = [''alice'']\<rparr>] Map.empty"
  let ?up = "\<lparr>cu_Name = ''alice'', cu_DefaultOrganizationRef = ''acme''\<rparr>"
  have c: "ua_ok (\<lambda>w. w) (cl_UserSync user_clients)" "ua_ForeignGet (cl_UserSync user_clients) ''alice'' [''alice'' \<mapsto> sample_user] = Inr ?up"
    "ua_Get (cl_UserSync user_clients) ''alice'' [''alice'' \<mapsto> sample_user] = Inr sample_user"
    using sample_ua_ok by (simp_all add: user_clients_def) (simp_all add: sample_ua_def sample_user_def)
  have m: "reads (mg_getUser ?mgr) w'" "cf_UserDefaultOrganizationAnnotation zone_conf = DefaultOrganizationAnnotation"
    "Username (rq_UserInfo tenant_request) = ''alice''" "cu_DefaultOrganizationRef ?up \<noteq> []" "nested_map_ok sample_ext"
    using sample_ext_laws by (simp_all add: zone_manager_def reads_lookup zone_conf_def sample_user)
  have g: "\<exists>g. mg_getGroup ?mgr ''acme'' = Inr g \<and> ''alice'' \<in> set (grp_Users g)" by (simp add: zone_manager_def lookup_def)
  from default_organization_follows_control_api [where users = "\<lambda>w. w", OF c r m(1,2) zone_tenant(2) m(3) zone_organization(2) m(4,5) sample_metadata] g r
  show ?thesis by auto
qed

text \<open>A profile of the control API with a limit of two namespaces and a quota, and a namespace that asks for more.\<close>

definition zone_raw :: json where
  "zone_raw = JObj [(''kind'', JStr ''ResourceQuota''), (''spec'', JObj [(''hard'', JObj [(''pods'', JStr ''1'')])])]"

definition zone_upstream :: UsageProfile where
  "zone_upstream = \<lparr>upr_Name = ''p'', upr_Spec = \<lparr>ups_NamespaceCount = 2, ups_Resources = Some [(''q'', zone_raw)]\<rparr>\<rparr>"

definition zone_ns :: Namespace where
  "zone_ns = \<lparr>ns_Name = ''n'', ns_Labels = Some [(''org'', ''acme'')], ns_Annotations = Some [(''resourcequota.appuio.io/q.pods'', ''5'')],
     ns_DeletionTimestamp = None\<rparr>"

type_synonym zone_world = "(string \<Rightarrow> ZoneUsageProfile option) \<times> upa_world"

definition profile_clients :: "(zone_world, rat, nat) clients" where
  "profile_clients = (sample_clients idle_or)
     \<lparr>cl_ProfileSync := \<lparr>ups_ForeignGet = (\<lambda>n w. if n = ''p'' then Inr zone_upstream else Inl (NotFound n)),
        ups_CreateOrUpdate = (\<lambda>obj f s w. case store_cou zup_Name obj f s (fst w) of (v, r) \<Rightarrow> ((v, snd w), r)),
        ups_Get = (\<lambda>n w. lookup (fst w) n)\<rparr>,
      cl_ProfileApply := \<lparr>upa_Get = (\<lambda>n w. lookup (fst w) n), upa_ListHasLabel = (\<lambda>l w. Inr [zone_ns]),
        upa_CreateOrUpdate = (\<lambda>obj f s w. case store_cou (us_key sample_unstr) obj f s (snd w) of (v, r) \<Rightarrow> ((fst w, v), r)),
        upa_ToUnstructured = Inr, upa_SetControllerReference = (\<lambda>p j. (j, None)),
        upa_watcher = \<lparr>wt_available = True, wt_Watch = (\<lambda>g w. (w, None))\<rparr>,
        upa_OrganizationLabel = [], upa_Transformers = [], upa_SelectedProfile = []\<rparr>\<rparr>"

definition zone_profile :: ZoneUsageProfile where
  "zone_profile = \<lparr>zup_Name = ''p'', zup_Spec = \<lparr>zups_UpstreamSpec = upr_Spec zone_upstream\<rparr>\<rparr>"

lemma profile_synced:
  "\<exists>events. sync_Reconcile (cl_ProfileSync profile_clients) \<lparr>req_Namespace = [], req_Name = ''p''\<rparr> (Map.empty, Map.empty) =
     (([''p'' \<mapsto> zone_profile], Map.empty), events, None)"
  by (simp add: sync_Reconcile_def profile_clients_def store_cou_def capturing_none_def profile_mutate_def zone_upstream_def zone_profile_def lookup_def)

lemma profile_sync_ok:
  "cou_ok fst zup_Name (ups_CreateOrUpdate (cl_ProfileSync profile_clients))"
  "ups_ForeignGet (cl_ProfileSync profile_clients) ''p'' w = Inr zone_upstream" "upr_Name zone_upstream = ''p''"
  unfolding cou_ok_def profile_clients_def store_cou_def by (auto simp: zone_upstream_def split: option.splits prod.splits)



lemma profile_apply_ok:
  "upa_ok sample_ext sample_unstr snd (cl_ProfileApply profile_clients)"
  "owner_ref_names sample_unstr (upa_SetControllerReference (cl_ProfileApply profile_clients))"
proof -
  have "cou_ok snd (us_key sample_unstr) (upa_CreateOrUpdate (cl_ProfileApply profile_clients))"
    unfolding cou_ok_def profile_clients_def store_cou_def by (auto split: option.splits prod.splits)
  then show "upa_ok sample_ext sample_unstr snd (cl_ProfileApply profile_clients)"
    by (simp add: upa_ok_def sample_unstr_ok sample_unstr_nested profile_clients_def watch_frame_def owner_ref_ok_def)
  show "owner_ref_names sample_unstr (upa_SetControllerReference (cl_ProfileApply profile_clients))"
    by (simp add: owner_ref_names_def profile_clients_def)
qed

lemma sample_kind_known: "jget [''kind''] j = Some (JStr k) \<Longrightarrow> k \<noteq> [] \<Longrightarrow> \<not> us_GVKEmpty sample_unstr (us_GVK sample_unstr j)"
  by (simp add: sample_unstr_def getString_def)

lemma profile_applied:
  "\<exists>w2 tr events. apply_Reconcile sample_ext sample_unstr (\<lambda>_. 0) (\<lambda>_ al. al)
     (profileApplyController sample_ext sample_unstr (\<lambda>al. al) (\<lambda>al. al) zone_flags zone_conf profile_clients)
     \<lparr>req_Namespace = [], req_Name = ''p''\<rparr> (([''p'' \<mapsto> zone_profile], Map.empty), []) = ((w2, tr), events, None)"
proof -
  let ?r = "profileApplyController sample_ext sample_unstr (\<lambda>al. al) (\<lambda>al. al) zone_flags zone_conf profile_clients"
  have t: "toApply (\<lambda>_. 0) (\<lambda>_ al. al) zone_profile [zone_ns] = [(zone_ns, ''q'', zone_raw)]"
    by (simp add: toApply_def zone_profile_def zone_upstream_def zone_ns_def)
  have g: "upa_SelectedProfile ?r = ''p''" "upa_Get ?r ''p'' ([''p'' \<mapsto> zone_profile], v) = Inr zone_profile" "upa_ListHasLabel ?r l w = Inr [zone_ns]" for v l w
    by (simp_all add: profileApplyController_def profile_clients_def zone_flags_def lookup_def)
  let ?new = "newObject sample_unstr zone_raw zone_ns ''q''"
  let ?named = "us_SetName sample_unstr (us_SetNamespace sample_unstr zone_raw (ns_Name zone_ns)) ''q''"
  let ?T = "Transform sample_ext sample_unstr (\<lambda>al. al) (\<lambda>al. al) (NewResourceQuotaTransformer ''resourcequota.appuio.io'')"
  let ?u = "us_SetLabels sample_unstr (fst (?T ?named zone_ns)) (Some [(resourceOwnerLabel, zup_Name zone_profile)])"
  have r: "upa_ToUnstructured ?r = Inr" "upa_SetControllerReference ?r = (\<lambda>p j. (j, None))" "upa_Transformers ?r = [?T]"
    "upa_watcher ?r = \<lparr>wt_available = True, wt_Watch = (\<lambda>g w. (w, None))\<rparr>"
    "upa_CreateOrUpdate ?r = (\<lambda>obj f s w. case store_cou (us_key sample_unstr) obj f s (snd w) of (v, r) \<Rightarrow> ((fst w, v), r))"
    by (simp_all add: profileApplyController_def profile_clients_def)
  have "entries (GetLabels sample_ext ?new) = []" by (simp add: newObject_facts(2) [OF sample_unstr_ok])
  then have m: "apply_mutate sample_ext sample_unstr ?r zone_profile zone_ns ''q'' zone_raw ?new = (?u, None)"
    by (simp add: apply_mutate_def Let_def r)
  have "jget [''kind''] ?u = jget [''kind''] ?named"
    using quota.keeps_rest [OF sample_unstr_nested, of "[''kind'']"] by (simp add: sample_unstr_simps setMeta_rest)
  also have "\<dots> = Some (JStr ''ResourceQuota'')" by (simp add: sample_unstr_simps setMeta_rest) (simp add: zone_raw_def)
  finally have k: "\<not> us_GVKEmpty sample_unstr (us_GVK sample_unstr ?u)" by (rule sample_kind_known) simp
  have "\<exists>w2 tr. applyResourceToNamespace sample_ext sample_unstr ?r ''q'' zone_ns zone_raw zone_profile (([''p'' \<mapsto> zone_profile], Map.empty), []) =
      ((w2, tr), None)"
    by (simp add: applyResourceToNamespace_def r store_cou_def capturing_none_def m ensureWatch_def k)
  with g t sample_ext_laws(1) show ?thesis by (auto simp: apply_Reconcile_def combine_ok_def)
qed

lemma zone_asked:
  "asked sample_unstr (NewResourceQuotaTransformer ''resourcequota.appuio.io'') zone_ns ''q'' ''pods'' = {''5''}"
  by (auto simp: asked_def zone_ns_def asks_def NewResourceQuotaTransformer_def TrimSuffix_def HasSuffix_def HasPrefix_def
      TrimPrefix_def Cut_def)

theorem profile_quota_follows_control_api_witness:
  "\<exists>w2 tr events u hard. apply_Reconcile sample_ext sample_unstr (\<lambda>_. 0) (\<lambda>_ al. al)
     (profileApplyController sample_ext sample_unstr (\<lambda>al. al) (\<lambda>al. al) zone_flags zone_conf profile_clients)
     \<lparr>req_Namespace = [], req_Name = ''p''\<rparr> (([''p'' \<mapsto> zone_profile], Map.empty), []) = ((w2, tr), events, None) \<and>
   snd w2 (resourceQuotaV1gvk, ''n'', ''q'') = Some u \<and> owner_of sample_ext u = Some ''p'' \<and>
   jget resourceQuotaSpecHardPath u = Some (JObj hard) \<and> map_of hard ''pods'' = Some (JStr ''5'')"
proof -
  let ?cl = "cl_ProfileApply profile_clients" and ?w1 = "([''p'' \<mapsto> zone_profile], Map.empty :: upa_world)"
  obtain events1 where s: "sync_Reconcile (cl_ProfileSync profile_clients) \<lparr>req_Namespace = [], req_Name = ''p''\<rparr> (Map.empty, Map.empty) =
      (?w1, events1, None)" using profile_synced by blast
  obtain w2 tr events where a: "apply_Reconcile sample_ext sample_unstr (\<lambda>_. 0) (\<lambda>_ al. al)
     (profileApplyController sample_ext sample_unstr (\<lambda>al. al) (\<lambda>al. al) zone_flags zone_conf profile_clients)
     \<lparr>req_Namespace = [], req_Name = ''p''\<rparr> (?w1, []) = ((w2, tr), events, None)" using profile_applied by blast
  have r: "reads (\<lambda>n. upa_Get ?cl n ?w1) (fst ?w1)" by (simp add: profile_clients_def) (rule reads_lookup)
  have n: "fst ?w1 m = Some p \<Longrightarrow> zup_Name p = m" for m p by (auto simp: zone_profile_def split: if_splits)
  have f: "fl_selectedUsageProfile zone_flags = [] \<or> fl_selectedUsageProfile zone_flags = ''p''"
    "upa_ListHasLabel ?cl (cf_OrganizationLabel zone_conf) ?w1 = Inr [zone_ns]" "distinct (map ns_Name [zone_ns])"
    "mwf (ups_Resources (upr_Spec zone_upstream))"
    "\<forall>x \<in> set (entries (ups_Resources (upr_Spec zone_upstream))). convertible ?cl (snd x)"
    by (simp_all add: zone_flags_def profile_clients_def zone_upstream_def convertible_def can_meta_def) (simp add: zone_raw_def)
  have i: "zone_ns \<in> set [zone_ns]" "\<not> deletion_passed (\<lambda>_. 0) zone_ns"
    "mget (ups_Resources (upr_Spec zone_upstream)) ''q'' = Some zone_raw" "upa_ToUnstructured ?cl zone_raw = Inr zone_raw"
    "us_GVK sample_unstr zone_raw = resourceQuotaV1gvk" "jget resourceQuotaSpecHardPath zone_raw = Some (JObj [(''pods'', JStr ''1'')])"
    by (simp_all add: deletion_passed_def zone_ns_def zone_upstream_def profile_clients_def)
       (simp_all add: sample_unstr_def getString_def zone_raw_def resourceQuotaV1gvk_def resourceQuotaSpecHardPath_def)
  from profile_quota_follows_control_api [where profiles = fst and objs = snd, OF profile_sync_ok(1,2,3) s r n profile_apply_ok
      sample_ext_laws(1) is_order_id is_order_id is_order_id f a i]
  obtain u hard where "snd w2 (resourceQuotaV1gvk, ns_Name zone_ns, ''q'') = Some u" "owner_of sample_ext u = Some ''p''"
    "jget resourceQuotaSpecHardPath u = Some (JObj hard)"
    and o: "overridden sample_unstr (NewResourceQuotaTransformer ''resourcequota.appuio.io'') zone_ns ''q'' [(''pods'', JStr ''1'')] hard"
    by blast
  moreover from o [unfolded overridden_def, THEN spec, of "''pods''"] have "map_of hard ''pods'' = Some (JStr ''5'')"
    unfolding zone_asked by simp
  ultimately show ?thesis using a by (auto simp: zone_ns_def)
qed

end
