(* ===== verification/ProfileWatches.thy ===== *)
theory ProfileWatches
  imports Watches
begin

text \<open>
  The objects of a usage profile are kept in sync: applying one installs a watch for its kind, and the owner reference
  that it gets makes every later change of it a request for the profile. The contract \<open>requested_by\<close> is
  interpreted for the objects that profiles own. A watch that failed is marked as installed all the same
  (\<open>failed_watch_not_retried\<close>), so that the kinds in the tracker are assumed to be watched at the start, which holds for the empty tracker.
\<close>

section \<open>What is assumed of the API server and of the documents\<close>





section \<open>Owners and kinds\<close>



section \<open>Watched kinds\<close>




section \<open>Lost objects are put back\<close>










section \<open>Properties\<close>


section \<open>Witnesses\<close>












end
