(* ===== verification/Spec2Isabelle.thy ===== *)
theory Spec2Isabelle
  imports Skipper Ratio NodeLimits NamespaceMetadata NamespaceQuota QuotaRace PodNodeSelector OrgMutator ObjectGuards RatioValidator
    RatioController OrgRBAC GroupSync GroupLifecycle QuotaTransformer UsageProfiles LegacyQuota UserSync ZoneVersion
    ValidateLabels Access Config Watches WorkQueue GroupQueue QuotaMigration QuotaSharing WebhookTypes DeepCopies CommandLine Scheme Agent Tenancy
    ControlPlane ProfileWatches
begin

text \<open>
  Verification library of the appuio-cloud-agent (Go).

  The agent runs in every zone of the platform, beside the API server of an OpenShift cluster. It is a set
  of admission webhooks, which the API server asks before it stores an object, and of controllers, which
  bring objects of the cluster in line with the control API of the platform, a second cluster. The parts do
  not call each other; they meet in the objects that they read and write, in the label that names the
  organization of a namespace, and in the configuration that \<open>main\<close> gives them.

  \<^bold>\<open>Theories and sources.\<close>
  \<^item> \<open>Prelude\<close>, \<open>GoStrings\<close>: errors as values, panics, maps that may be nil, ranges over maps; the functions of
    packages strings, strconv and unicode/utf8 that are used, with integers of type \<open>int\<close> at 64 bits.
  \<^item> \<open>Kube\<close>: the fields of Kubernetes objects that the agent uses, admission requests and responses, JSON
    documents, pointers and patches, the profile of api/v1, and the record \<open>ext\<close> of third-party functions.
  \<^item> \<open>Skipper\<close>: skipper/*.go and skipper/userinfo. Who is exempt from the webhooks.
  \<^item> \<open>Ratio\<close>, \<open>NodeLimits\<close>: ratio/*.go and limits/limits.go. The memory to CPU ratio of requests and the limit
    that applies to it.
  \<^item> \<open>NamespaceMetadata\<close>, \<open>NamespaceQuota\<close>, \<open>PodNodeSelector\<close>, \<open>OrgMutator\<close>, \<open>ObjectGuards\<close>, \<open>RatioValidator\<close>: the webhooks of
    package webhooks, one per file; \<open>ObjectGuards\<close> has the three smallest.
    \<open>QuotaRace\<close>: the quota webhook when requests overlap. \<open>WebhookTypes\<close>: which answers the webhooks can give.
  \<^item> \<open>Cluster\<close>: what the controllers share: events, requests, the documented behaviour of package controllerutil.
  \<^item> \<open>RatioController\<close>, \<open>OrgRBAC\<close>, \<open>GroupSync\<close>, \<open>UsageProfiles\<close> with \<open>QuotaTransformer\<close>, \<open>LegacyQuota\<close>, \<open>UserSync\<close>,
    \<open>ZoneVersion\<close>: the reconcilers of package controllers. \<open>QuotaMigration\<close>: the annotations that both the legacy
    controller and the transformer of profiles read. \<open>QuotaSharing\<close>: the legacy controller on a store of shared maps.
  \<^item> \<open>Watches\<close>: the functions \<open>SetupWithManager\<close> of the reconcilers, as lists of watches. \<open>ProfileWatches\<close>: the watches that
    applying a profile adds, with the owner references that it sets.
  \<^item> \<open>GroupLifecycle\<close>: reconciliations of a group, interleaved with the moves of everybody else. \<open>WorkQueue\<close>: attempts and
    retries of a reconciler with the requests that its own changes make, for role bindings; \<open>GroupQueue\<close>: the same for groups.
  \<^item> \<open>ValidateLabels\<close>: validate/labels.go. \<open>Access\<close>: whoami/whoami.go and controllers/clustersource.
  \<^item> \<open>DeepCopies\<close>: the types of api/v1 as structs with references, and zz_generated.deepcopy.go.
  \<^item> \<open>CommandLine\<close>, \<open>Scheme\<close>, \<open>Config\<close>, \<open>Agent\<close>: the flags of main.go with package flag of the standard library, the
    initializer with the registration of api/v1 and testutils/testutils.go, config.go, and the rest of main.go with the
    process as a whole. \<open>Tenancy\<close>: the organization webhook, the quota webhook and the role
    binding controller, one after the other, on the way of a new namespace. \<open>ControlPlane\<close>: the controllers that copy groups, users and profiles of the
    control API, each followed by the webhook or the controller that uses the copy, as main.go puts them together.

  \<^bold>\<open>How code is modelled.\<close> A struct is a record, a function or method a definition that has its name (with the
  initials of its type in front where two types share it), and every return is a branch. A function that
  returns a value and an error gives a sum, \<open>Inl\<close> the error. A map is \<open>'v gomap\<close>: \<open>None\<close> the nil map, else an
  association list, and ranging over it takes the order as an argument (\<open>is_order\<close>), so that a theorem holds
  for every order. What can panic gives \<open>Panics\<close> or \<open>Returns\<close>. An interface with one method is the type of that
  method, and its contract is a locale. A read of a client is a function of the state \<open>'w\<close> of the API servers; a write
  also gives the next state; which objects a state holds is a view of it. All loops of the code range over
  finite lists or maps, so all definitions are total, by structural recursion; there is no fuel. Only the
  parser of the command line recurses on what is left of the arguments, which a measure shows to terminate. Records are values;
  where sharing of maps or structs matters (\<open>QuotaSharing\<close>, \<open>DeepCopies\<close>) they lie in a store, a list indexed by addresses.

  \<^bold>\<open>Parameters and what is assumed of them.\<close> Third-party code is a parameter, and only the theorems that
  need it assume something, always what its documentation says: \<open>ext\<close> (unstructured access, admission
  responses, string sets, wildcards, printing) with \<open>getters_ok\<close>, \<open>nested_map_ok\<close>, \<open>nested_string_ok\<close>, \<open>combine_ok\<close>, \<open>sets_ok\<close>;
  \<open>documents_ok\<close> collects those that the way of a namespace needs; \<open>dec_laws\<close>: decimals
  compute with rationals; \<open>cou_ok\<close>, \<open>scr_ok\<close>, \<open>finalizers_ok\<close>: \<open>CreateOrUpdate\<close>, \<open>SetControllerReference\<close> and the finalizer functions;
  \<open>gs_client_ok\<close>, \<open>or_client_ok\<close>, \<open>lq_ok\<close>, \<open>ua_ok\<close>, \<open>upa_ok\<close>, \<open>zv_update_ok\<close>: the clients of a reconciler read and write the objects of the view;
  \<open>regexps_ok\<close>: an expression in a group between anchors matches whole strings; \<open>exists_ok\<close>: the label selector operator \<open>Exists\<close>;
  \<open>unstr_ok\<close>, \<open>nested_ok\<close>: the setters of unstructured objects; \<open>deep_copy_ok\<close>, \<open>copiers_ok\<close>: the deep copies of other packages
  are equal and share nothing; \<open>cou_natural\<close>, \<open>cou_captures\<close>: \<open>CreateOrUpdate\<close> reaches the variables of a callback through
  the callback only; \<open>packages_ok\<close>: other packages add their types to the scheme; \<open>reads\<close>: a client that
  reads the objects of a view; \<open>owner_ref_names\<close>, \<open>owners_ok\<close>, \<open>kind_ok\<close>: an owner reference is part of the metadata and changes neither
  the name nor the kind of an object; \<open>watcher_ok\<close>, \<open>watches_only\<close>: a kind whose
  watch has been installed stays watched, and none is watched without; \<open>gs_missing\<close>, \<open>gs_delete_only\<close>, \<open>gs_update_only\<close>: what is not found does not
  exist, and a write that fails has been done or not. The witnesses instantiate all of them by concrete functions.

  \<^bold>\<open>Interfaces.\<close> \<open>skipper\<close> is the contract of an exemption and \<open>guarded_webhook\<close> the way the webhooks use it; the
  seven webhooks that have a skipper interpret it. \<open>ratio_fetcher\<close> is what the ratio webhook needs of the fetcher,
  \<open>transformer\<close> the contract of the transformers of profiles, \<open>mutation\<close> that of a callback of \<open>CreateOrUpdate\<close>
  (running it again changes nothing). \<open>requested_by\<close> joins a watch with the reconciler behind it: an owned
  object that is lost or changed makes a request and is put back; the objects of profiles interpret it, whose watches are added while the
  agent runs. \<open>restored_by\<close> is a special case of it, in which an object makes this one request; quotas and role bindings interpret that. \<open>settling\<close> is the
  contract of a reconciler that comes to rest, from which \<open>comes_to_rest\<close> follows for its queue; the controllers of role
  bindings and of groups interpret it.

  \<^bold>\<open>What is shown.\<close>
  \<^item> Webhooks: who is allowed and what the patched object is, on every branch: membership in the organization
    (\<open>OrgMutator\<close>), the quota of namespaces as an invariant of any sequence of requests (\<open>NamespaceQuota\<close>) and how
    far overlapping requests can exceed it (\<open>QuotaRace\<close>), the metadata of namespaces, node selectors, deadlines, and the
    objects that are reserved. JSON pointer escaping is undone by the unescaping of RFC 6901.
  \<^item> Ratios: the fetcher groups pods as the sums over each node selector; rounding is within one MiB of the exact
    ratio; in the namespaces of organizations the webhook and the controller warn about exactly the same ratios, a created object apart.
  \<^item> Controllers: a reconciliation without an error ends with the objects as they are wanted, and touches no
    other object; errors are returned and the rest of the work is still tried.
  \<^item> Over time: a group exists only while its upstream object carries the finalizer, unless its creation was interrupted, a deletion completes,
    lost bindings, changed quotas and the objects of profiles are put back, a kind is watched at most once, and the queues of the role binding
    controller and of the group sync controller get empty after a bounded number of attempts that succeed.
  \<^item> Sharing: the legacy quota controller never writes to the defaults that it shares between namespaces, and so
    behaves like the model on values; a deep copy of the profiles has the value of the original and is independent of it.
  \<^item> Types: a patch of a webhook applies and leaves a well-formed object, and only the mutating webhooks patch; every kind that is
    watched is registered.
  \<^item> Composition: every setting of the flags can be given on the command line; the process fails exactly when a set-up step does; a disabled webhook answers but exempts
    everybody; the legacy controller and the transformer read the same limits out of the annotations that both can read, for the resources that have a default; the quotas that the legacy controller writes are the ones the reserved-name webhook protects;
    a namespace goes on only with an organization of its creator, and its creator gets the default roles in it.
    The zone follows the control API (\<open>ControlPlane\<close>): who may create namespaces in an organization, which organization is a
    user's default, how many namespaces an organization may have, and which quotas they get. The default organization needs
    a configuration that names the annotation that the controller writes, because the controller does not read the configuration.

  \<^bold>\<open>What the code does not do.\<close> Some theorems state behaviour that the code hardly intends: a failed watch is
  reported as a success afterwards (\<open>failed_watch_not_retried\<close>), a group that was created while the finalizer could
  not be written stays for good (\<open>unguarded_group_stays\<close>), a created pod is not counted (\<open>recordCreate_new_pod\<close>),
  requests that overlap exceed the quota of namespaces (\<open>quota_overrun_reached\<close>), without a selected profile
  and the legacy quota nobody but privileged users can create a namespace (\<open>no_profile_no_namespaces\<close>), the ratio webhook
  warns in namespaces of no organization (\<open>ratio_warnings_agree\<close>), and
  unusual versions and zones without features panic (\<open>zv_panics\<close>).

  \<^bold>\<open>Not modelled.\<close> Logging and tracing (the messages of admission responses are modelled), and what controller-runtime
  does with the options of the manager. The back-off between retries; apart from \<open>WorkQueue\<close> and \<open>GroupQueue\<close> a theory states what one
  reconciliation does and which requests a change makes. The tests, and the imports in tools.go, which
  pin build tools.
\<close>

end
